theory Spec2Isabelle
  imports Complex_Main
begin

section \<open>Cells, rows and frames\<close>

text \<open>
  The script \<^verbatim>\<open>CMIC_SL_comparison.py\<close> works on pandas data frames. A frame is held
  here row by row; a row is a dictionary from column labels to cells. Column labels are
  names (the CMIC export, the derived columns) or integer positions (the headerless SL
  export). A cell is one of the values a table read from a text file holds:
  \<^item> \<open>Null\<close>: the missing value (\<^verbatim>\<open>NaN\<close>, and \<^verbatim>\<open>NaT\<close> in a date column);
  \<^item> \<open>Text\<close>: a Python \<^verbatim>\<open>str\<close>; a character is a code point below 256, which is what the
    ISO-8859-1 decoding of the CMIC export yields;
  \<^item> \<open>IntV\<close>, \<open>FloatV\<close>: numbers; floats are idealised as rationals, which is exact
    for the integer codes divided by 100 that the script computes;
  \<^item> \<open>DateV\<close>: a timestamp, produced by \<^verbatim>\<open>pd.to_datetime\<close>;
  \<^item> \<open>BoolV\<close>: a truth value, produced by the comparisons of \<^verbatim>\<open>compare_cols\<close>.
\<close>

datatype cell = Null | Text string | IntV int | FloatV rat | DateV int | BoolV bool

text \<open>
  Limits of the model. A frame is a list of rows, so a column has no dtype of its own and a
  frame without rows has no columns. What pandas decides on the dtype of a whole column
  (adding text to a float column in which every value is missing, joining on key columns
  of different dtypes) or on the columns of an empty frame is not part of the model, which
  treats every column as a column of objects. A frame has no two columns of one label.
  Integers are Python's unbounded integers, where \<^verbatim>\<open>astype(int)\<close> has 64 bits.
\<close>

datatype label = Col string | Ix nat

datatype error = KeyError | TypeError | ValueError | IndexError | AttributeError

type_synonym row = "label \<Rightarrow> cell option"

type_synonym frame = "row list"

text \<open>A raised exception is the left summand; statements are sequenced with \<open>bind_r\<close>.\<close>

definition bind_r :: "error + 'a \<Rightarrow> ('a \<Rightarrow> error + 'b) \<Rightarrow> error + 'b" where
  "bind_r m f = (case m of Inl e \<Rightarrow> Inl e | Inr x \<Rightarrow> f x)"

fun map_r :: "('a \<Rightarrow> error + 'b) \<Rightarrow> 'a list \<Rightarrow> error + 'b list" where
  "map_r f [] = Inr []"
| "map_r f (x # xs) = bind_r (f x) (\<lambda>y. bind_r (map_r f xs) (\<lambda>ys. Inr (y # ys)))"

fun seq_r :: "('a \<Rightarrow> error + 'a) list \<Rightarrow> 'a \<Rightarrow> error + 'a" where
  "seq_r [] x = Inr x"
| "seq_r (s # ss) x = bind_r (s x) (seq_r ss)"

text \<open>
  \<^verbatim>\<open>df[c]\<close> reads a column (\<^verbatim>\<open>KeyError\<close> when the frame has no such column), and
  \<^verbatim>\<open>df[c] = series\<close> writes one, row by row.
\<close>

definition row_get :: "label \<Rightarrow> row \<Rightarrow> error + cell" where
  "row_get c r = (case r c of None \<Rightarrow> Inl KeyError | Some v \<Rightarrow> Inr v)"

definition col_get :: "label \<Rightarrow> frame \<Rightarrow> error + cell list" where
  "col_get c df = map_r (row_get c) df"

definition col_set :: "label \<Rightarrow> cell list \<Rightarrow> frame \<Rightarrow> frame" where
  "col_set c vs df = map (\<lambda>(r, v). r(c \<mapsto> v)) (zip df vs)"

text \<open>The statement \<^verbatim>\<open>df[dst] = f(df[src])\<close> for an element-wise \<open>f\<close> that may raise.\<close>

definition col_apply :: "label \<Rightarrow> label \<Rightarrow> (cell \<Rightarrow> error + cell) \<Rightarrow> frame \<Rightarrow> error + frame" where
  "col_apply dst src f df =
     bind_r (col_get src df) (\<lambda>xs. bind_r (map_r f xs) (\<lambda>ys. Inr (col_set dst ys df)))"

section \<open>Python and pandas operations on cells\<close>

text \<open>The numeric reading of a cell: Python compares and adds \<^verbatim>\<open>True\<close> as 1.\<close>

fun int_val :: "cell \<Rightarrow> int option" where
  "int_val (IntV i) = Some i"
| "int_val (BoolV b) = Some (if b then 1 else 0)"
| "int_val _ = None"

fun num_val :: "cell \<Rightarrow> rat option" where
  "num_val (IntV i) = Some (of_int i)"
| "num_val (FloatV q) = Some q"
| "num_val (BoolV b) = Some (if b then 1 else 0)"
| "num_val _ = None"

text \<open>
  Python's scalar \<^verbatim>\<open>==\<close>. A missing value is a float \<^verbatim>\<open>NaN\<close>, which equals nothing,
  itself included.
\<close>

fun py_eq :: "cell \<Rightarrow> cell \<Rightarrow> bool" where
  "py_eq Null _ = False"
| "py_eq _ Null = False"
| "py_eq (Text s) (Text t) = (s = t)"
| "py_eq (DateV d) (DateV e) = (d = e)"
| "py_eq a b = (case (num_val a, num_val b) of (Some x, Some y) \<Rightarrow> x = y | _ \<Rightarrow> False)"

definition notnull :: "cell \<Rightarrow> bool" where
  "notnull v = (v \<noteq> Null)"

text \<open>
  Element-wise \<^verbatim>\<open>+\<close> of two series of objects: pandas leaves a missing operand missing
  and applies Python's \<^verbatim>\<open>+\<close> to the others, so text is concatenated, numbers are added and
  a mix raises \<^verbatim>\<open>TypeError\<close>.
\<close>

definition cell_add :: "cell \<Rightarrow> cell \<Rightarrow> error + cell" where
  "cell_add a b =
     (if a = Null \<or> b = Null then Inr Null
      else case (a, b) of
        (Text s, Text t) \<Rightarrow> Inr (Text (s @ t))
      | _ \<Rightarrow> (case (int_val a, int_val b) of
           (Some i, Some j) \<Rightarrow> Inr (IntV (i + j))
         | _ \<Rightarrow> (case (num_val a, num_val b) of
              (Some x, Some y) \<Rightarrow> Inr (FloatV (x + y))
            | _ \<Rightarrow> Inl TypeError)))"

definition series_add :: "cell list \<Rightarrow> cell list \<Rightarrow> error + cell list" where
  "series_add xs ys = map_r (\<lambda>(x, y). cell_add x y) (zip xs ys)"

definition series_add_scalar :: "cell list \<Rightarrow> cell \<Rightarrow> error + cell list" where
  "series_add_scalar xs y = map_r (\<lambda>x. cell_add x y) xs"

text \<open>Element-wise \<^verbatim>\<open>/ 100\<close>: true division, so the result is a float.\<close>

definition cell_div :: "cell \<Rightarrow> rat \<Rightarrow> error + cell" where
  "cell_div a d =
     (case a of
        Null \<Rightarrow> Inr Null
      | _ \<Rightarrow> (case num_val a of Some x \<Rightarrow> Inr (FloatV (x / d)) | None \<Rightarrow> Inl TypeError))"

subsection \<open>Strings\<close>

definition py_isspace :: "char \<Rightarrow> bool" where
  "py_isspace c = ((of_char c :: nat) \<in> {9, 10, 11, 12, 13, 28, 29, 30, 31, 32, 133, 160})"

definition py_strip :: "string \<Rightarrow> string" where
  "py_strip s = rev (dropWhile py_isspace (rev (dropWhile py_isspace s)))"

definition py_lower_char :: "char \<Rightarrow> char" where
  "py_lower_char c =
     (let n = (of_char c :: nat)
      in if (65 \<le> n \<and> n \<le> 90) \<or> (192 \<le> n \<and> n \<le> 222 \<and> n \<noteq> 215) then char_of (n + 32) else c)"

definition py_lower :: "string \<Rightarrow> string" where
  "py_lower s = map py_lower_char s"

text \<open>\<^verbatim>\<open>str(i)\<close> of an integer: its decimal digits, with a minus sign when negative.\<close>

definition digit_char :: "nat \<Rightarrow> char" where
  "digit_char d = char_of (48 + d)"

fun str_of_nat :: "nat \<Rightarrow> string" where
  "str_of_nat n = (if n < 10 then [digit_char n] else str_of_nat (n div 10) @ [digit_char (n mod 10)])"

definition str_of_int :: "int \<Rightarrow> string" where
  "str_of_int i = (if i < 0 then CHR ''-'' # str_of_nat (nat (- i)) else str_of_nat (nat i))"

text \<open>
  \<^verbatim>\<open>int(s)\<close> of a string: surrounding whitespace is dropped, then an optional sign and
  decimal digits, where single underscores may stand between digits; anything else raises
  \<^verbatim>\<open>ValueError\<close>.
\<close>

definition is_digit :: "char \<Rightarrow> bool" where
  "is_digit c = (48 \<le> (of_char c :: nat) \<and> (of_char c :: nat) \<le> 57)"

definition digit_of :: "char \<Rightarrow> int" where
  "digit_of c = int (of_char c - 48)"

fun parse_dec :: "int \<Rightarrow> string \<Rightarrow> int option" where
  "parse_dec a [] = Some a"
| "parse_dec a [c] = (if is_digit c then Some (10 * a + digit_of c) else None)"
| "parse_dec a (c # d # ds) =
     (if c = CHR ''_'' then (if is_digit d then parse_dec (10 * a + digit_of d) ds else None)
      else if is_digit c then parse_dec (10 * a + digit_of c) (d # ds)
      else None)"

definition parse_digits :: "string \<Rightarrow> int option" where
  "parse_digits s = (case s of [] \<Rightarrow> None | c # cs \<Rightarrow> if is_digit c then parse_dec (digit_of c) cs else None)"

definition py_int_of_str :: "string \<Rightarrow> int option" where
  "py_int_of_str s =
     (case py_strip s of
        [] \<Rightarrow> None
      | c # cs \<Rightarrow>
          if c = CHR ''-'' then map_option uminus (parse_digits cs)
          else if c = CHR ''+'' then parse_digits cs
          else parse_digits (c # cs))"

subsection \<open>Conversions of the library\<close>

text \<open>
  The text parsers and printers of pandas that the script calls but that no statement
  below depends on are parameters of the model: what \<^verbatim>\<open>pd.to_numeric\<close> makes of a cell
  that is not yet a number (\<open>None\<close> when it is not numeric), what \<^verbatim>\<open>pd.to_datetime\<close>
  makes of a cell that is neither missing nor a timestamp (a timestamp, \<^verbatim>\<open>NaT\<close>, or an
  exception), how a float and a timestamp print under \<^verbatim>\<open>str\<close>, what Python's
  \<^verbatim>\<open>float\<close> reads from a string (\<open>None\<close> when it raises \<^verbatim>\<open>ValueError\<close>), and whether
  pandas gives a column the \<^verbatim>\<open>.str\<close> accessor. A string that \<^verbatim>\<open>float\<close> reads as an
  infinity or as \<^verbatim>\<open>nan\<close> is left out.
\<close>

record pandas =
  numeric_of :: "cell \<Rightarrow> rat option"
  datetime_of :: "cell \<Rightarrow> error + int option"
  float_str :: "rat \<Rightarrow> string"
  date_str :: "int \<Rightarrow> string"
  float_of :: "string \<Rightarrow> rat option"
  str_accessor :: "cell list \<Rightarrow> bool"

text \<open>\<^verbatim>\<open>pd.to_numeric(series, errors="coerce")\<close>, element-wise.\<close>

definition to_numeric :: "pandas \<Rightarrow> cell \<Rightarrow> cell" where
  "to_numeric P v =
     (case v of
        Null \<Rightarrow> Null
      | IntV i \<Rightarrow> IntV i
      | FloatV q \<Rightarrow> FloatV q
      | _ \<Rightarrow> (case numeric_of P v of None \<Rightarrow> Null | Some q \<Rightarrow> FloatV q))"

text \<open>\<^verbatim>\<open>pd.to_datetime(series, infer_datetime_format=True)\<close>, element-wise.\<close>

definition to_datetime :: "pandas \<Rightarrow> cell \<Rightarrow> error + cell" where
  "to_datetime P v =
     (case v of
        Null \<Rightarrow> Inr Null
      | DateV d \<Rightarrow> Inr (DateV d)
      | _ \<Rightarrow> (case datetime_of P v of
           Inl e \<Rightarrow> Inl e
         | Inr None \<Rightarrow> Inr Null
         | Inr (Some d) \<Rightarrow> Inr (DateV d)))"

text \<open>\<^verbatim>\<open>series.astype(str)\<close>, element-wise: Python's \<^verbatim>\<open>str\<close>; it never raises.\<close>

definition astype_str :: "pandas \<Rightarrow> cell \<Rightarrow> string" where
  "astype_str P v =
     (case v of
        Null \<Rightarrow> ''nan''
      | Text s \<Rightarrow> s
      | IntV i \<Rightarrow> str_of_int i
      | FloatV q \<Rightarrow> float_str P q
      | DateV d \<Rightarrow> date_str P d
      | BoolV b \<Rightarrow> (if b then ''True'' else ''False''))"

text \<open>
  \<^verbatim>\<open>series.astype(int)\<close>, element-wise: a float is truncated towards zero, a string goes
  through \<^verbatim>\<open>int\<close>, a missing value raises \<^verbatim>\<open>ValueError\<close> (no integer stands for
  \<^verbatim>\<open>NaN\<close>). Integers are Python's, unbounded.
\<close>

definition trunc :: "rat \<Rightarrow> int" where
  "trunc q = (if 0 \<le> q then \<lfloor>q\<rfloor> else \<lceil>q\<rceil>)"

definition astype_int :: "cell \<Rightarrow> error + int" where
  "astype_int v =
     (case v of
        Null \<Rightarrow> Inl ValueError
      | Text s \<Rightarrow> (case py_int_of_str s of None \<Rightarrow> Inl ValueError | Some i \<Rightarrow> Inr i)
      | IntV i \<Rightarrow> Inr i
      | FloatV q \<Rightarrow> Inr (trunc q)
      | DateV d \<Rightarrow> Inl TypeError
      | BoolV b \<Rightarrow> Inr (if b then 1 else 0))"

section \<open>The CMIC normaliser\<close>

text \<open>\<^verbatim>\<open>convert_to_str(val)\<close>: \<^verbatim>\<open>val.astype(int).astype(str)\<close>.\<close>

definition convert_to_str :: "cell list \<Rightarrow> error + cell list" where
  "convert_to_str val = bind_r (map_r astype_int val) (\<lambda>is. Inr (map (\<lambda>i. Text (str_of_int i)) is))"

text \<open>
  \<^verbatim>\<open>combine_cols(df, cols)\<close>: the recursion of the source on the list of columns. With no
  column left, \<^verbatim>\<open>len(cols) == 1\<close> fails and \<^verbatim>\<open>cols[0]\<close> raises \<^verbatim>\<open>IndexError\<close>.
\<close>

fun combine_cols :: "frame \<Rightarrow> label list \<Rightarrow> error + cell list" where
  "combine_cols df [] = Inl IndexError"
| "combine_cols df [c] = col_get c df"
| "combine_cols df (c # cs) =
     bind_r (col_get c df) (\<lambda>a.
     bind_r (series_add_scalar a (Text ''_'')) (\<lambda>b.
     bind_r (combine_cols df cs) (\<lambda>rest.
     series_add b rest)))"

definition cmic_cont_or_co :: "cell \<Rightarrow> string" where
  "cmic_cont_or_co val = (if py_eq val (IntV 0) then ''Contract'' else ''CO'')"

text \<open>The column renaming of \<^verbatim>\<open>clean_cmic\<close>; a column the table lacks is skipped.\<close>

definition cmic_names :: "(string \<times> string) list" where
  "cmic_names =
     [(''VLS_JOBVEN1_CODE'', ''job_no''), (''VLS_JOBVEN1_NAME'', ''job_name''),
      (''VLS_CONT_CODE'', ''subcontract_no''),
      (''VLS_JOBVEN2_CODE'', ''vendor_no''), (''VLS_JOBVEN2_NAME'', ''vendor_name''),
      (''VLS_SCH_TASK_CODE'', ''item_no''), (''VLS_SCH_TASK_NAME'', ''item_name''),
      (''VLS_SCH_CAT_CODE'', ''category''),
      (''VLS_SCH_PHS_CODE'', ''phase_no''), (''VLS_SCH_JOB_CODE'', ''job_cost_no''),
      (''VLS_CHG_CODE'', ''co_code''), (''VLS_MST_DATE'', ''co_date''),
      (''VLS_SCH_UNIT'', ''qty''), (''VLS_SCH_WM_CODE'', ''qty_type''),
      (''VLS_SCH_AMT'', ''dollar_amount''),
      (''VLS_CONT_AMT'', ''cont_total''), (''CS_JV2_CONT_AMT'', ''vendor_total'')]"

definition rename_row :: "(string \<times> string) list \<Rightarrow> row \<Rightarrow> row" where
  "rename_row names r =
     (\<lambda>l. case l of
        Ix n \<Rightarrow> r (Ix n)
      | Col c \<Rightarrow>
          (case map_of (map (\<lambda>(old, new). (new, old)) names) c of
             Some old \<Rightarrow> (case r (Col old) of Some v \<Rightarrow> Some v | None \<Rightarrow> r (Col c))
           | None \<Rightarrow> (if c \<in> fst ` set names then None else r (Col c))))"

definition rename :: "(string \<times> string) list \<Rightarrow> frame \<Rightarrow> frame" where
  "rename names df = map (rename_row names) df"

text \<open>\<^verbatim>\<open>df[df[c].notnull()]\<close>: the rows whose cell in column \<open>c\<close> is not missing.\<close>

definition keep_notnull :: "label \<Rightarrow> frame \<Rightarrow> error + frame" where
  "keep_notnull c df =
     bind_r (col_get c df) (\<lambda>vs. Inr (map fst (filter (\<lambda>(r, v). notnull v) (zip df vs))))"

definition short_name :: "pandas \<Rightarrow> nat \<Rightarrow> cell \<Rightarrow> error + cell" where
  "short_name P n v = Inr (Text (py_lower (py_strip (take n (astype_str P v)))))"

text \<open>\<^verbatim>\<open>lambda x: x+'0' if len(x)==6 else x\<close>; \<^verbatim>\<open>len\<close> of a number raises \<^verbatim>\<open>TypeError\<close>.\<close>

definition pad6 :: "string \<Rightarrow> string" where
  "pad6 x = (if length x = 6 then x @ ''0'' else x)"

definition pad_phase :: "cell \<Rightarrow> error + cell" where
  "pad_phase v = (case v of Text x \<Rightarrow> Inr (Text (pad6 x)) | _ \<Rightarrow> Inl TypeError)"

definition convert_col :: "label \<Rightarrow> frame \<Rightarrow> error + frame" where
  "convert_col c df = bind_r (col_get c df) (\<lambda>xs. bind_r (convert_to_str xs) (\<lambda>ys. Inr (col_set c ys df)))"

definition cols_to_convert :: "label list" where
  "cols_to_convert = [Col ''job_no'', Col ''vendor_no'', Col ''item_no'', Col ''job_cost_no'', Col ''category'']"

definition cols_to_combine :: "label list" where
  "cols_to_combine =
     [Col ''job_no'', Col ''subcontract_no'', Col ''item_no'', Col ''phase_no'',
      Col ''category'', Col ''cont_or_co'']"

definition set_ID :: "frame \<Rightarrow> error + frame" where
  "set_ID df = bind_r (combine_cols df cols_to_combine) (\<lambda>ids. Inr (col_set (Col ''ID'') ids df))"

text \<open>\<^verbatim>\<open>clean_cmic(df)\<close>, statement by statement.\<close>

definition clean_cmic :: "pandas \<Rightarrow> frame \<Rightarrow> error + frame" where
  "clean_cmic P df =
     seq_r
       ([keep_notnull (Col ''job_no''),
         col_apply (Col ''co_code'') (Col ''co_code'') (\<lambda>v. Inr (to_numeric P v)),
         col_apply (Col ''cont_or_co'') (Col ''co_code'') (\<lambda>x. Inr (Text (cmic_cont_or_co x))),
         col_apply (Col ''category'') (Col ''category'') (\<lambda>v. cell_div v 100),
         col_apply (Col ''co_date'') (Col ''co_date'') (to_datetime P),
         col_apply (Col ''item_name'') (Col ''item_name'') (short_name P 30),
         col_apply (Col ''vendor_name'') (Col ''vendor_name'') (short_name P 15),
         col_apply (Col ''phase_no'') (Col ''phase_no'') (\<lambda>v. Inr (Text (astype_str P v))),
         col_apply (Col ''phase_no'') (Col ''phase_no'') pad_phase]
        @ map convert_col cols_to_convert
        @ [set_ID])
       (rename cmic_names df)"

section \<open>The SL normaliser\<close>

text \<open>
  The SL export is read without a header: its columns are positions, and every row carries
  the label of its line in the frame's index, which \<^verbatim>\<open>sort_index\<close> reads.
\<close>

type_synonym iframe = "(nat \<times> row) list"

text \<open>A statement that assigns a column keeps the index and the order of the rows.\<close>

definition on_rows :: "(frame \<Rightarrow> error + frame) \<Rightarrow> iframe \<Rightarrow> error + iframe" where
  "on_rows step df = bind_r (step (map snd df)) (\<lambda>rows. Inr (zip (map fst df) rows))"

definition sl_cont_or_co :: "cell \<Rightarrow> cell \<Rightarrow> string" where
  "sl_cont_or_co val1 val2 = (if py_eq val1 val2 then ''Contract'' else ''CO'')"

text \<open>\<^verbatim>\<open>df[dst] = df.apply(f, axis=1)\<close>: \<open>f\<close> reads the cells of one row.\<close>

definition apply_axis1 :: "label \<Rightarrow> (row \<Rightarrow> error + cell) \<Rightarrow> frame \<Rightarrow> error + frame" where
  "apply_axis1 dst f df = bind_r (map_r f df) (\<lambda>ys. Inr (col_set dst ys df))"

definition sl_cont_or_co_row :: "row \<Rightarrow> error + cell" where
  "sl_cont_or_co_row x =
     bind_r (row_get (Ix 47) x) (\<lambda>val1. bind_r (row_get (Ix 48) x) (\<lambda>val2.
       Inr (Text (sl_cont_or_co val1 val2))))"

text \<open>\<^verbatim>\<open>df['cont_or_co'] = df.apply((lambda x: sl_cont_or_co(x[47], x[48])), axis=1)\<close>\<close>

definition assign_cont_or_co :: "iframe \<Rightarrow> error + iframe" where
  "assign_cont_or_co = on_rows (apply_axis1 (Col ''cont_or_co'') sl_cont_or_co_row)"

text \<open>
  Two cells are the same key for \<^verbatim>\<open>drop_duplicates\<close> and for \<^verbatim>\<open>merge\<close> when they hash
  and compare equal; there two missing values are the same key, and so are a number and
  its float.
\<close>

definition hash_key :: "cell \<Rightarrow> cell" where
  "hash_key v = (case num_val v of Some q \<Rightarrow> FloatV q | None \<Rightarrow> v)"

fun keep_first :: "'k list \<Rightarrow> ('k \<times> 'a) list \<Rightarrow> 'a list" where
  "keep_first seen [] = []"
| "keep_first seen ((k, x) # xs) =
     (if k \<in> set seen then keep_first seen xs else x # keep_first (k # seen) xs)"

text \<open>\<^verbatim>\<open>df.drop_duplicates(subset, inplace=True)\<close>: the first row of every key stays.\<close>

definition row_key :: "label list \<Rightarrow> row \<Rightarrow> error + cell list" where
  "row_key ks r = map_r (\<lambda>c. bind_r (row_get c r) (\<lambda>v. Inr (hash_key v))) ks"

definition drop_duplicates :: "label list \<Rightarrow> iframe \<Rightarrow> error + iframe" where
  "drop_duplicates ks df =
     bind_r (map_r (\<lambda>(i, r). row_key ks r) df) (\<lambda>keys. Inr (keep_first [] (zip keys df)))"

definition dedup_subset :: "label list" where
  "dedup_subset = [Ix 41, Ix 42, Col ''cont_or_co'', Col ''co_date'']"

text \<open>
  \<^verbatim>\<open>df[df['cont_or_co']=='Contract'].append(df[~(df['co_date'].isnull())]).sort_index()\<close>:
  the rows marked Contract, followed by the rows with a date, sorted by index label. Rows
  of one label keep their order here; the sort of pandas does not promise that.
\<close>

definition mask_rows :: "bool list \<Rightarrow> iframe \<Rightarrow> iframe" where
  "mask_rows bs df = map snd (filter fst (zip bs df))"

definition sort_index :: "iframe \<Rightarrow> iframe" where
  "sort_index df = sort_key fst df"

definition contract_or_dated :: "iframe \<Rightarrow> error + iframe" where
  "contract_or_dated df =
     bind_r (col_get (Col ''cont_or_co'') (map snd df)) (\<lambda>cs.
     bind_r (col_get (Col ''co_date'') (map snd df)) (\<lambda>ds.
       Inr (sort_index
         (mask_rows (map (\<lambda>c. py_eq c (Text ''Contract'')) cs) df
          @ mask_rows (map (\<lambda>d. \<not> (d = Null)) ds) df))))"

text \<open>
  The first statements of \<^verbatim>\<open>clean_sl(df)\<close>, which decide the rows that stay: the mark
  \<^verbatim>\<open>cont_or_co\<close>, the date \<^verbatim>\<open>co_date\<close>, the de-duplication and the row filter. The
  statements after them derive further columns of the rows kept here (\<open>sl_columns\<close> below).
\<close>

definition clean_sl_rows :: "pandas \<Rightarrow> iframe \<Rightarrow> error + iframe" where
  "clean_sl_rows P df =
     seq_r
       [assign_cont_or_co,
        on_rows (col_apply (Col ''co_date'') (Ix 102) Inr),
        on_rows (col_apply (Col ''co_date'') (Col ''co_date'') (to_datetime P)),
        drop_duplicates dedup_subset,
        contract_or_dated]
       df"

subsection \<open>The columns of the SL records\<close>

text \<open>
  \<^verbatim>\<open>x.split(sep)\<close> for a separator \<open>s # sep\<close>: the pieces between the occurrences of the
  separator, found from the left; an empty separator raises \<^verbatim>\<open>ValueError\<close>.
\<close>

fun split_aux :: "char \<Rightarrow> string \<Rightarrow> string \<Rightarrow> string \<Rightarrow> string list" where
  "split_aux s sep acc [] = [rev acc]"
| "split_aux s sep acc (c # cs) =
     (if c = s \<and> take (length sep) cs = sep
      then rev acc # split_aux s sep [] (drop (length sep) cs)
      else split_aux s sep (c # acc) cs)"

definition py_split :: "string \<Rightarrow> string \<Rightarrow> error + string list" where
  "py_split sep x = (case sep of [] \<Rightarrow> Inl ValueError | s # t \<Rightarrow> Inr (split_aux s t [] x))"

text \<open>\<^verbatim>\<open>xs[i]\<close> for \<open>i\<close> from 0, and \<^verbatim>\<open>xs[-1]\<close>; out of range raises \<^verbatim>\<open>IndexError\<close>.\<close>

definition py_item :: "'a list \<Rightarrow> nat \<Rightarrow> error + 'a" where
  "py_item xs i = (if i < length xs then Inr (xs ! i) else Inl IndexError)"

definition py_last :: "'a list \<Rightarrow> error + 'a" where
  "py_last xs = (case xs of [] \<Rightarrow> Inl IndexError | y # ys \<Rightarrow> Inr (last xs))"

text \<open>\<^verbatim>\<open>x.strip(chars)\<close>.\<close>

definition py_strip_chars :: "string \<Rightarrow> string \<Rightarrow> string" where
  "py_strip_chars chars x =
     rev (dropWhile (\<lambda>c. c \<in> set chars) (rev (dropWhile (\<lambda>c. c \<in> set chars) x)))"

text \<open>
  \<^verbatim>\<open>series.map(f)\<close> for a function that calls a method of \<^verbatim>\<open>str\<close>: on a cell that is
  not text (a missing value is a float) the call raises \<^verbatim>\<open>AttributeError\<close>.
\<close>

definition str_map :: "(string \<Rightarrow> error + string) \<Rightarrow> cell \<Rightarrow> error + cell" where
  "str_map f v = (case v of Text x \<Rightarrow> bind_r (f x) (\<lambda>y. Inr (Text y)) | _ \<Rightarrow> Inl AttributeError)"

text \<open>The lambdas of the lines 99 to 110 of the script, in the order of the script.\<close>

definition sl_job_no :: "string \<Rightarrow> error + string" where
  "sl_job_no x =
     bind_r (py_split '' '' x) (\<lambda>a. bind_r (py_item a 4) (\<lambda>b.
     bind_r (py_split ''-'' b) (\<lambda>c. bind_r (py_item c 0) (\<lambda>d. Inr (py_strip d)))))"

definition sl_job_name :: "string \<Rightarrow> error + string" where
  "sl_job_name x = bind_r (py_split ''- '' x) (\<lambda>a. bind_r (py_item a 1) (\<lambda>b. Inr (py_strip b)))"

definition sl_subcontract_no :: "string \<Rightarrow> error + string" where
  "sl_subcontract_no x = bind_r (py_split '' '' x) (\<lambda>a. py_item a 3)"

definition sl_vendor_no :: "string \<Rightarrow> error + string" where
  "sl_vendor_no x =
     bind_r (py_split '': '' x) (\<lambda>a. bind_r (py_item a 2) (\<lambda>b.
     bind_r (py_split '' '' b) (\<lambda>c. bind_r (py_item c 2) (\<lambda>d. Inr (py_strip d)))))"

definition sl_vendor_name :: "string \<Rightarrow> error + string" where
  "sl_vendor_name x =
     bind_r (py_split '': '' x) (\<lambda>a. bind_r (py_item a 2) (\<lambda>b.
     bind_r (py_split ''  '' b) (\<lambda>c. bind_r (py_last c) (\<lambda>d. Inr (py_strip d)))))"

definition sl_item_no :: "string \<Rightarrow> error + string" where
  "sl_item_no x = bind_r (py_split '': '' x) (\<lambda>a. bind_r (py_last a) (\<lambda>b. Inr (py_strip b)))"

definition sl_item_name :: "string \<Rightarrow> error + string" where
  "sl_item_name x = bind_r (py_split ''  '' x) (\<lambda>a. bind_r (py_item a 0) (\<lambda>b. Inr (py_strip b)))"

definition sl_category :: "string \<Rightarrow> error + string" where
  "sl_category x = bind_r (py_split '': '' x) (\<lambda>a. bind_r (py_last a) (\<lambda>b. Inr (py_strip b)))"

definition sl_phase_no :: "string \<Rightarrow> error + string" where
  "sl_phase_no x =
     bind_r (py_split ''Phase: '' x) (\<lambda>a. bind_r (py_last a) (\<lambda>b.
     bind_r (py_split ''  '' b) (\<lambda>c. bind_r (py_item c 0) (\<lambda>d.
       Inr (py_strip_chars ''.'' (py_strip d))))))"

definition sl_job_cost_no :: "string \<Rightarrow> error + string" where
  "sl_job_cost_no x =
     bind_r (py_split ''- '' x) (\<lambda>a. bind_r (py_item a 0) (\<lambda>b.
     bind_r (py_split '' '' b) (\<lambda>c. bind_r (py_last c) (\<lambda>d. Inr (py_strip d)))))"

text \<open>\<^verbatim>\<open>gather_co_rel_data\<close>, and the row function that calls it under \<^verbatim>\<open>df.apply\<close>.\<close>

definition gather_co_rel_data :: "cell \<Rightarrow> cell \<Rightarrow> cell \<Rightarrow> cell" where
  "gather_co_rel_data cont_type cont_val co_val =
     (if py_eq cont_type (Text ''CO'') then co_val else cont_val)"

definition gather_row :: "nat \<Rightarrow> nat \<Rightarrow> row \<Rightarrow> error + cell" where
  "gather_row cont co x =
     bind_r (row_get (Col ''cont_or_co'') x) (\<lambda>t.
     bind_r (row_get (Ix cont) x) (\<lambda>a.
     bind_r (row_get (Ix co) x) (\<lambda>b. Inr (gather_co_rel_data t a b))))"

text \<open>
  \<^verbatim>\<open>fillna(v)\<close>, \<^verbatim>\<open>.str.replace(',', '')\<close> (a cell that is not text becomes missing) and
  \<^verbatim>\<open>astype(float)\<close>, element-wise.
\<close>

definition fillna :: "cell \<Rightarrow> cell \<Rightarrow> cell" where
  "fillna v c = (if c = Null then v else c)"

definition str_replace_comma :: "cell \<Rightarrow> cell" where
  "str_replace_comma c = (case c of Text x \<Rightarrow> Text (filter (\<lambda>ch. ch \<noteq> CHR '','') x) | _ \<Rightarrow> Null)"

definition astype_float :: "pandas \<Rightarrow> cell \<Rightarrow> error + cell" where
  "astype_float P c =
     (case c of
        Null \<Rightarrow> Inr Null
      | Text x \<Rightarrow> (case float_of P x of None \<Rightarrow> Inl ValueError | Some q \<Rightarrow> Inr (FloatV q))
      | IntV i \<Rightarrow> Inr (FloatV (of_int i))
      | FloatV q \<Rightarrow> Inr (FloatV q)
      | DateV d \<Rightarrow> Inl TypeError
      | BoolV b \<Rightarrow> Inr (FloatV (if b then 1 else 0)))"

text \<open>
  \<^verbatim>\<open>df[dst] = pre(df[src]).str.replace(',', '').astype(float)\<close>, where \<open>pre\<close> is the
  \<^verbatim>\<open>fillna\<close> of the line, if it has one.
\<close>

definition comma_float :: "pandas \<Rightarrow> label \<Rightarrow> label \<Rightarrow> (cell \<Rightarrow> cell) \<Rightarrow> frame \<Rightarrow> error + frame" where
  "comma_float P dst src pre df =
     bind_r (col_get src df) (\<lambda>xs.
       if str_accessor P (map pre xs)
       then bind_r (map_r (astype_float P) (map (\<lambda>x. str_replace_comma (pre x)) xs))
              (\<lambda>zs. Inr (col_set dst zs df))
       else Inl AttributeError)"

text \<open>
  The statements of the lines 99 to 128 of \<^verbatim>\<open>clean_sl\<close>, which set the columns of the
  records and, last, the ID.
\<close>

definition sl_columns :: "pandas \<Rightarrow> frame \<Rightarrow> error + frame" where
  "sl_columns P =
     seq_r
       [col_apply (Col ''job_no'') (Ix 26) (str_map sl_job_no),
        col_apply (Col ''job_name'') (Ix 26) (str_map sl_job_name),
        col_apply (Col ''subcontract_no'') (Ix 20) (str_map sl_subcontract_no),
        col_apply (Col ''vendor_no'') (Ix 20) (str_map sl_vendor_no),
        col_apply (Col ''vendor_name'') (Ix 20) (str_map sl_vendor_name),
        col_apply (Col ''vendor_name'') (Col ''vendor_name'') (short_name P 15),
        col_apply (Col ''item_no'') (Ix 41) (str_map sl_item_no),
        col_apply (Col ''item_name'') (Ix 42) (str_map sl_item_name),
        col_apply (Col ''item_name'') (Col ''item_name'') (short_name P 30),
        col_apply (Col ''category'') (Ix 42) (str_map sl_category),
        col_apply (Col ''phase_no'') (Ix 42) (\<lambda>v. str_map sl_phase_no (Text (astype_str P v))),
        col_apply (Col ''job_cost_no'') (Ix 42) (str_map sl_job_cost_no),
        (\<lambda>df. Inr (map (\<lambda>r. r(Col ''co_code'' \<mapsto> Null)) df)),
        apply_axis1 (Col ''qty'') (gather_row 57 106),
        comma_float P (Col ''qty'') (Col ''qty'') (fillna (Text ''0'')),
        apply_axis1 (Col ''qty_type'') (gather_row 56 105),
        col_apply (Col ''qty_type'') (Col ''qty_type'') (\<lambda>v. Inr (fillna (Text ''LS'') v)),
        apply_axis1 (Col ''dollar_amount'') (gather_row 47 108),
        comma_float P (Col ''dollar_amount'') (Col ''dollar_amount'') (\<lambda>v. v),
        comma_float P (Col ''cont_total'') (Ix 128) (\<lambda>v. v),
        comma_float P (Col ''vendor_total'') (Ix 129) (\<lambda>v. v),
        set_ID]"

text \<open>
  \<^verbatim>\<open>clean_sl(df)\<close>: the statements that decide the rows, then the statements that set
  the columns; these keep the index and the order of the rows.
\<close>

definition clean_sl :: "pandas \<Rightarrow> iframe \<Rightarrow> error + iframe" where
  "clean_sl P df = bind_r (clean_sl_rows P df) (on_rows (sl_columns P))"

section \<open>The reconciler\<close>

definition cols_to_keep :: "string list" where
  "cols_to_keep =
     [''job_no'', ''job_name'', ''subcontract_no'', ''vendor_no'', ''vendor_name'',
      ''item_no'', ''item_name'', ''category'', ''phase_no'', ''job_cost_no'',
      ''cont_or_co'', ''co_date'', ''qty'', ''qty_type'', ''dollar_amount'',
      ''cont_total'', ''vendor_total'', ''ID'']"

definition cols_to_compare :: "string list" where
  "cols_to_compare =
     [''job_no'', ''job_name'', ''subcontract_no'', ''vendor_name'',
      ''item_no'', ''item_name'', ''category'', ''phase_no'', ''job_cost_no'',
      ''cont_or_co'', ''co_date'', ''qty'', ''qty_type'', ''dollar_amount'',
      ''cont_total'', ''vendor_total'']"

text \<open>\<^verbatim>\<open>df[cols]\<close>: the frame cut down to the listed columns, all of which it must have.\<close>

definition select_row :: "string list \<Rightarrow> row \<Rightarrow> error + row" where
  "select_row cols r =
     bind_r (map_r (\<lambda>c. row_get (Col c) r) cols) (\<lambda>_.
       Inr (\<lambda>l. case l of Col c \<Rightarrow> (if c \<in> set cols then r l else None) | Ix n \<Rightarrow> None))"

definition select_cols :: "string list \<Rightarrow> frame \<Rightarrow> error + frame" where
  "select_cols cols df = map_r (select_row cols) df"

text \<open>
  \<^verbatim>\<open>pd.merge(left, right, how='outer', on='ID', suffixes=('_cmic', '_sl'))\<close>. The keys
  are taken in the order of their first occurrence, the left frame before the right one.
  Under one key every left row is paired with every right row; a key
  of one frame only gives its rows with every column of the other frame missing.
\<close>

definition uniq :: "'a list \<Rightarrow> 'a list" where
  "uniq xs = rev (remdups (rev xs))"

definition key_order :: "cell list \<Rightarrow> cell list" where
  "key_order ks = uniq ks"

definition side_val :: "row option \<Rightarrow> string \<Rightarrow> cell" where
  "side_val side c =
     (case side of
        None \<Rightarrow> Null
      | Some x \<Rightarrow> (case x (Col c) of Some v \<Rightarrow> v | None \<Rightarrow> Null))"

definition merged_row :: "string list \<Rightarrow> row option \<Rightarrow> row option \<Rightarrow> row" where
  "merged_row cols l r =
     foldl (\<lambda>m c. m(Col (c @ ''_cmic'') \<mapsto> side_val l c, Col (c @ ''_sl'') \<mapsto> side_val r c))
       [Col ''ID'' \<mapsto> (case l of Some x \<Rightarrow> side_val l ''ID'' | None \<Rightarrow> side_val r ''ID'')]
       (removeAll ''ID'' cols)"

definition join_group :: "string list \<Rightarrow> row list \<Rightarrow> row list \<Rightarrow> row list" where
  "join_group cols ls rs =
     (if rs = [] then map (\<lambda>l. merged_row cols (Some l) None) ls
      else if ls = [] then map (\<lambda>r. merged_row cols None (Some r)) rs
      else concat (map (\<lambda>l. map (\<lambda>r. merged_row cols (Some l) (Some r)) rs) ls))"

definition rows_of_key :: "cell \<Rightarrow> (cell \<times> row) list \<Rightarrow> row list" where
  "rows_of_key k krs = map snd (filter (\<lambda>(k', r). k' = k) krs)"

definition merge_outer :: "string list \<Rightarrow> frame \<Rightarrow> frame \<Rightarrow> error + frame" where
  "merge_outer cols left right =
     bind_r (col_get (Col ''ID'') left) (\<lambda>lk.
     bind_r (col_get (Col ''ID'') right) (\<lambda>rk.
       let L = zip (map hash_key lk) left; R = zip (map hash_key rk) right
       in Inr (concat (map (\<lambda>k. join_group cols (rows_of_key k L) (rows_of_key k R))
                 (key_order (map hash_key lk @ map hash_key rk))))))"

text \<open>
  \<^verbatim>\<open>compare_cols(df, cols)\<close>. The element-wise \<^verbatim>\<open>==\<close> of two series is false wherever
  either cell is missing.
\<close>

definition compare_col :: "string \<Rightarrow> frame \<Rightarrow> error + frame" where
  "compare_col col df =
     bind_r (col_get (Col (col @ ''_cmic'')) df) (\<lambda>a.
     bind_r (col_get (Col (col @ ''_sl'')) df) (\<lambda>b.
       Inr (col_set (Col (col @ ''_zcomparison'')) (map (\<lambda>(x, y). BoolV (py_eq x y)) (zip a b)) df)))"

definition compare_cols :: "frame \<Rightarrow> string list \<Rightarrow> error + frame" where
  "compare_cols df cols = seq_r (map compare_col cols) df"

text \<open>
  \<^verbatim>\<open>combined.loc[(combined['cont_or_co_sl'] == 'Contract') & (combined['cont_or_co_cmic'] == 'Contract'), 'co_date_zcomparison'] = True\<close>
\<close>

definition force_contract_dates :: "frame \<Rightarrow> error + frame" where
  "force_contract_dates df =
     bind_r (col_get (Col ''cont_or_co_sl'') df) (\<lambda>s.
     bind_r (col_get (Col ''cont_or_co_cmic'') df) (\<lambda>c.
       Inr (map (\<lambda>(r, m). if m then r(Col ''co_date_zcomparison'' \<mapsto> BoolV True) else r)
              (zip df (map (\<lambda>(x, y). py_eq x (Text ''Contract'') \<and> py_eq y (Text ''Contract'')) (zip s c))))))"

text \<open>
  \<^verbatim>\<open>compare_dfs(cmic, sl)\<close>. Its last statement orders the columns by name; a row here is
  a dictionary, which has no column order.
\<close>

definition compare_dfs :: "frame \<Rightarrow> frame \<Rightarrow> error + frame" where
  "compare_dfs cmic sl =
     bind_r (select_cols cols_to_keep cmic) (\<lambda>left.
     bind_r (select_cols cols_to_keep sl) (\<lambda>right.
     bind_r (merge_outer cols_to_keep left right) (\<lambda>combined.
     bind_r (compare_cols combined cols_to_compare) force_contract_dates)))"

section \<open>The normaliser row by row\<close>

text \<open>
  Every statement of \<^verbatim>\<open>clean_cmic\<close> after the row filter works on a column element by
  element, so the function has a reading on one row: \<open>clean_cmic_row\<close>. The lemmas below
  show that \<open>clean_cmic\<close> returns a frame exactly when the row-wise reading returns on every
  kept row, and that the frame then holds the rows it returns.
\<close>

definition row_apply :: "label \<Rightarrow> label \<Rightarrow> (cell \<Rightarrow> error + cell) \<Rightarrow> row \<Rightarrow> error + row" where
  "row_apply dst src f r = bind_r (row_get src r) (\<lambda>v. bind_r (f v) (\<lambda>w. Inr (r(dst \<mapsto> w))))"

definition convert_cell :: "cell \<Rightarrow> error + cell" where
  "convert_cell v = bind_r (astype_int v) (\<lambda>i. Inr (Text (str_of_int i)))"

fun combine_row :: "row \<Rightarrow> label list \<Rightarrow> error + cell" where
  "combine_row r [] = Inl IndexError"
| "combine_row r [c] = row_get c r"
| "combine_row r (c # cs) =
     bind_r (row_get c r) (\<lambda>a.
     bind_r (cell_add a (Text ''_'')) (\<lambda>b.
     bind_r (combine_row r cs) (\<lambda>rest.
     cell_add b rest)))"

definition row_set_ID :: "row \<Rightarrow> error + row" where
  "row_set_ID r = bind_r (combine_row r cols_to_combine) (\<lambda>i. Inr (r(Col ''ID'' \<mapsto> i)))"

definition clean_cmic_row :: "pandas \<Rightarrow> row \<Rightarrow> error + row" where
  "clean_cmic_row P =
     seq_r
       ([row_apply (Col ''co_code'') (Col ''co_code'') (\<lambda>v. Inr (to_numeric P v)),
         row_apply (Col ''cont_or_co'') (Col ''co_code'') (\<lambda>x. Inr (Text (cmic_cont_or_co x))),
         row_apply (Col ''category'') (Col ''category'') (\<lambda>v. cell_div v 100),
         row_apply (Col ''co_date'') (Col ''co_date'') (to_datetime P),
         row_apply (Col ''item_name'') (Col ''item_name'') (short_name P 30),
         row_apply (Col ''vendor_name'') (Col ''vendor_name'') (short_name P 15),
         row_apply (Col ''phase_no'') (Col ''phase_no'') (\<lambda>v. Inr (Text (astype_str P v))),
         row_apply (Col ''phase_no'') (Col ''phase_no'') pad_phase]
        @ map (\<lambda>c. row_apply c c convert_cell) cols_to_convert
        @ [row_set_ID])"

definition cmic_columns :: "pandas \<Rightarrow> row \<Rightarrow> error + row" where
  "cmic_columns P =
     seq_r
       ([row_apply (Col ''co_code'') (Col ''co_code'') (\<lambda>v. Inr (to_numeric P v)),
         row_apply (Col ''cont_or_co'') (Col ''co_code'') (\<lambda>x. Inr (Text (cmic_cont_or_co x))),
         row_apply (Col ''category'') (Col ''category'') (\<lambda>v. cell_div v 100),
         row_apply (Col ''co_date'') (Col ''co_date'') (to_datetime P),
         row_apply (Col ''item_name'') (Col ''item_name'') (short_name P 30),
         row_apply (Col ''vendor_name'') (Col ''vendor_name'') (short_name P 15),
         row_apply (Col ''phase_no'') (Col ''phase_no'') (\<lambda>v. Inr (Text (astype_str P v))),
         row_apply (Col ''phase_no'') (Col ''phase_no'') pad_phase]
        @ map (\<lambda>c. row_apply c c convert_cell) cols_to_convert)"

text \<open>The rows \<^verbatim>\<open>clean_cmic\<close> keeps, under their new names: those with a job number.\<close>

definition cmic_kept :: "frame \<Rightarrow> frame" where
  "cmic_kept df =
     filter (\<lambda>r. case r (Col ''job_no'') of Some v \<Rightarrow> v \<noteq> Null | None \<Rightarrow> False) (rename cmic_names df)"

section \<open>Concrete runs\<close>

text \<open>
  An instance of the library's conversions for concrete runs: it reads decimal integers
  only, as numbers and as timestamps, and prints a float by its integer part; a column has
  the \<^verbatim>\<open>.str\<close> accessor when it is empty or holds a text.
\<close>

definition plain_pandas :: pandas where
  "plain_pandas =
     \<lparr>numeric_of = (\<lambda>v. case v of Text s \<Rightarrow> map_option of_int (py_int_of_str s) | _ \<Rightarrow> None),
      datetime_of = (\<lambda>v. case v of
          Text s \<Rightarrow> (case py_int_of_str s of Some d \<Rightarrow> Inr (Some d) | None \<Rightarrow> Inl ValueError)
        | _ \<Rightarrow> Inl TypeError),
      float_str = (\<lambda>q. str_of_int (trunc q) @ ''.0''),
      date_str = str_of_int,
      float_of = (\<lambda>s. map_option of_int (py_int_of_str s)),
      str_accessor = (\<lambda>col. col = [] \<or> list_ex (\<lambda>v. case v of Text s \<Rightarrow> True | _ \<Rightarrow> False) col)\<rparr>"

text \<open>One line of a CMIC export, under the export's own column names.\<close>

definition cmic_line :: "cell \<Rightarrow> cell \<Rightarrow> cell \<Rightarrow> cell \<Rightarrow> cell \<Rightarrow> cell \<Rightarrow> row" where
  "cmic_line job sub item phase cat co =
     [Col ''VLS_JOBVEN1_CODE'' \<mapsto> job, Col ''VLS_JOBVEN1_NAME'' \<mapsto> Text ''Bridge Retrofit'',
      Col ''VLS_CONT_CODE'' \<mapsto> sub,
      Col ''VLS_JOBVEN2_CODE'' \<mapsto> IntV 7001, Col ''VLS_JOBVEN2_NAME'' \<mapsto> Text ''Acme Steel Inc'',
      Col ''VLS_SCH_TASK_CODE'' \<mapsto> item, Col ''VLS_SCH_TASK_NAME'' \<mapsto> Text ''Rebar '',
      Col ''VLS_SCH_CAT_CODE'' \<mapsto> cat,
      Col ''VLS_SCH_PHS_CODE'' \<mapsto> phase, Col ''VLS_SCH_JOB_CODE'' \<mapsto> IntV 100,
      Col ''VLS_CHG_CODE'' \<mapsto> co, Col ''VLS_MST_DATE'' \<mapsto> Null,
      Col ''VLS_SCH_UNIT'' \<mapsto> FloatV 1, Col ''VLS_SCH_WM_CODE'' \<mapsto> Text ''LS'',
      Col ''VLS_SCH_AMT'' \<mapsto> FloatV 1500,
      Col ''VLS_CONT_AMT'' \<mapsto> FloatV 1500, Col ''CS_JV2_CONT_AMT'' \<mapsto> FloatV 1500]"

definition co_code_frame :: frame where
  "co_code_frame =
     [cmic_line (IntV 100) (Text ''5'') (IntV 20) (Text ''0010000'') (IntV 300) (IntV 0),
      cmic_line (IntV 100) (Text ''5'') (IntV 21) (Text ''0010000'') (IntV 300) (IntV 3),
      cmic_line (IntV 100) (Text ''5'') (IntV 22) (Text ''0010000'') (IntV 300) (Text ''A1'')]"

text \<open>A row is plain on a list of columns when each holds text without the separator.\<close>

definition plain_on :: "label list \<Rightarrow> row \<Rightarrow> bool" where
  "plain_on cs r = list_all (\<lambda>c. case r c of Some (Text s) \<Rightarrow> CHR ''_'' \<notin> set s | _ \<Rightarrow> False) cs"

text \<open>A row of six text fields, the columns that make the ID.\<close>

definition id_row :: "string \<Rightarrow> string \<Rightarrow> string \<Rightarrow> string \<Rightarrow> string \<Rightarrow> string \<Rightarrow> row" where
  "id_row job sub item phase cat mark =
     [Col ''job_no'' \<mapsto> Text job, Col ''subcontract_no'' \<mapsto> Text sub, Col ''item_no'' \<mapsto> Text item,
      Col ''phase_no'' \<mapsto> Text phase, Col ''category'' \<mapsto> Text cat, Col ''cont_or_co'' \<mapsto> Text mark]"

text \<open>
  One line of an SL export: the two amount columns and the date column, and a line as it
  stands before the de-duplication.
\<close>

definition sl_line :: "cell \<Rightarrow> cell \<Rightarrow> cell \<Rightarrow> row" where
  "sl_line amount1 amount2 date =
     [Ix 41 \<mapsto> Text ''Item: 20'', Ix 42 \<mapsto> Text ''Rebar  Phase: 0010000  Cat: 3'',
      Ix 47 \<mapsto> amount1, Ix 48 \<mapsto> amount2, Ix 102 \<mapsto> date]"

text \<open>A whole line of an SL export for one item: every column that \<^verbatim>\<open>clean_sl\<close> reads.\<close>

definition sl_full_line :: "string \<Rightarrow> cell \<Rightarrow> cell \<Rightarrow> cell \<Rightarrow> row" where
  "sl_full_line item amount1 amount2 date =
     [Ix 20 \<mapsto> Text ''Subcontract No : 5  Vendor: Vendor No 7001  Acme Steel Inc'',
      Ix 26 \<mapsto> Text ''Subcontract Status for Job 100-A - Bridge Retrofit'',
      Ix 41 \<mapsto> Text (''Item: '' @ item),
      Ix 42 \<mapsto> Text ''100- Rebar  Phase: 0010000.  Cat: 3'',
      Ix 47 \<mapsto> amount1, Ix 48 \<mapsto> amount2,
      Ix 56 \<mapsto> Text ''LS'', Ix 57 \<mapsto> Text ''1'',
      Ix 102 \<mapsto> date, Ix 105 \<mapsto> Null, Ix 106 \<mapsto> Null, Ix 108 \<mapsto> Text ''250'',
      Ix 128 \<mapsto> Text ''1,500'', Ix 129 \<mapsto> Text ''1,500'']"

definition dated_row :: "string \<Rightarrow> string \<Rightarrow> cell \<Rightarrow> row" where
  "dated_row item mark date =
     [Ix 41 \<mapsto> Text item, Ix 42 \<mapsto> Text ''Rebar  Phase: 0010000  Cat: 3'',
      Col ''cont_or_co'' \<mapsto> Text mark, Col ''co_date'' \<mapsto> date]"

text \<open>
  The reconciler row by row: the comparison of one field, the forced date comparison, and
  both in sequence, which is what \<^verbatim>\<open>compare_dfs\<close> does to a row of the merged frame.
\<close>

definition compare_col_row :: "string \<Rightarrow> row \<Rightarrow> error + row" where
  "compare_col_row col r =
     bind_r (row_get (Col (col @ ''_cmic'')) r) (\<lambda>a.
     bind_r (row_get (Col (col @ ''_sl'')) r) (\<lambda>b.
       Inr (r(Col (col @ ''_zcomparison'') \<mapsto> BoolV (py_eq a b)))))"

definition force_row :: "row \<Rightarrow> error + row" where
  "force_row r =
     bind_r (row_get (Col ''cont_or_co_sl'') r) (\<lambda>s.
     bind_r (row_get (Col ''cont_or_co_cmic'') r) (\<lambda>c.
       Inr (if py_eq s (Text ''Contract'') \<and> py_eq c (Text ''Contract'')
            then r(Col ''co_date_zcomparison'' \<mapsto> BoolV True) else r)))"

definition finish_row :: "row \<Rightarrow> error + row" where
  "finish_row r = bind_r (seq_r (map compare_col_row cols_to_compare) r) force_row"

text \<open>
  The join key of a record, and the number of rows an outer join gives for a key that
  occurs \<open>m\<close> times on the left and \<open>n\<close> times on the right.
\<close>

definition id_key :: "row \<Rightarrow> cell" where
  "id_key r = (case r (Col ''ID'') of Some v \<Rightarrow> hash_key v | None \<Rightarrow> Null)"

definition pair_count :: "nat \<Rightarrow> nat \<Rightarrow> nat" where
  "pair_count m n = (if n = 0 then m else if m = 0 then n else m * n)"

text \<open>A normalised record with a given ID, mark and change-order date.\<close>

definition canon_row :: "string \<Rightarrow> string \<Rightarrow> cell \<Rightarrow> row" where
  "canon_row ident mark date =
     [Col ''job_no'' \<mapsto> Text ''100'', Col ''job_name'' \<mapsto> Text ''Bridge Retrofit'',
      Col ''subcontract_no'' \<mapsto> Text ''5'', Col ''vendor_no'' \<mapsto> Text ''7001'',
      Col ''vendor_name'' \<mapsto> Text ''acme steel inc'', Col ''item_no'' \<mapsto> Text ''20'',
      Col ''item_name'' \<mapsto> Text ''rebar'', Col ''category'' \<mapsto> Text ''3'',
      Col ''phase_no'' \<mapsto> Text ''0010000'', Col ''job_cost_no'' \<mapsto> Text ''100'',
      Col ''cont_or_co'' \<mapsto> Text mark, Col ''co_date'' \<mapsto> date,
      Col ''qty'' \<mapsto> FloatV 1, Col ''qty_type'' \<mapsto> Text ''LS'',
      Col ''dollar_amount'' \<mapsto> FloatV 1500, Col ''cont_total'' \<mapsto> FloatV 1500,
      Col ''vendor_total'' \<mapsto> FloatV 1500, Col ''ID'' \<mapsto> Text ident]"

section \<open>Frames and rows\<close>

lemma bind_r_simps: "bind_r (Inr x) f = f x" "bind_r (Inl e) f = Inl e"
  by (simp_all add: bind_r_def)

lemma bind_r_Inr: "bind_r m f = Inr y \<longleftrightarrow> (\<exists>x. m = Inr x \<and> f x = Inr y)"
  by (cases m) (simp_all add: bind_r_def)

lemma bind_r_Inl: "bind_r m f = Inl e \<longleftrightarrow> (m = Inl e \<or> (\<exists>x. m = Inr x \<and> f x = Inl e))"
  by (cases m) (simp_all add: bind_r_def)

lemma map_r_Inr: "map_r f xs = Inr ys \<longleftrightarrow> list_all2 (\<lambda>x y. f x = Inr y) xs ys"
proof (induction xs arbitrary: ys)
  case Nil
  then show ?case by auto
next
  case (Cons x xs)
  then show ?case by (cases ys) (auto simp: bind_r_Inr)
qed

lemma map_r_total: "map_r (\<lambda>x. Inr (g x)) xs = Inr (map g xs)"
  by (induction xs) (simp_all add: bind_r_def)

lemma col_set_rows:
  "length vs = length df \<Longrightarrow> list_all2 (\<lambda>r r'. \<exists>v. r' = r(c \<mapsto> v)) df (col_set c vs df)"
  by (auto simp: col_set_def list_all2_conv_all_nth)

lemma col_apply_rows:
  assumes "col_apply dst src f df = Inr df'"
  shows "list_all2 (\<lambda>r r'. row_apply dst src f r = Inr r') df df'"
proof -
  from assms obtain xs ys where xs: "list_all2 (\<lambda>r x. row_get src r = Inr x) df xs"
    and ys: "list_all2 (\<lambda>x y. f x = Inr y) xs ys" and df': "df' = col_set dst ys df"
    by (auto simp: col_apply_def col_get_def bind_r_Inr map_r_Inr)
  have len: "length xs = length df" "length ys = length df"
    using list_all2_lengthD[OF xs] list_all2_lengthD[OF ys] by simp_all
  show ?thesis
    unfolding list_all2_conv_all_nth
  proof (intro conjI allI impI)
    show "length df = length df'" using len by (simp add: df' col_set_def)
  next
    fix i assume i: "i < length df"
    have "row_get src (df ! i) = Inr (xs ! i)" using xs i by (simp add: list_all2_conv_all_nth)
    moreover have "f (xs ! i) = Inr (ys ! i)" using ys i len by (simp add: list_all2_conv_all_nth)
    moreover have "df' ! i = (df ! i)(dst \<mapsto> ys ! i)" using i len by (simp add: df' col_set_def)
    ultimately show "row_apply dst src f (df ! i) = Inr (df' ! i)"
      by (simp add: row_apply_def bind_r_def)
  qed
qed

lemma convert_col_rows:
  assumes "convert_col c df = Inr df'"
  shows "list_all2 (\<lambda>r r'. row_apply c c convert_cell r = Inr r') df df'"
proof -
  have "convert_col c df = col_apply c c convert_cell df"
  proof -
    have "\<And>xs. bind_r (map_r astype_int xs) (\<lambda>is. Inr (map (\<lambda>i. Text (str_of_int i)) is)) = map_r convert_cell xs"
    proof -
      fix xs show "bind_r (map_r astype_int xs) (\<lambda>is. Inr (map (\<lambda>i. Text (str_of_int i)) is)) = map_r convert_cell xs"
        by (induction xs) (auto simp: bind_r_def convert_cell_def split: sum.splits)
    qed
    then show ?thesis by (simp add: convert_col_def col_apply_def convert_to_str_def)
  qed
  with assms show ?thesis by (simp add: col_apply_rows)
qed

lemma series_add_scalar_Inr:
  "series_add_scalar xs y = Inr zs \<longleftrightarrow> list_all2 (\<lambda>x z. cell_add x y = Inr z) xs zs"
  by (simp add: series_add_scalar_def map_r_Inr)

lemma series_add_Inr:
  assumes "length xs = length ys" "series_add xs ys = Inr zs"
  shows "length zs = length xs \<and> (\<forall>i < length xs. cell_add (xs ! i) (ys ! i) = Inr (zs ! i))"
  using assms by (auto simp: series_add_def map_r_Inr list_all2_conv_all_nth)

lemma combine_cols_rows:
  "cs \<noteq> [] \<Longrightarrow> combine_cols df cs = Inr ids \<Longrightarrow> list_all2 (\<lambda>r i. combine_row r cs = Inr i) df ids"
proof (induction df cs arbitrary: ids rule: combine_cols.induct)
  case (1 df)
  then show ?case by simp
next
  case (2 df c)
  then show ?case by (simp add: col_get_def map_r_Inr)
next
  case (3 df c c' cs)
  from "3.prems" obtain a b rest where a: "col_get c df = Inr a"
    and b: "series_add_scalar a (Text ''_'') = Inr b"
    and rest: "combine_cols df (c' # cs) = Inr rest"
    and ids: "series_add b rest = Inr ids"
    by (auto simp: bind_r_Inr)
  have ra: "list_all2 (\<lambda>r x. row_get c r = Inr x) df a" using a by (simp add: col_get_def map_r_Inr)
  have rb: "list_all2 (\<lambda>x z. cell_add x (Text ''_'') = Inr z) a b" using b by (simp add: series_add_scalar_Inr)
  have rr: "list_all2 (\<lambda>r i. combine_row r (c' # cs) = Inr i) df rest" using "3.IH" rest by simp
  have len: "length a = length df" "length b = length df" "length rest = length df"
    using list_all2_lengthD[OF ra] list_all2_lengthD[OF rb] list_all2_lengthD[OF rr] by simp_all
  from series_add_Inr[OF _ ids] len
  have li: "length ids = length df" and ri: "\<forall>i < length df. cell_add (b ! i) (rest ! i) = Inr (ids ! i)"
    by auto
  show ?case
    unfolding list_all2_conv_all_nth
  proof (intro conjI allI impI)
    show "length df = length ids" using li by simp
  next
    fix i assume i: "i < length df"
    have "row_get c (df ! i) = Inr (a ! i)" using ra i by (simp add: list_all2_conv_all_nth)
    moreover have "cell_add (a ! i) (Text ''_'') = Inr (b ! i)" using rb i len by (simp add: list_all2_conv_all_nth)
    moreover have "combine_row (df ! i) (c' # cs) = Inr (rest ! i)" using rr i by (simp add: list_all2_conv_all_nth)
    moreover have "cell_add (b ! i) (rest ! i) = Inr (ids ! i)" using ri i by simp
    ultimately show "combine_row (df ! i) (c # c' # cs) = Inr (ids ! i)"
      by (simp add: bind_r_def)
  qed
qed

lemma set_ID_rows:
  assumes "set_ID df = Inr df'"
  shows "list_all2 (\<lambda>r r'. row_set_ID r = Inr r') df df'"
proof -
  from assms obtain ids where ids: "combine_cols df cols_to_combine = Inr ids"
    and df': "df' = col_set (Col ''ID'') ids df"
    by (auto simp: set_ID_def bind_r_Inr)
  have r: "list_all2 (\<lambda>r i. combine_row r cols_to_combine = Inr i) df ids"
    by (rule combine_cols_rows[OF _ ids]) (simp add: cols_to_combine_def)
  have len: "length ids = length df" using list_all2_lengthD[OF r] by simp
  show ?thesis
    unfolding list_all2_conv_all_nth
  proof (intro conjI allI impI)
    show "length df = length df'" using len by (simp add: df' col_set_def)
  next
    fix i assume i: "i < length df"
    have "combine_row (df ! i) cols_to_combine = Inr (ids ! i)" using r i by (simp add: list_all2_conv_all_nth)
    moreover have "df' ! i = (df ! i)(Col ''ID'' \<mapsto> ids ! i)" using i len by (simp add: df' col_set_def)
    ultimately show "row_set_ID (df ! i) = Inr (df' ! i)" by (simp add: row_set_ID_def bind_r_def)
  qed
qed

lemma seq_r_rows:
  assumes "list_all2 (\<lambda>s t. \<forall>df df'. s df = Inr df' \<longrightarrow> list_all2 (\<lambda>r r'. t r = Inr r') df df') ss ts"
    and "seq_r ss df = Inr df'"
  shows "list_all2 (\<lambda>r r'. seq_r ts r = Inr r') df df'"
  using assms
proof (induction ss ts arbitrary: df rule: list_all2_induct)
  case Nil
  then show ?case by (simp add: list_all2_conv_all_nth)
next
  case (Cons s ss t ts)
  from Cons.prems obtain mid where mid: "s df = Inr mid" and rest: "seq_r ss mid = Inr df'"
    by (auto simp: bind_r_Inr)
  have a: "list_all2 (\<lambda>r r'. t r = Inr r') df mid" using Cons.hyps(1) mid by blast
  have b: "list_all2 (\<lambda>r r'. seq_r ts r = Inr r') mid df'" using Cons.IH rest by blast
  show ?case
    unfolding list_all2_conv_all_nth
  proof (intro conjI allI impI)
    show "length df = length df'" using list_all2_lengthD[OF a] list_all2_lengthD[OF b] by simp
  next
    fix i assume i: "i < length df"
    then have "t (df ! i) = Inr (mid ! i)" using a by (simp add: list_all2_conv_all_nth)
    moreover have "seq_r ts (mid ! i) = Inr (df' ! i)" using b a i by (simp add: list_all2_conv_all_nth)
    ultimately show "seq_r (t # ts) (df ! i) = Inr (df' ! i)" by (simp add: bind_r_def)
  qed
qed

lemma keep_notnull_Inr:
  "keep_notnull c df = Inr kept \<Longrightarrow> kept = filter (\<lambda>r. \<exists>v. r c = Some v \<and> v \<noteq> Null) df"
proof -
  assume "keep_notnull c df = Inr kept"
  then obtain vs where vs: "list_all2 (\<lambda>r v. row_get c r = Inr v) df vs"
    and kept: "kept = map fst (filter (\<lambda>(r, v). notnull v) (zip df vs))"
    by (auto simp: keep_notnull_def bind_r_Inr col_get_def map_r_Inr)
  from vs have "map fst (filter (\<lambda>(r, v). notnull v) (zip df vs)) = filter (\<lambda>r. \<exists>v. r c = Some v \<and> v \<noteq> Null) df"
  proof (induction df vs rule: list_all2_induct)
    case Nil
    then show ?case by simp
  next
    case (Cons r df v vs)
    then show ?case by (auto simp: row_get_def notnull_def split: option.splits)
  qed
  with kept show ?thesis by simp
qed

lemma clean_cmic_rows:
  assumes "clean_cmic P df = Inr out"
  shows "list_all2 (\<lambda>r r'. clean_cmic_row P r = Inr r')
           (filter (\<lambda>r. \<exists>v. r (Col ''job_no'') = Some v \<and> v \<noteq> Null) (rename cmic_names df)) out"
proof -
  from assms obtain kept where k: "keep_notnull (Col ''job_no'') (rename cmic_names df) = Inr kept"
    and rest: "seq_r
       ([col_apply (Col ''co_code'') (Col ''co_code'') (\<lambda>v. Inr (to_numeric P v)),
         col_apply (Col ''cont_or_co'') (Col ''co_code'') (\<lambda>x. Inr (Text (cmic_cont_or_co x))),
         col_apply (Col ''category'') (Col ''category'') (\<lambda>v. cell_div v 100),
         col_apply (Col ''co_date'') (Col ''co_date'') (to_datetime P),
         col_apply (Col ''item_name'') (Col ''item_name'') (short_name P 30),
         col_apply (Col ''vendor_name'') (Col ''vendor_name'') (short_name P 15),
         col_apply (Col ''phase_no'') (Col ''phase_no'') (\<lambda>v. Inr (Text (astype_str P v))),
         col_apply (Col ''phase_no'') (Col ''phase_no'') pad_phase]
        @ map convert_col cols_to_convert
        @ [set_ID]) kept = Inr out"
    by (auto simp: clean_cmic_def bind_r_Inr)
  have "list_all2 (\<lambda>r r'. clean_cmic_row P r = Inr r') kept out"
    unfolding clean_cmic_row_def
    by (rule seq_r_rows[OF _ rest])
       (simp add: cols_to_convert_def col_apply_rows convert_col_rows set_ID_rows)
  with keep_notnull_Inr[OF k] show ?thesis by simp
qed


lemma row_get_Inr: "row_get c r = Inr v \<longleftrightarrow> r c = Some v"
  by (simp add: row_get_def split: option.splits)

lemma row_apply_Inr:
  "row_apply dst src f r = Inr r' \<longleftrightarrow> (\<exists>v w. r src = Some v \<and> f v = Inr w \<and> r' = r(dst \<mapsto> w))"
  by (auto simp: row_apply_def bind_r_Inr row_get_Inr)

lemma convert_cell_Inr: "convert_cell v = Inr w \<longleftrightarrow> (\<exists>i. astype_int v = Inr i \<and> w = Text (str_of_int i))"
  by (auto simp: convert_cell_def bind_r_Inr)


lemma seq_r_append: "seq_r (ss @ ts) x = bind_r (seq_r ss x) (seq_r ts)"
  by (induction ss arbitrary: x) (auto simp: bind_r_def split: sum.splits)

lemma combine_row_cong:
  "(\<And>c. c \<in> set cs \<Longrightarrow> r c = r' c) \<Longrightarrow> combine_row r cs = combine_row r' cs"
  by (induction r cs rule: combine_row.induct) (simp_all add: row_get_def)

lemma pad_phase_Text: "pad_phase (Text x) = Inr (Text (pad6 x))"
  by (simp add: pad_phase_def)

lemma cmic_columns_Inr:
  assumes "cmic_columns P r = Inr x"
  shows "\<exists>job sub item phase cat co vend jc ji ii ci vi jci w.
     r (Col ''job_no'') = Some job \<and> astype_int job = Inr ji \<and>
     r (Col ''vendor_no'') = Some vend \<and> astype_int vend = Inr vi \<and>
     r (Col ''item_no'') = Some item \<and> astype_int item = Inr ii \<and>
     r (Col ''job_cost_no'') = Some jc \<and> astype_int jc = Inr jci \<and>
     r (Col ''category'') = Some cat \<and> cell_div cat 100 = Inr w \<and> astype_int w = Inr ci \<and>
     r (Col ''co_code'') = Some co \<and>
     r (Col ''phase_no'') = Some phase \<and>
     x (Col ''job_no'') = Some (Text (str_of_int ji)) \<and>
     x (Col ''vendor_no'') = Some (Text (str_of_int vi)) \<and>
     x (Col ''item_no'') = Some (Text (str_of_int ii)) \<and>
     x (Col ''job_cost_no'') = Some (Text (str_of_int jci)) \<and>
     x (Col ''category'') = Some (Text (str_of_int ci)) \<and>
     x (Col ''co_code'') = Some (to_numeric P co) \<and>
     x (Col ''cont_or_co'') = Some (Text (cmic_cont_or_co (to_numeric P co))) \<and>
     x (Col ''phase_no'') = Some (Text (pad6 (astype_str P phase))) \<and>
     x (Col ''subcontract_no'') = r (Col ''subcontract_no'')"
  using assms
  by (clarsimp simp: cmic_columns_def cols_to_convert_def bind_r_Inr row_apply_Inr convert_cell_Inr pad_phase_Text)

lemma seq_r_snoc: "seq_r (ss @ [s]) x = bind_r (seq_r ss x) s"
  by (simp add: seq_r_append) (simp add: bind_r_def split: sum.splits)

lemma clean_cmic_row_split:
  "clean_cmic_row P r = Inr r' \<longleftrightarrow>
     (\<exists>x i. cmic_columns P r = Inr x \<and> combine_row x cols_to_combine = Inr i \<and> r' = x(Col ''ID'' \<mapsto> i))"
proof -
  have "clean_cmic_row P r = bind_r (cmic_columns P r) row_set_ID"
    unfolding clean_cmic_row_def cmic_columns_def
    using seq_r_snoc[of "[row_apply (Col ''co_code'') (Col ''co_code'') (\<lambda>v. Inr (to_numeric P v)),
         row_apply (Col ''cont_or_co'') (Col ''co_code'') (\<lambda>x. Inr (Text (cmic_cont_or_co x))),
         row_apply (Col ''category'') (Col ''category'') (\<lambda>v. cell_div v 100),
         row_apply (Col ''co_date'') (Col ''co_date'') (to_datetime P),
         row_apply (Col ''item_name'') (Col ''item_name'') (short_name P 30),
         row_apply (Col ''vendor_name'') (Col ''vendor_name'') (short_name P 15),
         row_apply (Col ''phase_no'') (Col ''phase_no'') (\<lambda>v. Inr (Text (astype_str P v))),
         row_apply (Col ''phase_no'') (Col ''phase_no'') pad_phase]
        @ map (\<lambda>c. row_apply c c convert_cell) cols_to_convert" row_set_ID r]
    by simp
  then show ?thesis by (auto simp: bind_r_Inr row_set_ID_def)
qed


lemma clean_cmic_kept:
  assumes "clean_cmic P df = Inr out"
  shows "list_all2 (\<lambda>r r'. clean_cmic_row P r = Inr r') (cmic_kept df) out"
proof -
  have "(\<lambda>r. case r (Col ''job_no'') of Some v \<Rightarrow> v \<noteq> Null | None \<Rightarrow> False)
      = (\<lambda>r. \<exists>v. r (Col ''job_no'') = Some v \<and> v \<noteq> Null)"
    by (auto split: option.splits)
  then show ?thesis using clean_cmic_rows[OF assms] by (simp add: cmic_kept_def)
qed

lemma str_100: "str_of_int 100 = ''100''" by code_simp
lemma str_20: "str_of_int 20 = ''20''" by code_simp
lemma str_3: "str_of_int 3 = ''3''" by code_simp
lemma int_100: "py_int_of_str ''100'' = Some 100" by code_simp
lemma int_20: "py_int_of_str ''20'' = Some 20" by code_simp

lemma example_row:
  assumes run: "clean_cmic_row P r = Inr r'"
    and job: "r (Col ''job_no'') = Some (IntV 100) \<or> r (Col ''job_no'') = Some (Text ''100'')"
    and sub: "r (Col ''subcontract_no'') = Some (Text ''5'')"
    and item: "r (Col ''item_no'') = Some (IntV 20) \<or> r (Col ''item_no'') = Some (Text ''20'')"
    and phase: "r (Col ''phase_no'') = Some (Text ''0010000'')"
    and cat: "r (Col ''category'') = Some (IntV 300)"
    and co: "r (Col ''co_code'') = Some (IntV 0)"
  shows "r' (Col ''category'') = Some (Text ''3'') \<and>
         r' (Col ''phase_no'') = Some (Text ''0010000'') \<and>
         r' (Col ''cont_or_co'') = Some (Text ''Contract'') \<and>
         r' (Col ''ID'') = Some (Text ''100_5_20_0010000_3_Contract'')"
proof -
  from run obtain x i where x: "cmic_columns P r = Inr x"
    and i: "combine_row x cols_to_combine = Inr i" and r': "r' = x(Col ''ID'' \<mapsto> i)"
    by (auto simp: clean_cmic_row_split)
  from cmic_columns_Inr[OF x] obtain jb it ji ii ci w where
    f: "r (Col ''job_no'') = Some jb" "astype_int jb = Inr ji"
       "r (Col ''item_no'') = Some it" "astype_int it = Inr ii"
       "cell_div (IntV 300) 100 = Inr w" "astype_int w = Inr ci"
       "x (Col ''job_no'') = Some (Text (str_of_int ji))"
       "x (Col ''item_no'') = Some (Text (str_of_int ii))"
       "x (Col ''category'') = Some (Text (str_of_int ci))"
       "x (Col ''cont_or_co'') = Some (Text (cmic_cont_or_co (to_numeric P (IntV 0))))"
       "x (Col ''phase_no'') = Some (Text (pad6 (astype_str P (Text ''0010000''))))"
       "x (Col ''subcontract_no'') = Some (Text ''5'')"
    using sub phase cat co by auto
  have ji: "ji = 100" using f(1,2) job by (auto simp: astype_int_def int_100)
  have ii: "ii = 20" using f(3,4) item by (auto simp: astype_int_def int_20)
  have ci: "ci = 3" using f(5,6) by (auto simp: cell_div_def astype_int_def trunc_def)
  have xs: "x (Col ''job_no'') = Some (Text ''100'')" "x (Col ''item_no'') = Some (Text ''20'')"
    "x (Col ''category'') = Some (Text ''3'')" "x (Col ''cont_or_co'') = Some (Text ''Contract'')"
    "x (Col ''phase_no'') = Some (Text ''0010000'')"
    using f(7-11) by (simp_all add: ji ii ci str_100 str_20 str_3 cmic_cont_or_co_def to_numeric_def
        pad6_def astype_str_def)
  have "i = Text ''100_5_20_0010000_3_Contract''"
    using i xs f(12) by (simp add: cols_to_combine_def row_get_def bind_r_def cell_add_def)
  then show ?thesis using xs by (simp add: r')
qed

lemma conversions_row:
  assumes run: "clean_cmic_row P r = Inr r'"
    and c: "c \<in> {Col ''vendor_no'', Col ''item_no'', Col ''job_cost_no'', Col ''category''}"
    and v: "r c = Some v"
  shows "\<exists>i. astype_int v = Inr i"
proof -
  from run obtain x where x: "cmic_columns P r = Inr x"
    by (auto simp: clean_cmic_row_split)
  from cmic_columns_Inr[OF x] obtain cat w ci where
    cat: "r (Col ''category'') = Some cat" "cell_div cat 100 = Inr w" "astype_int w = Inr ci"
    by auto
  have "\<exists>i. astype_int cat = Inr i"
    using cat(2,3) by (cases cat) (auto simp: cell_div_def astype_int_def)
  with cmic_columns_Inr[OF x] c v cat(1) show ?thesis by auto
qed

lemma col_apply_Cons:
  "col_apply dst src f (r # df) = Inr out \<longleftrightarrow>
     (\<exists>r' df'. row_apply dst src f r = Inr r' \<and> col_apply dst src f df = Inr df' \<and> out = r' # df')"
  by (auto simp: col_apply_def col_get_def col_set_def bind_r_Inr row_apply_Inr row_get_Inr)

lemma col_apply_rows_conv:
  "list_all2 (\<lambda>r r'. row_apply dst src f r = Inr r') df df' \<Longrightarrow> col_apply dst src f df = Inr df'"
proof (induction df df' rule: list_all2_induct)
  case Nil
  then show ?case by (simp add: col_apply_def col_get_def col_set_def bind_r_def)
next
  case (Cons r df r' df')
  then show ?case by (simp add: col_apply_Cons)
qed

lemma convert_col_eq: "convert_col c df = col_apply c c convert_cell df"
proof -
  have "bind_r (map_r astype_int xs) (\<lambda>is. Inr (map (\<lambda>i. Text (str_of_int i)) is)) = map_r convert_cell xs" for xs
    by (induction xs) (auto simp: bind_r_def convert_cell_def split: sum.splits)
  then show ?thesis by (simp add: convert_col_def col_apply_def convert_to_str_def)
qed

lemma combine_cols_Nil: "cs \<noteq> [] \<Longrightarrow> combine_cols [] cs = Inr []"
  by (induction "[] :: frame" cs rule: combine_cols.induct)
     (simp_all add: col_get_def bind_r_def series_add_scalar_def series_add_def)

lemma combine_cols_Cons:
  "cs \<noteq> [] \<Longrightarrow> combine_cols (r # df) cs = Inr out \<longleftrightarrow>
     (\<exists>i ids. combine_row r cs = Inr i \<and> combine_cols df cs = Inr ids \<and> out = i # ids)"
proof (induction r cs arbitrary: out rule: combine_row.induct)
  case (1 r)
  then show ?case by simp
next
  case (2 r c)
  then show ?case by (auto simp: col_get_def bind_r_Inr)
next
  case (3 r c c' cs)
  have IH: "combine_cols (r # df) (c' # cs) = Inr out \<longleftrightarrow>
     (\<exists>i ids. combine_row r (c' # cs) = Inr i \<and> combine_cols df (c' # cs) = Inr ids \<and> out = i # ids)" for out
    using "3.IH" by simp
  show ?case
    by (auto simp: bind_r_Inr col_get_def series_add_scalar_def series_add_def IH)
qed

lemma combine_cols_rows_conv:
  "list_all2 (\<lambda>r i. combine_row r cs = Inr i) df ids \<Longrightarrow> cs \<noteq> [] \<Longrightarrow> combine_cols df cs = Inr ids"
proof (induction df ids rule: list_all2_induct)
  case Nil
  then show ?case by (simp add: combine_cols_Nil)
next
  case (Cons r df i ids)
  then show ?case by (simp add: combine_cols_Cons)
qed

lemma set_ID_rows_conv:
  assumes "list_all2 (\<lambda>r r'. row_set_ID r = Inr r') df df'"
  shows "set_ID df = Inr df'"
proof -
  have ne: "cols_to_combine \<noteq> []" by (simp add: cols_to_combine_def)
  from assms show ?thesis
  proof (induction df df' rule: list_all2_induct)
    case Nil
    then show ?case by (simp add: set_ID_def combine_cols_Nil[OF ne] bind_r_def col_set_def)
  next
    case (Cons r df r' df')
    then show ?case
      by (auto simp: set_ID_def bind_r_Inr combine_cols_Cons[OF ne] row_set_ID_def col_set_def)
  qed
qed

lemma seq_r_rows_conv:
  assumes "list_all2 (\<lambda>s t. \<forall>df df'. list_all2 (\<lambda>r r'. t r = Inr r') df df' \<longrightarrow> s df = Inr df') ss ts"
    and "list_all2 (\<lambda>r r'. seq_r ts r = Inr r') df df'"
  shows "seq_r ss df = Inr df'"
  using assms
proof (induction ss ts arbitrary: df rule: list_all2_induct)
  case Nil
  then show ?case by (simp add: list_all2_conv_all_nth list_eq_iff_nth_eq)
next
  case (Cons s ss t ts)
  have "list_all2 ((\<lambda>r m. t r = Inr m) OO (\<lambda>m r'. seq_r ts m = Inr r')) df df'"
    by (rule list_all2_mono[OF Cons.prems]) (auto simp: bind_r_Inr)
  then obtain mid where a: "list_all2 (\<lambda>r m. t r = Inr m) df mid"
    and b: "list_all2 (\<lambda>m r'. seq_r ts m = Inr r') mid df'"
    by (auto simp: list.rel_compp)
  have "s df = Inr mid" using Cons.hyps(1) a by blast
  moreover have "seq_r ss mid = Inr df'" using Cons.IH b by blast
  ultimately show ?case by (simp add: bind_r_def)
qed

lemma clean_cmic_rows_conv:
  assumes cols: "\<forall>r \<in> set (rename cmic_names df). r (Col ''job_no'') \<noteq> None"
    and rows: "list_all2 (\<lambda>r r'. clean_cmic_row P r = Inr r') (cmic_kept df) out"
  shows "clean_cmic P df = Inr out"
proof -
  have k: "keep_notnull (Col ''job_no'') (rename cmic_names df) = Inr (cmic_kept df)"
  proof -
    have "\<exists>vs. map_r (row_get (Col ''job_no'')) xs = Inr vs \<and>
       map fst (filter (\<lambda>(r, v). notnull v) (zip xs vs))
       = filter (\<lambda>r. case r (Col ''job_no'') of Some v \<Rightarrow> v \<noteq> Null | None \<Rightarrow> False) xs"
      if "\<forall>r \<in> set xs. r (Col ''job_no'') \<noteq> None" for xs :: frame
      using that by (induction xs) (auto simp: bind_r_def row_get_def notnull_def)
    from this[OF cols] show ?thesis
      by (auto simp: keep_notnull_def col_get_def bind_r_def cmic_kept_def)
  qed
  have "seq_r
       ([col_apply (Col ''co_code'') (Col ''co_code'') (\<lambda>v. Inr (to_numeric P v)),
         col_apply (Col ''cont_or_co'') (Col ''co_code'') (\<lambda>x. Inr (Text (cmic_cont_or_co x))),
         col_apply (Col ''category'') (Col ''category'') (\<lambda>v. cell_div v 100),
         col_apply (Col ''co_date'') (Col ''co_date'') (to_datetime P),
         col_apply (Col ''item_name'') (Col ''item_name'') (short_name P 30),
         col_apply (Col ''vendor_name'') (Col ''vendor_name'') (short_name P 15),
         col_apply (Col ''phase_no'') (Col ''phase_no'') (\<lambda>v. Inr (Text (astype_str P v))),
         col_apply (Col ''phase_no'') (Col ''phase_no'') pad_phase]
        @ map convert_col cols_to_convert
        @ [set_ID]) (cmic_kept df) = Inr out"
    by (rule seq_r_rows_conv[OF _ rows[unfolded clean_cmic_row_def]])
       (simp add: cols_to_convert_def col_apply_rows_conv convert_col_eq set_ID_rows_conv)
  with k show ?thesis by (simp add: clean_cmic_def bind_r_def)
qed

lemma rename_cmic_line:
  "rename_row cmic_names (cmic_line j s i p c co) (Col ''job_no'') = Some j"
  "rename_row cmic_names (cmic_line j s i p c co) (Col ''subcontract_no'') = Some s"
  "rename_row cmic_names (cmic_line j s i p c co) (Col ''item_no'') = Some i"
  "rename_row cmic_names (cmic_line j s i p c co) (Col ''phase_no'') = Some p"
  "rename_row cmic_names (cmic_line j s i p c co) (Col ''category'') = Some c"
  "rename_row cmic_names (cmic_line j s i p c co) (Col ''co_code'') = Some co"
  "rename_row cmic_names (cmic_line j s i p c co) (Col ''vendor_no'') = Some (IntV 7001)"
  "rename_row cmic_names (cmic_line j s i p c co) (Col ''job_cost_no'') = Some (IntV 100)"
  "rename_row cmic_names (cmic_line j s i p c co) (Col ''co_date'') = Some Null"
  "rename_row cmic_names (cmic_line j s i p c co) (Col ''item_name'') = Some (Text ''Rebar '')"
  "rename_row cmic_names (cmic_line j s i p c co) (Col ''vendor_name'') = Some (Text ''Acme Steel Inc'')"
  by (simp_all add: rename_row_def cmic_names_def cmic_line_def)

lemma clean_cmic_row_ID:
  assumes run: "clean_cmic_row P r = Inr r'"
    and job: "r (Col ''job_no'') = Some jb" "astype_int jb = Inr ji"
    and sub: "r (Col ''subcontract_no'') = Some (Text s)"
    and item: "r (Col ''item_no'') = Some it" "astype_int it = Inr ii"
    and phase: "r (Col ''phase_no'') = Some ph"
    and cat: "r (Col ''category'') = Some ct" "cell_div ct 100 = Inr w" "astype_int w = Inr ci"
    and co: "r (Col ''co_code'') = Some co"
  shows "r' (Col ''ID'') = Some (Text (str_of_int ji @ ''_'' @ s @ ''_'' @ str_of_int ii @ ''_'' @
            pad6 (astype_str P ph) @ ''_'' @ str_of_int ci @ ''_'' @ cmic_cont_or_co (to_numeric P co)))"
    and "r' (Col ''job_no'') = Some (Text (str_of_int ji))"
    and "r' (Col ''subcontract_no'') = Some (Text s)"
    and "r' (Col ''item_no'') = Some (Text (str_of_int ii))"
    and "r' (Col ''phase_no'') = Some (Text (pad6 (astype_str P ph)))"
    and "r' (Col ''category'') = Some (Text (str_of_int ci))"
    and "r' (Col ''cont_or_co'') = Some (Text (cmic_cont_or_co (to_numeric P co)))"
proof -
  from run obtain x i where x: "cmic_columns P r = Inr x"
    and i: "combine_row x cols_to_combine = Inr i" and r': "r' = x(Col ''ID'' \<mapsto> i)"
    by (auto simp: clean_cmic_row_split)
  from cmic_columns_Inr[OF x] job sub item phase cat co
  have xs: "x (Col ''job_no'') = Some (Text (str_of_int ji))"
    "x (Col ''subcontract_no'') = Some (Text s)"
    "x (Col ''item_no'') = Some (Text (str_of_int ii))"
    "x (Col ''phase_no'') = Some (Text (pad6 (astype_str P ph)))"
    "x (Col ''category'') = Some (Text (str_of_int ci))"
    "x (Col ''cont_or_co'') = Some (Text (cmic_cont_or_co (to_numeric P co)))"
    by auto
  have "i = Text (str_of_int ji @ ''_'' @ s @ ''_'' @ str_of_int ii @ ''_'' @
            pad6 (astype_str P ph) @ ''_'' @ str_of_int ci @ ''_'' @ cmic_cont_or_co (to_numeric P co))"
    using i xs by (simp add: cols_to_combine_def row_get_def bind_r_def cell_add_def)
  then show "r' (Col ''ID'') = Some (Text (str_of_int ji @ ''_'' @ s @ ''_'' @ str_of_int ii @ ''_'' @
            pad6 (astype_str P ph) @ ''_'' @ str_of_int ci @ ''_'' @ cmic_cont_or_co (to_numeric P co)))"
    by (simp add: r')
  show "r' (Col ''job_no'') = Some (Text (str_of_int ji))"
    "r' (Col ''subcontract_no'') = Some (Text s)"
    "r' (Col ''item_no'') = Some (Text (str_of_int ii))"
    "r' (Col ''phase_no'') = Some (Text (pad6 (astype_str P ph)))"
    "r' (Col ''category'') = Some (Text (str_of_int ci))"
    "r' (Col ''cont_or_co'') = Some (Text (cmic_cont_or_co (to_numeric P co)))"
    using xs by (simp_all add: r')
qed

lemma clean_cmic_row_ok:
  assumes "r (Col ''job_no'') = Some jb" "astype_int jb = Inr ji"
    and "r (Col ''vendor_no'') = Some vn" "astype_int vn = Inr vi"
    and "r (Col ''item_no'') = Some it" "astype_int it = Inr ii"
    and "r (Col ''job_cost_no'') = Some jc" "astype_int jc = Inr jci"
    and "r (Col ''category'') = Some ct" "cell_div ct 100 = Inr w" "astype_int w = Inr ci"
    and "r (Col ''co_code'') = Some co"
    and "r (Col ''co_date'') = Some d" "to_datetime P d = Inr d'"
    and "r (Col ''item_name'') = Some inm"
    and "r (Col ''vendor_name'') = Some vnm"
    and "r (Col ''phase_no'') = Some ph"
    and "r (Col ''subcontract_no'') = Some (Text s)"
  shows "\<exists>r'. clean_cmic_row P r = Inr r'"
  using assms
  by (simp add: clean_cmic_row_split cmic_columns_def cols_to_convert_def bind_r_Inr row_apply_Inr
      convert_cell_Inr pad_phase_Text short_name_def cols_to_combine_def row_get_Inr cell_add_def)

lemma astype_int_IntV: "astype_int (IntV n) = Inr n"
  by (simp add: astype_int_def)

lemma to_datetime_Null: "to_datetime P Null = Inr Null"
  by (simp add: to_datetime_def)

lemma clean_cmic_line_ok:
  assumes "astype_int j = Inr ji" "astype_int i = Inr ii" "cell_div c 100 = Inr w" "astype_int w = Inr ci"
  shows "\<exists>r'. clean_cmic_row P (rename_row cmic_names (cmic_line j (Text s) i p c co)) = Inr r'"
  by (rule clean_cmic_row_ok[where jb = j and ji = ji and vn = "IntV 7001" and vi = 7001
        and it = i and ii = ii and jc = "IntV 100" and jci = 100 and ct = c and w = w and ci = ci
        and co = co and d = Null and d' = Null and inm = "Text ''Rebar ''"
        and vnm = "Text ''Acme Steel Inc''" and ph = p and s = s])
     (simp_all add: rename_cmic_line assms astype_int_IntV to_datetime_Null)

lemma list_all2_ex: "(\<forall>x \<in> set xs. \<exists>y. P x y) \<Longrightarrow> \<exists>ys. list_all2 P xs ys"
proof (induction xs)
  case Nil
  then show ?case by simp
next
  case (Cons x xs)
  then obtain y ys where "P x y" "list_all2 P xs ys" by auto
  then have "list_all2 P (x # xs) (y # ys)" by simp
  then show ?case by blast
qed

lemma clean_cmic_runs:
  assumes "\<forall>r \<in> set (rename cmic_names df). r (Col ''job_no'') \<noteq> None"
    and "\<forall>r \<in> set (cmic_kept df). \<exists>r'. clean_cmic_row P r = Inr r'"
  shows "\<exists>out. clean_cmic P df = Inr out"
proof -
  from list_all2_ex[OF assms(2)] obtain out
    where "list_all2 (\<lambda>r r'. clean_cmic_row P r = Inr r') (cmic_kept df) out" by blast
  from clean_cmic_rows_conv[OF assms(1) this] show ?thesis by blast
qed

lemma cmic_kept_line:
  "j \<noteq> Null \<Longrightarrow> cmic_kept (cmic_line j s i p c co # df) = rename_row cmic_names (cmic_line j s i p c co) # cmic_kept df"
  by (simp add: cmic_kept_def rename_def rename_cmic_line)

lemma cmic_kept_Nil: "cmic_kept [] = []"
  by (simp add: cmic_kept_def rename_def)

lemma cell_div_IntV: "cell_div (IntV n) d = Inr (FloatV (of_int n / d))"
  by (simp add: cell_div_def)

lemma astype_int_FloatV: "astype_int (FloatV q) = Inr (trunc q)"
  by (simp add: astype_int_def)

lemma co_code_frame_runs: "\<exists>out. clean_cmic plain_pandas co_code_frame = Inr out"
proof (rule clean_cmic_runs)
  show "\<forall>r \<in> set (rename cmic_names co_code_frame). r (Col ''job_no'') \<noteq> None"
    by (simp add: co_code_frame_def rename_def rename_cmic_line)
  show "\<forall>r \<in> set (cmic_kept co_code_frame). \<exists>r'. clean_cmic_row plain_pandas r = Inr r'"
    by (simp add: co_code_frame_def cmic_kept_line cmic_kept_Nil
        clean_cmic_line_ok[OF astype_int_IntV astype_int_IntV cell_div_IntV astype_int_FloatV])
qed

section \<open>The claims about the CMIC normaliser\<close>

lemma clean_cmic_row_co_code:
  assumes "clean_cmic_row P r = Inr r'"
  shows "\<exists>co. r (Col ''co_code'') = Some co \<and>
      r' (Col ''co_code'') = Some (to_numeric P co) \<and>
      r' (Col ''cont_or_co'') = Some (Text (cmic_cont_or_co (to_numeric P co)))"
proof -
  from assms obtain x i where x: "cmic_columns P r = Inr x" and r': "r' = x(Col ''ID'' \<mapsto> i)"
    by (auto simp: clean_cmic_row_split)
  from cmic_columns_Inr[OF x] show ?thesis by (auto simp: r')
qed

lemma to_numeric_cases:
  "to_numeric P co =
     (case co of
        IntV n \<Rightarrow> IntV n
      | FloatV q \<Rightarrow> FloatV q
      | Null \<Rightarrow> Null
      | _ \<Rightarrow> (case numeric_of P co of Some q \<Rightarrow> FloatV q | None \<Rightarrow> Null))"
  by (simp add: to_numeric_def split: cell.splits)

lemma cmic_mark_cases:
  "cmic_cont_or_co (to_numeric P co) =
     (case co of
        IntV n \<Rightarrow> if n = 0 then ''Contract'' else ''CO''
      | FloatV q \<Rightarrow> if q = 0 then ''Contract'' else ''CO''
      | Null \<Rightarrow> ''CO''
      | _ \<Rightarrow> (case numeric_of P co of
                Some q \<Rightarrow> if q = 0 then ''Contract'' else ''CO''
              | None \<Rightarrow> ''CO''))"
  by (simp add: to_numeric_def cmic_cont_or_co_def split: cell.splits option.splits)

lemma int_A1: "py_int_of_str ''A1'' = None" by code_simp

lemma plain_numeric_A1: "numeric_of plain_pandas (Text ''A1'') = None"
  by (simp add: plain_pandas_def int_A1)

text \<open>
  Claim C5. For every CMIC row that \<^verbatim>\<open>clean_cmic\<close> keeps, \<^verbatim>\<open>cont_or_co\<close> follows from the
  cell the row has in \<^verbatim>\<open>co_code\<close> when it comes in. An integer or a float gives
  \<^verbatim>\<open>"Contract"\<close> when it is 0 and \<^verbatim>\<open>"CO"\<close> when it is any other number. A missing value
  gives \<^verbatim>\<open>"CO"\<close>. Any other cell (a text, say) is read by \<^verbatim>\<open>pd.to_numeric\<close>: when it is
  numeric, the number it stands for decides in the same way; when it is not, it is coerced
  to the missing value and the row is marked \<^verbatim>\<open>"CO"\<close>. The column \<^verbatim>\<open>co_code\<close> of the result
  holds the coerced value: the number, or the missing value. The rows are related in order:
  the kept input rows on the left, the rows of the result on the right.
\<close>

theorem cmic_cont_or_co_from_co_code:
  assumes "clean_cmic P df = Inr out"
  shows "list_all2
           (\<lambda>r r'. \<exists>co. r (Col ''co_code'') = Some co \<and>
              r' (Col ''cont_or_co'') =
                Some (Text (case co of
                   IntV n \<Rightarrow> if n = 0 then ''Contract'' else ''CO''
                 | FloatV q \<Rightarrow> if q = 0 then ''Contract'' else ''CO''
                 | Null \<Rightarrow> ''CO''
                 | _ \<Rightarrow> (case numeric_of P co of
                           Some q \<Rightarrow> if q = 0 then ''Contract'' else ''CO''
                         | None \<Rightarrow> ''CO''))) \<and>
              r' (Col ''co_code'') =
                Some (case co of
                   IntV n \<Rightarrow> IntV n
                 | FloatV q \<Rightarrow> FloatV q
                 | Null \<Rightarrow> Null
                 | _ \<Rightarrow> (case numeric_of P co of Some q \<Rightarrow> FloatV q | None \<Rightarrow> Null)))
           (cmic_kept df) out"
proof (rule list_all2_mono[OF clean_cmic_kept[OF assms]])
  fix r r' assume "clean_cmic_row P r = Inr r'"
  from clean_cmic_row_co_code[OF this] obtain co where co: "r (Col ''co_code'') = Some co"
    "r' (Col ''co_code'') = Some (to_numeric P co)"
    "r' (Col ''cont_or_co'') = Some (Text (cmic_cont_or_co (to_numeric P co)))" by (elim exE conjE)
  show "\<exists>co. r (Col ''co_code'') = Some co \<and>
              r' (Col ''cont_or_co'') =
                Some (Text (case co of
                   IntV n \<Rightarrow> if n = 0 then ''Contract'' else ''CO''
                 | FloatV q \<Rightarrow> if q = 0 then ''Contract'' else ''CO''
                 | Null \<Rightarrow> ''CO''
                 | _ \<Rightarrow> (case numeric_of P co of
                           Some q \<Rightarrow> if q = 0 then ''Contract'' else ''CO''
                         | None \<Rightarrow> ''CO''))) \<and>
              r' (Col ''co_code'') =
                Some (case co of
                   IntV n \<Rightarrow> IntV n
                 | FloatV q \<Rightarrow> FloatV q
                 | Null \<Rightarrow> Null
                 | _ \<Rightarrow> (case numeric_of P co of Some q \<Rightarrow> FloatV q | None \<Rightarrow> Null))"
    by (rule exI[of _ co]) (simp only: co cmic_mark_cases to_numeric_cases[symmetric] simp_thms)
qed

text \<open>
  A run on three lines whose \<^verbatim>\<open>co_code\<close> is the number 0, the number 3 and the text
  \<^verbatim>\<open>A1\<close>: they come out marked Contract, CO and CO, with \<^verbatim>\<open>co_code\<close> 0, 3 and missing.
\<close>

theorem cmic_cont_or_co_from_co_code_witness:
  "\<exists>out. clean_cmic plain_pandas co_code_frame = Inr out \<and>
     map (\<lambda>r. r (Col ''cont_or_co'')) out =
       [Some (Text ''Contract''), Some (Text ''CO''), Some (Text ''CO'')] \<and>
     map (\<lambda>r. r (Col ''co_code'')) out = [Some (IntV 0), Some (IntV 3), Some Null]"
proof -
  obtain out where out: "clean_cmic plain_pandas co_code_frame = Inr out"
    using co_code_frame_runs by (elim exE)
  have kept: "cmic_kept co_code_frame =
     [rename_row cmic_names (cmic_line (IntV 100) (Text ''5'') (IntV 20) (Text ''0010000'') (IntV 300) (IntV 0)),
      rename_row cmic_names (cmic_line (IntV 100) (Text ''5'') (IntV 21) (Text ''0010000'') (IntV 300) (IntV 3)),
      rename_row cmic_names (cmic_line (IntV 100) (Text ''5'') (IntV 22) (Text ''0010000'') (IntV 300) (Text ''A1''))]"
    by (simp add: co_code_frame_def cmic_kept_line cmic_kept_Nil)
  from cmic_cont_or_co_from_co_code[OF out] obtain a b c where o: "out = [a, b, c]"
    and a: "a (Col ''cont_or_co'') = Some (Text ''Contract'')" "a (Col ''co_code'') = Some (IntV 0)"
    and b: "b (Col ''cont_or_co'') = Some (Text ''CO'')" "b (Col ''co_code'') = Some (IntV 3)"
    and c: "c (Col ''cont_or_co'') = Some (Text ''CO'')" "c (Col ''co_code'') = Some Null"
    unfolding kept by (auto simp: list_all2_Cons1 rename_cmic_line plain_numeric_A1)
  show ?thesis
    by (rule exI[of _ out]) (simp add: out o a b c)
qed

text \<open>
  Claim C9, as amended. A CMIC row with job number 100, subcontract number \<^verbatim>\<open>"5"\<close>, item
  number 20, phase number \<^verbatim>\<open>"0010000"\<close>, the integer 300 as category and the integer 0 as
  \<^verbatim>\<open>co_code\<close> comes out of \<^verbatim>\<open>clean_cmic\<close> with category \<^verbatim>\<open>"3"\<close>, the phase number
  unchanged, \<^verbatim>\<open>cont_or_co\<close> \<^verbatim>\<open>"Contract"\<close> and the ID
  \<^verbatim>\<open>"100_5_20_0010000_3_Contract"\<close>. The job and item numbers may be numbers or text; the
  subcontract and phase numbers are text, as the concatenation of the ID and the leading
  zeros need. The remaining columns of the row are arbitrary.
\<close>

theorem cmic_example_scenario:
  assumes "clean_cmic P df = Inr out"
  shows "list_all2
     (\<lambda>r r'.
        (r (Col ''job_no'') = Some (IntV 100) \<or> r (Col ''job_no'') = Some (Text ''100'')) \<and>
        r (Col ''subcontract_no'') = Some (Text ''5'') \<and>
        (r (Col ''item_no'') = Some (IntV 20) \<or> r (Col ''item_no'') = Some (Text ''20'')) \<and>
        r (Col ''phase_no'') = Some (Text ''0010000'') \<and>
        r (Col ''category'') = Some (IntV 300) \<and>
        r (Col ''co_code'') = Some (IntV 0)
        \<longrightarrow>
        r' (Col ''category'') = Some (Text ''3'') \<and>
        r' (Col ''phase_no'') = Some (Text ''0010000'') \<and>
        r' (Col ''cont_or_co'') = Some (Text ''Contract'') \<and>
        r' (Col ''ID'') = Some (Text ''100_5_20_0010000_3_Contract''))
     (cmic_kept df) out"
  by (rule list_all2_mono[OF clean_cmic_kept[OF assms]]) (use example_row in blast)

theorem cmic_example_scenario_witness:
  "\<exists>r'. clean_cmic plain_pandas
       [cmic_line (IntV 100) (Text ''5'') (IntV 20) (Text ''0010000'') (IntV 300) (IntV 0)] = Inr [r'] \<and>
     r' (Col ''category'') = Some (Text ''3'') \<and>
     r' (Col ''phase_no'') = Some (Text ''0010000'') \<and>
     r' (Col ''cont_or_co'') = Some (Text ''Contract'') \<and>
     r' (Col ''ID'') = Some (Text ''100_5_20_0010000_3_Contract'')"
proof -
  have "\<exists>out. clean_cmic plain_pandas
       [cmic_line (IntV 100) (Text ''5'') (IntV 20) (Text ''0010000'') (IntV 300) (IntV 0)] = Inr out"
  proof (rule clean_cmic_runs)
    show "\<forall>r \<in> set (rename cmic_names [cmic_line (IntV 100) (Text ''5'') (IntV 20) (Text ''0010000'') (IntV 300) (IntV 0)]).
        r (Col ''job_no'') \<noteq> None"
      by (simp add: rename_def rename_cmic_line)
    show "\<forall>r \<in> set (cmic_kept [cmic_line (IntV 100) (Text ''5'') (IntV 20) (Text ''0010000'') (IntV 300) (IntV 0)]).
        \<exists>r'. clean_cmic_row plain_pandas r = Inr r'"
      by (simp add: cmic_kept_line cmic_kept_Nil
          clean_cmic_line_ok[OF astype_int_IntV astype_int_IntV cell_div_IntV astype_int_FloatV])
  qed
  then obtain out where out: "clean_cmic plain_pandas
       [cmic_line (IntV 100) (Text ''5'') (IntV 20) (Text ''0010000'') (IntV 300) (IntV 0)] = Inr out"
    by blast
  from cmic_example_scenario[OF out] obtain r' where "out = [r']"
    and "r' (Col ''category'') = Some (Text ''3'') \<and>
     r' (Col ''phase_no'') = Some (Text ''0010000'') \<and>
     r' (Col ''cont_or_co'') = Some (Text ''Contract'') \<and>
     r' (Col ''ID'') = Some (Text ''100_5_20_0010000_3_Contract'')"
    by (auto simp: cmic_kept_line cmic_kept_Nil rename_cmic_line list_all2_Cons1)
  with out show ?thesis by blast
qed

text \<open>
  Claim C9 as stated fails: with the category held as the text \<^verbatim>\<open>"300"\<close>, as the claim
  writes it (and every other field of the example as text, the change code the number 0),
  the division \<^verbatim>\<open>df['category'] / 100\<close> divides a text by a number and \<^verbatim>\<open>clean_cmic\<close>
  raises \<^verbatim>\<open>TypeError\<close>.
\<close>

theorem text_category_example_raises:
  "clean_cmic plain_pandas
     [cmic_line (Text ''100'') (Text ''5'') (Text ''20'') (Text ''0010000'') (Text ''300'') (IntV 0)]
   = Inl TypeError"
  by (simp add: clean_cmic_def rename_def keep_notnull_def col_apply_def col_get_def col_set_def
      row_get_def bind_r_simps notnull_def rename_cmic_line cell_div_def)

text \<open>
  Claim C10. \<^verbatim>\<open>clean_cmic\<close> drops the rows without a job number and no others; a row
  with a job number whose \<^verbatim>\<open>vendor_no\<close>, \<^verbatim>\<open>item_no\<close>, \<^verbatim>\<open>job_cost_no\<close> or
  \<^verbatim>\<open>category\<close> is missing, or is otherwise a value that \<^verbatim>\<open>astype(int)\<close> does not
  convert, makes \<^verbatim>\<open>clean_cmic\<close> raise an exception instead of returning a frame. The row is
  given under the new column names.
\<close>

theorem clean_cmic_raises_on_uncastable:
  assumes r: "r \<in> set (rename cmic_names df)"
    and job: "r (Col ''job_no'') = Some j" "j \<noteq> Null"
    and c: "c \<in> {Col ''vendor_no'', Col ''item_no'', Col ''job_cost_no'', Col ''category''}"
    and v: "r c = Some v" "v = Null \<or> (\<forall>i. astype_int v \<noteq> Inr i)"
  shows "\<exists>e. clean_cmic P df = Inl e"
proof (cases "clean_cmic P df")
  case (Inl e)
  then show ?thesis by blast
next
  case (Inr out)
  have "r \<in> set (cmic_kept df)" using r job by (simp add: cmic_kept_def)
  with clean_cmic_kept[OF Inr] obtain r' where "clean_cmic_row P r = Inr r'"
    by (auto simp: in_set_conv_nth list_all2_conv_all_nth)
  from conversions_row[OF this c v(1)] v(2) have False by (auto simp: astype_int_def)
  then show ?thesis ..
qed

text \<open>A line with a job number and no vendor number.\<close>

theorem clean_cmic_raises_on_uncastable_witness:
  "\<exists>e. clean_cmic plain_pandas
     [(cmic_line (IntV 100) (Text ''5'') (IntV 20) (Text ''0010000'') (IntV 300) (IntV 0))
        (Col ''VLS_JOBVEN2_CODE'' \<mapsto> Null)] = Inl e"
proof (rule clean_cmic_raises_on_uncastable)
  show "rename_row cmic_names ((cmic_line (IntV 100) (Text ''5'') (IntV 20) (Text ''0010000'') (IntV 300) (IntV 0))
        (Col ''VLS_JOBVEN2_CODE'' \<mapsto> Null)) \<in> set (rename cmic_names [(cmic_line (IntV 100) (Text ''5'') (IntV 20) (Text ''0010000'') (IntV 300) (IntV 0))
        (Col ''VLS_JOBVEN2_CODE'' \<mapsto> Null)])"
    by (simp add: rename_def)
  show "rename_row cmic_names ((cmic_line (IntV 100) (Text ''5'') (IntV 20) (Text ''0010000'') (IntV 300) (IntV 0))
        (Col ''VLS_JOBVEN2_CODE'' \<mapsto> Null)) (Col ''job_no'') = Some (IntV 100)"
    by (simp add: rename_row_def cmic_names_def cmic_line_def)
  show "IntV 100 \<noteq> Null" by simp
  show "Col ''vendor_no'' \<in> {Col ''vendor_no'', Col ''item_no'', Col ''job_cost_no'', Col ''category''}" by simp
  show "rename_row cmic_names ((cmic_line (IntV 100) (Text ''5'') (IntV 20) (Text ''0010000'') (IntV 300) (IntV 0))
        (Col ''VLS_JOBVEN2_CODE'' \<mapsto> Null)) (Col ''vendor_no'') = Some Null"
    by (simp add: rename_row_def cmic_names_def cmic_line_def)
  show "Null = Null \<or> (\<forall>i. astype_int Null \<noteq> Inr i)" by simp
qed

section \<open>The join key\<close>

lemma sep_split:
  "CHR ''_'' \<notin> set a \<Longrightarrow> CHR ''_'' \<notin> set a' \<Longrightarrow> a @ CHR ''_'' # x = a' @ CHR ''_'' # x'
     \<Longrightarrow> a = a' \<and> x = x'"
proof (induction a arbitrary: a')
  case Nil
  then show ?case by (cases a') auto
next
  case (Cons h a)
  then show ?case by (cases a') auto
qed

lemma plain_on_Cons:
  "plain_on (c # cs) r \<longleftrightarrow> (\<exists>s. r c = Some (Text s) \<and> CHR ''_'' \<notin> set s) \<and> plain_on cs r"
  by (auto simp: plain_on_def split: option.splits cell.splits)

lemma combine_row_plain:
  "cs \<noteq> [] \<Longrightarrow> plain_on cs r \<Longrightarrow> \<exists>t. combine_row r cs = Inr (Text t)"
proof (induction r cs rule: combine_row.induct)
  case (1 r)
  then show ?case by simp
next
  case (2 r c)
  then show ?case by (auto simp: plain_on_Cons row_get_def)
next
  case (3 r c c' cs)
  then obtain s t where "r c = Some (Text s)" "combine_row r (c' # cs) = Inr (Text t)"
    by (auto simp: plain_on_Cons)
  then show ?case by (simp add: row_get_def bind_r_def cell_add_def)
qed

lemma combine_row_inj:
  "cs \<noteq> [] \<Longrightarrow> plain_on cs r \<Longrightarrow> plain_on cs r' \<Longrightarrow> combine_row r cs = combine_row r' cs
     \<Longrightarrow> c \<in> set cs \<Longrightarrow> r c = r' c"
proof (induction r cs rule: combine_row.induct)
  case (1 r)
  then show ?case by simp
next
  case (2 r d)
  then show ?case by (auto simp: plain_on_Cons row_get_def)
next
  case (3 r d d' cs)
  from "3.prems" obtain s s' where s: "r d = Some (Text s)" "CHR ''_'' \<notin> set s"
    "r' d = Some (Text s')" "CHR ''_'' \<notin> set s'"
    and p: "plain_on (d' # cs) r" "plain_on (d' # cs) r'"
    by (auto simp: plain_on_Cons)
  from combine_row_plain[OF _ p(1)] combine_row_plain[OF _ p(2)] obtain t t'
    where t: "combine_row r (d' # cs) = Inr (Text t)" "combine_row r' (d' # cs) = Inr (Text t')"
    by auto
  from "3.prems"(4) s t have "s @ CHR ''_'' # t = s' @ CHR ''_'' # t'"
    by (simp add: row_get_def bind_r_def cell_add_def)
  from sep_split[OF s(2) s(4) this] have eq: "s = s'" "t = t'" by auto
  show ?case
  proof (cases "c = d")
    case True
    then show ?thesis using s eq by simp
  next
    case False
    then have "c \<in> set (d' # cs)" using "3.prems"(5) by simp
    moreover have "combine_row r (d' # cs) = combine_row r' (d' # cs)" using t eq by simp
    ultimately show ?thesis using "3.IH" p by simp
  qed
qed

text \<open>
  Claim C1, as amended. \<^verbatim>\<open>combine_cols\<close> is a function of the six columns
  \<^verbatim>\<open>job_no\<close>, \<^verbatim>\<open>subcontract_no\<close>, \<^verbatim>\<open>item_no\<close>, \<^verbatim>\<open>phase_no\<close>, \<^verbatim>\<open>category\<close>,
  \<^verbatim>\<open>cont_or_co\<close>: two rows of a frame that agree on them get the same ID. Two rows whose
  six fields are text without the separator \<^verbatim>\<open>_\<close> and that get the same ID agree on the
  six columns. Both normalisers build the ID with this function.
\<close>

theorem combine_cols_injective_without_separator:
  assumes "combine_cols df cols_to_combine = Inr ids" and "i < length df" and "j < length df"
  shows "((\<forall>c \<in> set cols_to_combine. (df ! i) c = (df ! j) c) \<longrightarrow> ids ! i = ids ! j) \<and>
         (plain_on cols_to_combine (df ! i) \<and> plain_on cols_to_combine (df ! j) \<and> ids ! i = ids ! j
            \<longrightarrow> (\<forall>c \<in> set cols_to_combine. (df ! i) c = (df ! j) c))"
proof -
  have ne: "cols_to_combine \<noteq> []" by (simp add: cols_to_combine_def)
  from combine_cols_rows[OF ne assms(1)] assms(2,3)
  have i: "combine_row (df ! i) cols_to_combine = Inr (ids ! i)"
    and j: "combine_row (df ! j) cols_to_combine = Inr (ids ! j)"
    by (simp_all add: list_all2_conv_all_nth)
  show ?thesis
  proof (intro conjI impI ballI)
    assume "\<forall>c \<in> set cols_to_combine. (df ! i) c = (df ! j) c"
    then have "combine_row (df ! i) cols_to_combine = combine_row (df ! j) cols_to_combine"
      by (intro combine_row_cong) simp
    with i j show "ids ! i = ids ! j" by simp
  next
    fix c
    assume h: "plain_on cols_to_combine (df ! i) \<and> plain_on cols_to_combine (df ! j) \<and> ids ! i = ids ! j"
      and c: "c \<in> set cols_to_combine"
    from h i j have "combine_row (df ! i) cols_to_combine = combine_row (df ! j) cols_to_combine" by simp
    from combine_row_inj[OF ne _ _ this c] h show "(df ! i) c = (df ! j) c" by simp
  qed
qed


lemma combine_cols_runs:
  assumes "cs \<noteq> []" and "\<forall>r \<in> set df. \<exists>i. combine_row r cs = Inr i"
  shows "\<exists>ids. combine_cols df cs = Inr ids"
proof -
  from list_all2_ex[OF assms(2)] obtain ids where "list_all2 (\<lambda>r i. combine_row r cs = Inr i) df ids"
    by blast
  from combine_cols_rows_conv[OF this assms(1)] show ?thesis by blast
qed

lemma id_row_plain:
  "CHR ''_'' \<notin> set a \<Longrightarrow> CHR ''_'' \<notin> set b \<Longrightarrow> CHR ''_'' \<notin> set c \<Longrightarrow> CHR ''_'' \<notin> set d \<Longrightarrow>
   CHR ''_'' \<notin> set e \<Longrightarrow> CHR ''_'' \<notin> set f \<Longrightarrow> plain_on cols_to_combine (id_row a b c d e f)"
  by (simp add: plain_on_def cols_to_combine_def id_row_def)

text \<open>Two plain rows that differ in the item number get different IDs.\<close>

theorem combine_cols_injective_without_separator_witness:
  "\<exists>ids. combine_cols [id_row ''100'' ''5'' ''20'' ''0010000'' ''3'' ''Contract'',
                         id_row ''100'' ''5'' ''21'' ''0010000'' ''3'' ''Contract''] cols_to_combine = Inr ids \<and>
         ids ! 0 \<noteq> ids ! 1"
proof -
  let ?a = "id_row ''100'' ''5'' ''20'' ''0010000'' ''3'' ''Contract''"
  let ?b = "id_row ''100'' ''5'' ''21'' ''0010000'' ''3'' ''Contract''"
  have ne: "cols_to_combine \<noteq> []" by (simp add: cols_to_combine_def)
  have pa: "plain_on cols_to_combine ?a" by (rule id_row_plain) simp_all
  have pb: "plain_on cols_to_combine ?b" by (rule id_row_plain) simp_all
  have "\<exists>ids. combine_cols [?a, ?b] cols_to_combine = Inr ids"
    using combine_row_plain[OF ne pa] combine_row_plain[OF ne pb]
    by (intro combine_cols_runs[OF ne]) auto
  then obtain ids where ids: "combine_cols [?a, ?b] cols_to_combine = Inr ids" by blast
  have diff: "?a (Col ''item_no'') \<noteq> ?b (Col ''item_no'')" by (simp add: id_row_def)
  have "ids ! 0 \<noteq> ids ! 1"
  proof
    assume "ids ! 0 = ids ! 1"
    with combine_cols_injective_without_separator[OF ids, of 0 1] pa pb
    have "\<forall>c \<in> set cols_to_combine. ?a c = ?b c" by simp
    then have "?a (Col ''item_no'') = ?b (Col ''item_no'')" by (simp add: cols_to_combine_def)
    with diff show False by simp
  qed
  with ids show ?thesis by blast
qed

lemma clean_cmic_two_lines:
  assumes ok: "astype_int j = Inr ji" "astype_int i = Inr ii" "cell_div c 100 = Inr w" "astype_int w = Inr ci"
    "astype_int j' = Inr ji'" "astype_int i' = Inr ii'" "cell_div c' 100 = Inr w'" "astype_int w' = Inr ci'"
    and nn: "j \<noteq> Null" "j' \<noteq> Null"
  shows "\<exists>a b. clean_cmic P [cmic_line j (Text s) i p c co, cmic_line j' (Text s') i' p' c' co'] = Inr [a, b] \<and>
     clean_cmic_row P (rename_row cmic_names (cmic_line j (Text s) i p c co)) = Inr a \<and>
     clean_cmic_row P (rename_row cmic_names (cmic_line j' (Text s') i' p' c' co')) = Inr b"
proof -
  let ?df = "[cmic_line j (Text s) i p c co, cmic_line j' (Text s') i' p' c' co']"
  have kept: "cmic_kept ?df = [rename_row cmic_names (cmic_line j (Text s) i p c co),
      rename_row cmic_names (cmic_line j' (Text s') i' p' c' co')]"
    using nn by (simp add: cmic_kept_line cmic_kept_Nil)
  have "\<exists>out. clean_cmic P ?df = Inr out"
  proof (rule clean_cmic_runs)
    show "\<forall>r \<in> set (rename cmic_names ?df). r (Col ''job_no'') \<noteq> None"
      by (simp add: rename_def rename_cmic_line)
    show "\<forall>r \<in> set (cmic_kept ?df). \<exists>r'. clean_cmic_row P r = Inr r'"
      using clean_cmic_line_ok[OF ok(1-4)] clean_cmic_line_ok[OF ok(5-8)] by (simp add: kept)
  qed
  then obtain out where out: "clean_cmic P ?df = Inr out" by blast
  from clean_cmic_kept[OF out] show ?thesis
    using out by (auto simp: kept list_all2_Cons1)
qed

lemma clean_cmic_two_int_lines:
  "\<exists>a b. clean_cmic P [cmic_line (IntV j) (Text s) (IntV i) p (IntV c) co,
                        cmic_line (IntV j') (Text s') (IntV i') p' (IntV c') co'] = Inr [a, b] \<and>
     clean_cmic_row P (rename_row cmic_names (cmic_line (IntV j) (Text s) (IntV i) p (IntV c) co)) = Inr a \<and>
     clean_cmic_row P (rename_row cmic_names (cmic_line (IntV j') (Text s') (IntV i') p' (IntV c') co')) = Inr b"
  by (rule clean_cmic_two_lines[OF astype_int_IntV astype_int_IntV cell_div_IntV astype_int_FloatV
        astype_int_IntV astype_int_IntV cell_div_IntV astype_int_FloatV]) simp_all

text \<open>
  Claim C1 as stated fails when a field holds the separator: the CMIC lines with subcontract
  number \<^verbatim>\<open>5_20\<close>, phase \<^verbatim>\<open>0010000\<close> and with subcontract number \<^verbatim>\<open>5\<close>, phase
  \<^verbatim>\<open>20_0010000\<close> (both with item number 20) come out of \<^verbatim>\<open>clean_cmic\<close> with the same ID,
  \<^verbatim>\<open>100_5_20_20_0010000_3_Contract\<close>.
\<close>

theorem separator_in_field_collides:
  "\<exists>a b. clean_cmic plain_pandas
       [cmic_line (IntV 100) (Text ''5_20'') (IntV 20) (Text ''0010000'') (IntV 300) (IntV 0),
        cmic_line (IntV 100) (Text ''5'') (IntV 20) (Text ''20_0010000'') (IntV 300) (IntV 0)] = Inr [a, b] \<and>
     a (Col ''ID'') = b (Col ''ID'') \<and>
     a (Col ''subcontract_no'') \<noteq> b (Col ''subcontract_no'')"
proof -
  obtain a b where out: "clean_cmic plain_pandas
       [cmic_line (IntV 100) (Text ''5_20'') (IntV 20) (Text ''0010000'') (IntV 300) (IntV 0),
        cmic_line (IntV 100) (Text ''5'') (IntV 20) (Text ''20_0010000'') (IntV 300) (IntV 0)] = Inr [a, b]"
    and a: "clean_cmic_row plain_pandas (rename_row cmic_names
        (cmic_line (IntV 100) (Text ''5_20'') (IntV 20) (Text ''0010000'') (IntV 300) (IntV 0))) = Inr a"
    and b: "clean_cmic_row plain_pandas (rename_row cmic_names
        (cmic_line (IntV 100) (Text ''5'') (IntV 20) (Text ''20_0010000'') (IntV 300) (IntV 0))) = Inr b"
    using clean_cmic_two_int_lines by blast
  note fa = clean_cmic_row_ID[OF a rename_cmic_line(1) astype_int_IntV rename_cmic_line(2)
      rename_cmic_line(3) astype_int_IntV rename_cmic_line(4) rename_cmic_line(5) cell_div_IntV
      astype_int_FloatV rename_cmic_line(6)]
  note fb = clean_cmic_row_ID[OF b rename_cmic_line(1) astype_int_IntV rename_cmic_line(2)
      rename_cmic_line(3) astype_int_IntV rename_cmic_line(4) rename_cmic_line(5) cell_div_IntV
      astype_int_FloatV rename_cmic_line(6)]
  have "a (Col ''ID'') = b (Col ''ID'')"
    by (simp add: fa(1) fb(1) pad6_def astype_str_def str_20)
  moreover have "a (Col ''subcontract_no'') \<noteq> b (Col ''subcontract_no'')"
    by (simp add: fa(3) fb(3))
  ultimately show ?thesis using out by blast
qed

section \<open>The claims about the SL normaliser\<close>

lemma int_date: "py_int_of_str ''20190101'' = Some 20190101" by code_simp

lemmas sl_run_defs = clean_sl_rows_def assign_cont_or_co_def on_rows_def apply_axis1_def sl_cont_or_co_row_def
  sl_cont_or_co_def col_apply_def col_get_def col_set_def row_get_def bind_r_def
  drop_duplicates_def dedup_subset_def row_key_def hash_key_def contract_or_dated_def
  mask_rows_def sort_index_def to_datetime_def plain_pandas_def sl_line_def

text \<open>
  Claim C4. The row filter of \<^verbatim>\<open>clean_sl\<close> is meant to keep a row once when it is marked
  Contract or carries a date. It appends the rows with a date to the rows marked Contract, so a
  row that is both is kept twice: the SL line below, with equal amounts and a date, comes out as
  two records under the index label 0.
\<close>

theorem contract_row_with_date_is_doubled:
  "\<exists>r'. clean_sl_rows plain_pandas
       [(0, sl_line (Text ''1500.00'') (Text ''1500.00'') (Text ''20190101''))] = Inr [(0, r'), (0, r')] \<and>
     r' (Col ''cont_or_co'') = Some (Text ''Contract'') \<and>
     r' (Col ''co_date'') = Some (DateV 20190101)"
  by (simp add: sl_run_defs int_date)

text \<open>
  Claim C3 as stated fails when both amounts are missing: the two missing values are not
  equal under \<^verbatim>\<open>==\<close>, and the row is marked CO.
\<close>

theorem both_null_amounts_give_CO:
  "\<exists>r'. clean_sl_rows plain_pandas
       [(0, sl_line Null Null (Text ''20190101''))] = Inr [(0, r')] \<and>
     r' (Ix 47) = Some Null \<and> r' (Ix 48) = Some Null \<and>
     r' (Col ''cont_or_co'') = Some (Text ''CO'')"
  by (simp add: sl_run_defs int_date)


lemma on_rows_Inr:
  "on_rows step df = Inr df' \<longleftrightarrow> (\<exists>rows. step (map snd df) = Inr rows \<and> df' = zip (map fst df) rows)"
  by (auto simp: on_rows_def bind_r_Inr)

lemma apply_axis1_rows:
  assumes "apply_axis1 dst f df = Inr df'"
  shows "list_all2 (\<lambda>r r'. \<exists>y. f r = Inr y \<and> r' = r(dst \<mapsto> y)) df df'"
proof -
  from assms obtain ys where ys: "list_all2 (\<lambda>r y. f r = Inr y) df ys" and df': "df' = col_set dst ys df"
    by (auto simp: apply_axis1_def bind_r_Inr map_r_Inr)
  have len: "length ys = length df" using list_all2_lengthD[OF ys] by simp
  show ?thesis
    unfolding list_all2_conv_all_nth
  proof (intro conjI allI impI)
    show "length df = length df'" using len by (simp add: df' col_set_def)
  next
    fix i assume i: "i < length df"
    have "f (df ! i) = Inr (ys ! i)" using ys i by (simp add: list_all2_conv_all_nth)
    moreover have "df' ! i = (df ! i)(dst \<mapsto> ys ! i)" using i len by (simp add: df' col_set_def)
    ultimately show "\<exists>y. f (df ! i) = Inr y \<and> df' ! i = (df ! i)(dst \<mapsto> y)" by blast
  qed
qed

lemma py_eq_notnull: "py_eq a b \<Longrightarrow> a \<noteq> Null \<and> b \<noteq> Null"
  by (cases a; cases b) simp_all

text \<open>
  Claim C3, as amended. For every SL input row, the first statement of \<^verbatim>\<open>clean_sl\<close>
  sets \<^verbatim>\<open>cont_or_co\<close> to \<^verbatim>\<open>"Contract"\<close> if and only if the cells at the positions 47 and 48
  are both present and equal under Python's \<^verbatim>\<open>==\<close> (for two texts: the same string), and to
  \<^verbatim>\<open>"CO"\<close> otherwise, in particular when both are missing. The index label of the row stays.
\<close>

theorem sl_cont_or_co_iff_equal_nonnull:
  assumes "assign_cont_or_co df = Inr df'"
  shows "list_all2
           (\<lambda>x x'. fst x' = fst x \<and>
              (\<exists>a b. snd x (Ix 47) = Some a \<and> snd x (Ix 48) = Some b \<and>
                 (snd x' (Col ''cont_or_co'') = Some (Text ''Contract'')
                    \<longleftrightarrow> a \<noteq> Null \<and> b \<noteq> Null \<and> py_eq a b) \<and>
                 (snd x' (Col ''cont_or_co'') = Some (Text ''CO'') \<longleftrightarrow> \<not> py_eq a b)))
           df df'"
proof -
  from assms obtain rows where rows: "apply_axis1 (Col ''cont_or_co'') sl_cont_or_co_row (map snd df) = Inr rows"
    and df': "df' = zip (map fst df) rows"
    by (auto simp: assign_cont_or_co_def on_rows_Inr)
  note r = apply_axis1_rows[OF rows]
  have len: "length rows = length df" using list_all2_lengthD[OF r] by simp
  show ?thesis
    unfolding list_all2_conv_all_nth
  proof (intro conjI allI impI)
    show "length df = length df'" using len by (simp add: df')
  next
    fix i assume i: "i < length df"
    then show "fst (df' ! i) = fst (df ! i)" using len by (simp add: df')
  next
    fix i assume i: "i < length df"
    from r i obtain y where y: "sl_cont_or_co_row (snd (df ! i)) = Inr y"
      "rows ! i = (snd (df ! i))(Col ''cont_or_co'' \<mapsto> y)"
      by (auto simp: list_all2_conv_all_nth)
    from y(1) obtain a b where ab: "snd (df ! i) (Ix 47) = Some a" "snd (df ! i) (Ix 48) = Some b"
      "y = Text (sl_cont_or_co a b)"
      by (auto simp: sl_cont_or_co_row_def bind_r_Inr row_get_Inr)
    have "snd (df' ! i) = rows ! i" using i len by (simp add: df')
    then have m: "snd (df' ! i) (Col ''cont_or_co'') = Some (Text (sl_cont_or_co a b))"
      using y(2) ab(3) by simp
    show "\<exists>a b. snd (df ! i) (Ix 47) = Some a \<and> snd (df ! i) (Ix 48) = Some b \<and>
                 (snd (df' ! i) (Col ''cont_or_co'') = Some (Text ''Contract'')
                    \<longleftrightarrow> a \<noteq> Null \<and> b \<noteq> Null \<and> py_eq a b) \<and>
                 (snd (df' ! i) (Col ''cont_or_co'') = Some (Text ''CO'') \<longleftrightarrow> \<not> py_eq a b)"
      using ab(1,2) m py_eq_notnull[of a b] by (auto simp: sl_cont_or_co_def)
  qed
qed

text \<open>A line with equal amounts and a line with different amounts.\<close>

theorem sl_cont_or_co_iff_equal_nonnull_witness:
  "\<exists>df'. assign_cont_or_co [(0, sl_line (Text ''1500.00'') (Text ''1500.00'') Null),
                               (1, sl_line (Text ''1500.00'') (Text ''250.00'') Null)] = Inr df' \<and>
     map (\<lambda>x. snd x (Col ''cont_or_co'')) df' = [Some (Text ''Contract''), Some (Text ''CO'')]"
proof -
  let ?df = "[(0, sl_line (Text ''1500.00'') (Text ''1500.00'') Null),
              (1::nat, sl_line (Text ''1500.00'') (Text ''250.00'') Null)]"
  have "\<exists>df'. assign_cont_or_co ?df = Inr df'"
    by (simp add: assign_cont_or_co_def on_rows_def apply_axis1_def sl_cont_or_co_row_def
        row_get_def bind_r_def sl_line_def)
  then obtain df' where run: "assign_cont_or_co ?df = Inr df'" by blast
  from sl_cont_or_co_iff_equal_nonnull[OF run] obtain x y where d: "df' = [x, y]"
    and x: "snd x (Col ''cont_or_co'') = Some (Text ''Contract'')"
    and y: "snd y (Col ''cont_or_co'') = Some (Text ''CO'')"
    by (auto simp: list_all2_Cons1 sl_line_def)
  with run show ?thesis by simp
qed

lemma keep_first_keys:
  assumes "\<forall>(k, x) \<in> set kxs. g x = k"
  shows "distinct (map g (keep_first seen kxs)) \<and>
         set (map g (keep_first seen kxs)) = set (map fst kxs) - set seen"
  using assms
proof (induction seen kxs rule: keep_first.induct)
  case (1 seen)
  then show ?case by simp
next
  case (2 seen k x xs)
  then show ?case by auto
qed

lemma keep_first_subset: "set (keep_first seen kxs) \<subseteq> snd ` set kxs"
  by (induction seen kxs rule: keep_first.induct) auto


text \<open>
  The de-duplication of \<^verbatim>\<open>clean_sl\<close> makes its own key unique, the cells of the raw
  columns 41 and 42, of \<^verbatim>\<open>cont_or_co\<close> and of \<^verbatim>\<open>co_date\<close>: directly after it no two
  rows have the same key, every key of the input is still there, and every row that stays
  is a row of the input.
\<close>

theorem drop_duplicates_unique_keys:
  assumes "drop_duplicates ks df = Inr out"
  shows "\<exists>keys all_keys.
           map_r (\<lambda>(i, r). row_key ks r) out = Inr keys \<and>
           map_r (\<lambda>(i, r). row_key ks r) df = Inr all_keys \<and>
           distinct keys \<and> set keys = set all_keys \<and> set out \<subseteq> set df"
proof -
  let ?f = "\<lambda>(i :: nat, r). row_key ks r"
  let ?g = "\<lambda>x. case ?f x of Inr k \<Rightarrow> k | Inl e \<Rightarrow> []"
  from assms obtain all_keys where ak: "map_r ?f df = Inr all_keys"
    and out: "out = keep_first [] (zip all_keys df)"
    by (auto simp: drop_duplicates_def bind_r_Inr)
  from ak have rel: "list_all2 (\<lambda>x k. ?f x = Inr k) df all_keys" by (simp add: map_r_Inr)
  have len: "length all_keys = length df" using list_all2_lengthD[OF rel] by simp
  have ok: "?f x = Inr (?g x)" if "x \<in> set df" for x
  proof -
    from that rel obtain k where "?f x = Inr k"
      by (auto simp: in_set_conv_nth list_all2_conv_all_nth)
    then show ?thesis by simp
  qed
  have pair: "?g x = k" if "(k, x) \<in> set (zip all_keys df)" for k x
  proof -
    from that obtain n where n: "n < length df" "all_keys ! n = k" "df ! n = x"
      using len by (auto simp: in_set_zip)
    with rel have "?f x = Inr k" by (auto simp: list_all2_conv_all_nth)
    then show "?g x = k" by simp
  qed
  then have pairs: "\<forall>(k, x) \<in> set (zip all_keys df). ?g x = k" by blast
  from keep_first_keys[OF pairs, of "[]"] len
  have d: "distinct (map ?g out)" and s: "set (map ?g out) = set all_keys"
    by (simp_all add: out)
  have "snd ` set (zip all_keys df) \<subseteq> set df"
    by (auto dest: set_zip_rightD)
  with keep_first_subset[of "[]" "zip all_keys df"] have sub: "set out \<subseteq> set df"
    unfolding out by (rule subset_trans)
  have "list_all2 (\<lambda>x k. ?f x = Inr k) out (map ?g out)"
    unfolding list_all2_conv_all_nth
  proof (intro conjI allI impI)
    show "length out = length (map ?g out)" by simp
  next
    fix n assume n: "n < length out"
    then have "out ! n \<in> set df" using sub by (meson nth_mem subsetD)
    from ok[OF this] n show "?f (out ! n) = Inr (map ?g out ! n)" by simp
  qed
  then have "map_r ?f out = Inr (map ?g out)" by (simp add: map_r_Inr)
  with ak d s sub show ?thesis by blast
qed

lemma row_key_dated:
  "row_key dedup_subset (dated_row item mark date) =
     Inr [Text item, Text ''Rebar  Phase: 0010000  Cat: 3'', Text mark, hash_key date]"
  by (simp add: dedup_subset_def row_key_def row_get_def bind_r_simps hash_key_def dated_row_def)

text \<open>Three change-order lines of one item, two of them with the same date.\<close>

theorem drop_duplicates_unique_keys_witness:
  "\<exists>out keys all_keys.
     drop_duplicates dedup_subset
       [(0, dated_row ''Item: 20'' ''CO'' (DateV 20190101)),
        (1, dated_row ''Item: 20'' ''CO'' (DateV 20190101)),
        (2, dated_row ''Item: 20'' ''CO'' (DateV 20190315))] = Inr out \<and>
     map (\<lambda>x. fst x) out = [0, 2] \<and>
     map_r (\<lambda>(i, r). row_key dedup_subset r) out = Inr keys \<and>
     map_r (\<lambda>(i, r). row_key dedup_subset r)
       [(0::nat, dated_row ''Item: 20'' ''CO'' (DateV 20190101)),
        (1, dated_row ''Item: 20'' ''CO'' (DateV 20190101)),
        (2, dated_row ''Item: 20'' ''CO'' (DateV 20190315))] = Inr all_keys \<and>
     distinct keys \<and> set keys = set all_keys"
proof -
  let ?df = "[(0::nat, dated_row ''Item: 20'' ''CO'' (DateV 20190101)),
        (1, dated_row ''Item: 20'' ''CO'' (DateV 20190101)),
        (2, dated_row ''Item: 20'' ''CO'' (DateV 20190315))]"
  have "\<exists>out. drop_duplicates dedup_subset ?df = Inr out \<and> map (\<lambda>x. fst x) out = [0, 2]"
    by (simp add: drop_duplicates_def row_key_dated bind_r_simps hash_key_def)
  then obtain out where run: "drop_duplicates dedup_subset ?df = Inr out"
    and ix: "map (\<lambda>x. fst x) out = [0, 2]"
    by (elim exE conjE)
  from drop_duplicates_unique_keys[OF run] obtain keys all_keys
    where k: "map_r (\<lambda>(i, r). row_key dedup_subset r) out = Inr keys"
      "map_r (\<lambda>(i, r). row_key dedup_subset r) ?df = Inr all_keys"
      "distinct keys" "set keys = set all_keys"
    by (elim exE conjE)
  show ?thesis
    by (rule exI[of _ out], rule exI[of _ keys], rule exI[of _ all_keys]) (intro conjI run ix k)
qed

section \<open>The ID within one source\<close>






text \<open>
  Concrete runs of \<^verbatim>\<open>clean_sl\<close>: the cells that the lambdas of the script take out of the
  text of an SL line, and the records of two lines.
\<close>

lemma sl_cells:
  "sl_job_no ''Subcontract Status for Job 100-A - Bridge Retrofit'' = Inr ''100''"
  "sl_job_name ''Subcontract Status for Job 100-A - Bridge Retrofit'' = Inr ''Bridge Retrofit''"
  "sl_subcontract_no ''Subcontract No : 5  Vendor: Vendor No 7001  Acme Steel Inc'' = Inr ''5''"
  "sl_vendor_no ''Subcontract No : 5  Vendor: Vendor No 7001  Acme Steel Inc'' = Inr ''7001''"
  "sl_vendor_name ''Subcontract No : 5  Vendor: Vendor No 7001  Acme Steel Inc'' = Inr ''Acme Steel Inc''"
  "sl_item_no ''Item: 20'' = Inr ''20''"
  "sl_item_no ''Item: 21'' = Inr ''21''"
  "sl_item_name ''100- Rebar  Phase: 0010000.  Cat: 3'' = Inr ''100- Rebar''"
  "sl_category ''100- Rebar  Phase: 0010000.  Cat: 3'' = Inr ''3''"
  "sl_phase_no ''100- Rebar  Phase: 0010000.  Cat: 3'' = Inr ''0010000''"
  "sl_job_cost_no ''100- Rebar  Phase: 0010000.  Cat: 3'' = Inr ''100''"
  by code_simp+

lemma sl_names:
  "py_lower (py_strip (take 15 ''Acme Steel Inc'')) = ''acme steel inc''"
  "py_lower (py_strip (take 30 ''100- Rebar'')) = ''100- rebar''"
  by code_simp+

lemma sl_numbers:
  "py_int_of_str ''1'' = Some 1"
  "py_int_of_str ''0'' = Some 0"
  "py_int_of_str ''250'' = Some 250"
  "py_int_of_str ''1500'' = Some 1500"
  "py_int_of_str ''20190201'' = Some 20190201"
  by code_simp+

lemma sl_full_line_cells:
  "sl_full_line item a1 a2 d (Ix 20) = Some (Text ''Subcontract No : 5  Vendor: Vendor No 7001  Acme Steel Inc'')"
  "sl_full_line item a1 a2 d (Ix 26) = Some (Text ''Subcontract Status for Job 100-A - Bridge Retrofit'')"
  "sl_full_line item a1 a2 d (Ix 41) = Some (Text (''Item: '' @ item))"
  "sl_full_line item a1 a2 d (Ix 42) = Some (Text ''100- Rebar  Phase: 0010000.  Cat: 3'')"
  "sl_full_line item a1 a2 d (Ix 47) = Some a1"
  "sl_full_line item a1 a2 d (Ix 48) = Some a2"
  "sl_full_line item a1 a2 d (Ix 56) = Some (Text ''LS'')"
  "sl_full_line item a1 a2 d (Ix 57) = Some (Text ''1'')"
  "sl_full_line item a1 a2 d (Ix 102) = Some d"
  "sl_full_line item a1 a2 d (Ix 105) = Some Null"
  "sl_full_line item a1 a2 d (Ix 106) = Some Null"
  "sl_full_line item a1 a2 d (Ix 108) = Some (Text ''250'')"
  "sl_full_line item a1 a2 d (Ix 128) = Some (Text ''1,500'')"
  "sl_full_line item a1 a2 d (Ix 129) = Some (Text ''1,500'')"
  "sl_full_line item a1 a2 d (Col c) = None"
  by (simp_all add: sl_full_line_def)

lemmas sl_rows_defs = clean_sl_rows_def assign_cont_or_co_def on_rows_def apply_axis1_def sl_cont_or_co_row_def
  sl_cont_or_co_def col_apply_def col_get_def col_set_def row_get_def bind_r_simps
  drop_duplicates_def dedup_subset_def row_key_def hash_key_def contract_or_dated_def
  mask_rows_def sort_index_def to_datetime_def plain_pandas_def sl_full_line_cells int_date sl_numbers

lemmas sl_cols_defs = sl_columns_def on_rows_def apply_axis1_def
  col_apply_def col_get_def col_set_def row_get_def bind_r_simps str_map_def short_name_def astype_str_def
  gather_row_def gather_co_rel_data_def comma_float_def fillna_def str_replace_comma_def astype_float_def
  set_ID_def series_add_def series_add_scalar_def cell_add_def cols_to_combine_def
  plain_pandas_def sl_full_line_cells sl_cells sl_names sl_numbers plain_on_def



lemma sl_two_dates_rows:
  "clean_sl_rows plain_pandas
     [(0, sl_full_line ''20'' (Text ''1500'') (Text ''250'') (Text ''20190101'')),
      (1, sl_full_line ''20'' (Text ''1500'') (Text ''250'') (Text ''20190201''))]
   = Inr [(0, (sl_full_line ''20'' (Text ''1500'') (Text ''250'') (Text ''20190101''))
                (Col ''cont_or_co'' \<mapsto> Text ''CO'', Col ''co_date'' \<mapsto> DateV 20190101)),
          (1, (sl_full_line ''20'' (Text ''1500'') (Text ''250'') (Text ''20190201''))
                (Col ''cont_or_co'' \<mapsto> Text ''CO'', Col ''co_date'' \<mapsto> DateV 20190201))]"
  by (simp add: sl_rows_defs)



text \<open>
  The de-duplication of \<^verbatim>\<open>clean_sl\<close> does not make the ID unique either: its key holds the
  date and not the ID. Two SL lines of one item that carry change orders of different dates
  both stay, as two records with the same ID.
\<close>

lemma sl_change_orders_share_ID:
  "\<exists>c d. clean_sl plain_pandas
     [(0, sl_full_line ''20'' (Text ''1500'') (Text ''250'') (Text ''20190101'')),
      (1, sl_full_line ''20'' (Text ''1500'') (Text ''250'') (Text ''20190201''))]
   = Inr [(0, c), (1, d)] \<and>
     c (Col ''co_date'') = Some (DateV 20190101) \<and> d (Col ''co_date'') = Some (DateV 20190201) \<and>
     c (Col ''ID'') = Some (Text ''100_5_20_0010000_3_CO'') \<and>
     d (Col ''ID'') = Some (Text ''100_5_20_0010000_3_CO'')"
  by (simp only: clean_sl_def sl_two_dates_rows bind_r_simps) (simp add: sl_cols_defs)

section \<open>The reconciler row by row\<close>

lemma compare_col_rows:
  assumes "compare_col col df = Inr df'"
  shows "list_all2 (\<lambda>r r'. compare_col_row col r = Inr r') df df'"
proof -
  from assms obtain a b where a: "list_all2 (\<lambda>r x. row_get (Col (col @ ''_cmic'')) r = Inr x) df a"
    and b: "list_all2 (\<lambda>r x. row_get (Col (col @ ''_sl'')) r = Inr x) df b"
    and df': "df' = col_set (Col (col @ ''_zcomparison'')) (map (\<lambda>(x, y). BoolV (py_eq x y)) (zip a b)) df"
    by (auto simp: compare_col_def col_get_def bind_r_Inr map_r_Inr)
  have len: "length a = length df" "length b = length df"
    using list_all2_lengthD[OF a] list_all2_lengthD[OF b] by simp_all
  show ?thesis
    unfolding list_all2_conv_all_nth
  proof (intro conjI allI impI)
    show "length df = length df'" using len by (simp add: df' col_set_def)
  next
    fix i assume i: "i < length df"
    have "row_get (Col (col @ ''_cmic'')) (df ! i) = Inr (a ! i)"
      using a i by (simp add: list_all2_conv_all_nth)
    moreover have "row_get (Col (col @ ''_sl'')) (df ! i) = Inr (b ! i)"
      using b i by (simp add: list_all2_conv_all_nth)
    moreover have "df' ! i = (df ! i)(Col (col @ ''_zcomparison'') \<mapsto> BoolV (py_eq (a ! i) (b ! i)))"
      using i len by (simp add: df' col_set_def)
    ultimately show "compare_col_row col (df ! i) = Inr (df' ! i)"
      by (simp add: compare_col_row_def bind_r_simps)
  qed
qed

lemma force_rows:
  assumes "force_contract_dates df = Inr df'"
  shows "list_all2 (\<lambda>r r'. force_row r = Inr r') df df'"
proof -
  from assms obtain s c where s: "list_all2 (\<lambda>r x. row_get (Col ''cont_or_co_sl'') r = Inr x) df s"
    and c: "list_all2 (\<lambda>r x. row_get (Col ''cont_or_co_cmic'') r = Inr x) df c"
    and df': "df' = map (\<lambda>(r, m). if m then r(Col ''co_date_zcomparison'' \<mapsto> BoolV True) else r)
              (zip df (map (\<lambda>(x, y). py_eq x (Text ''Contract'') \<and> py_eq y (Text ''Contract'')) (zip s c)))"
    by (auto simp: force_contract_dates_def col_get_def bind_r_Inr map_r_Inr)
  have len: "length s = length df" "length c = length df"
    using list_all2_lengthD[OF s] list_all2_lengthD[OF c] by simp_all
  show ?thesis
    unfolding list_all2_conv_all_nth
  proof (intro conjI allI impI)
    show "length df = length df'" using len by (simp add: df')
  next
    fix i assume i: "i < length df"
    have "row_get (Col ''cont_or_co_sl'') (df ! i) = Inr (s ! i)"
      using s i by (simp add: list_all2_conv_all_nth)
    moreover have "row_get (Col ''cont_or_co_cmic'') (df ! i) = Inr (c ! i)"
      using c i by (simp add: list_all2_conv_all_nth)
    moreover have "df' ! i = (if py_eq (s ! i) (Text ''Contract'') \<and> py_eq (c ! i) (Text ''Contract'')
        then (df ! i)(Col ''co_date_zcomparison'' \<mapsto> BoolV True) else df ! i)"
      using i len by (simp add: df')
    ultimately show "force_row (df ! i) = Inr (df' ! i)"
      by (simp add: force_row_def bind_r_simps)
  qed
qed

lemma compare_dfs_rows:
  assumes "compare_dfs cmic sl = Inr out"
  shows "\<exists>left right m. select_cols cols_to_keep cmic = Inr left \<and> select_cols cols_to_keep sl = Inr right \<and>
           merge_outer cols_to_keep left right = Inr m \<and>
           list_all2 (\<lambda>x r. finish_row x = Inr r) m out"
proof -
  from assms obtain left right m y where l: "select_cols cols_to_keep cmic = Inr left"
    and r: "select_cols cols_to_keep sl = Inr right"
    and m: "merge_outer cols_to_keep left right = Inr m"
    and y: "seq_r (map compare_col cols_to_compare) m = Inr y"
    and out: "force_contract_dates y = Inr out"
    by (auto simp: compare_dfs_def compare_cols_def bind_r_Inr)
  have "list_all2 (\<lambda>s t. \<forall>df df'. s df = Inr df' \<longrightarrow> list_all2 (\<lambda>r r'. t r = Inr r') df df')
          (map compare_col cols_to_compare) (map compare_col_row cols_to_compare)"
    by (auto simp: list.rel_map list_all2_same intro: compare_col_rows)
  from seq_r_rows[OF this y] have a: "list_all2 (\<lambda>r r'. seq_r (map compare_col_row cols_to_compare) r = Inr r') m y" .
  note b = force_rows[OF out]
  have "list_all2 (\<lambda>x r. finish_row x = Inr r) m out"
    unfolding list_all2_conv_all_nth
  proof (intro conjI allI impI)
    show "length m = length out" using list_all2_lengthD[OF a] list_all2_lengthD[OF b] by simp
  next
    fix i assume i: "i < length m"
    then have "seq_r (map compare_col_row cols_to_compare) (m ! i) = Inr (y ! i)"
      using a by (simp add: list_all2_conv_all_nth)
    moreover have "force_row (y ! i) = Inr (out ! i)"
      using b i list_all2_lengthD[OF a] by (simp add: list_all2_conv_all_nth)
    ultimately show "finish_row (m ! i) = Inr (out ! i)" by (simp add: finish_row_def bind_r_simps)
  qed
  with l r m show ?thesis by blast
qed

lemma suffix_neq: "s \<noteq> [] \<Longrightarrow> t \<noteq> [] \<Longrightarrow> last s \<noteq> last t \<Longrightarrow> f @ s \<noteq> g @ t"
  by (metis last_appendR)

lemma z_neq_side:
  "f @ ''_zcomparison'' \<noteq> g @ ''_cmic''" "f @ ''_zcomparison'' \<noteq> g @ ''_sl''"
  "g @ ''_cmic'' \<noteq> f @ ''_zcomparison''" "g @ ''_sl'' \<noteq> f @ ''_zcomparison''"
  "f @ ''_cmic'' \<noteq> g @ ''_sl''" "f @ ''_sl'' \<noteq> g @ ''_cmic''"
  by (rule suffix_neq; simp)+

lemma compare_col_row_Inr:
  "compare_col_row c x = Inr y \<longleftrightarrow>
     (\<exists>a b. x (Col (c @ ''_cmic'')) = Some a \<and> x (Col (c @ ''_sl'')) = Some b \<and>
        y = x(Col (c @ ''_zcomparison'') \<mapsto> BoolV (py_eq a b)))"
  by (auto simp: compare_col_row_def bind_r_Inr row_get_Inr)

lemma seq_compare:
  "seq_r (map compare_col_row cs) x = Inr y \<Longrightarrow>
     (\<forall>l. l \<notin> (\<lambda>f. Col (f @ ''_zcomparison'')) ` set cs \<longrightarrow> y l = x l) \<and>
     (\<forall>f \<in> set cs. \<exists>a b. x (Col (f @ ''_cmic'')) = Some a \<and> x (Col (f @ ''_sl'')) = Some b \<and>
         y (Col (f @ ''_zcomparison'')) = Some (BoolV (py_eq a b)))"
proof (induction cs arbitrary: x)
  case Nil
  then show ?case by simp
next
  case (Cons c cs)
  from Cons.prems obtain x1 where x1: "compare_col_row c x = Inr x1"
    and rest: "seq_r (map compare_col_row cs) x1 = Inr y"
    by (auto simp: bind_r_Inr)
  from x1 obtain a b where ab: "x (Col (c @ ''_cmic'')) = Some a" "x (Col (c @ ''_sl'')) = Some b"
    "x1 = x(Col (c @ ''_zcomparison'') \<mapsto> BoolV (py_eq a b))"
    by (auto simp: compare_col_row_Inr)
  note IH = Cons.IH[OF rest]
  have side: "x1 (Col (f @ ''_cmic'')) = x (Col (f @ ''_cmic''))" "x1 (Col (f @ ''_sl'')) = x (Col (f @ ''_sl''))" for f
    by (simp_all add: ab(3) z_neq_side)
  show ?case
  proof (intro conjI allI impI ballI)
    fix l assume "l \<notin> (\<lambda>f. Col (f @ ''_zcomparison'')) ` set (c # cs)"
    then have "l \<noteq> Col (c @ ''_zcomparison'')" "l \<notin> (\<lambda>f. Col (f @ ''_zcomparison'')) ` set cs" by auto
    with IH show "y l = x l" by (simp add: ab(3))
  next
    fix f assume f: "f \<in> set (c # cs)"
    show "\<exists>a b. x (Col (f @ ''_cmic'')) = Some a \<and> x (Col (f @ ''_sl'')) = Some b \<and>
         y (Col (f @ ''_zcomparison'')) = Some (BoolV (py_eq a b))"
    proof (cases "f \<in> set cs")
      case True
      with IH side show ?thesis by auto
    next
      case False
      with f have fc: "f = c" by simp
      from False fc have "Col (c @ ''_zcomparison'') \<notin> (\<lambda>f. Col (f @ ''_zcomparison'')) ` set cs" by auto
      with IH have "y (Col (c @ ''_zcomparison'')) = x1 (Col (c @ ''_zcomparison''))" by blast
      with ab fc show ?thesis by simp
    qed
  qed
qed

lemma py_eq_Contract: "py_eq v (Text ''Contract'') \<longleftrightarrow> v = Text ''Contract''"
  by (cases v) auto

lemma z_label_not_side:
  "Col (c @ ''_cmic'') \<notin> (\<lambda>f. Col (f @ ''_zcomparison'')) ` S"
  "Col (c @ ''_sl'') \<notin> (\<lambda>f. Col (f @ ''_zcomparison'')) ` S"
  by (auto simp: z_neq_side)

lemma finish_row_Inr:
  assumes "finish_row x = Inr r"
  shows "\<exists>y. seq_r (map compare_col_row cols_to_compare) x = Inr y \<and>
          (\<exists>s c. y (Col ''cont_or_co_sl'') = Some s \<and> y (Col ''cont_or_co_cmic'') = Some c \<and>
             r = (if s = Text ''Contract'' \<and> c = Text ''Contract''
                  then y(Col ''co_date_zcomparison'' \<mapsto> BoolV True) else y))"
  using assms by (auto simp: finish_row_def bind_r_Inr force_row_def row_get_Inr py_eq_Contract)

lemma finish_row_side:
  assumes "finish_row x = Inr r"
  shows "r (Col (c @ ''_cmic'')) = x (Col (c @ ''_cmic''))" "r (Col (c @ ''_sl'')) = x (Col (c @ ''_sl''))"
    "r (Col ''ID'') = x (Col ''ID'')"
proof -
  from finish_row_Inr[OF assms] obtain y s k where y: "seq_r (map compare_col_row cols_to_compare) x = Inr y"
    and r: "r = (if s = Text ''Contract'' \<and> k = Text ''Contract''
                  then y(Col ''co_date_zcomparison'' \<mapsto> BoolV True) else y)"
    by blast
  have yx: "y (Col (c @ ''_cmic'')) = x (Col (c @ ''_cmic''))" "y (Col (c @ ''_sl'')) = x (Col (c @ ''_sl''))"
    using seq_compare[OF y] z_label_not_side by blast+
  have "Col ''ID'' \<notin> (\<lambda>f. Col (f @ ''_zcomparison'')) ` set cols_to_compare"
    by (simp add: cols_to_compare_def)
  then have yi: "y (Col ''ID'') = x (Col ''ID'')" using seq_compare[OF y] by blast
  have ne: "Col ''co_date_zcomparison'' \<noteq> Col (c @ ''_cmic'')" "Col ''co_date_zcomparison'' \<noteq> Col (c @ ''_sl'')"
    using z_neq_side[of "''co_date''" c] by simp_all
  show "r (Col (c @ ''_cmic'')) = x (Col (c @ ''_cmic''))" using yx ne by (simp add: r)
  show "r (Col (c @ ''_sl'')) = x (Col (c @ ''_sl''))" using yx ne by (simp add: r)
  show "r (Col ''ID'') = x (Col ''ID'')" using yi by (simp add: r)
qed

lemma out_row_finish:
  assumes "compare_dfs cmic sl = Inr out" "r \<in> set out"
  shows "\<exists>left right m x. select_cols cols_to_keep cmic = Inr left \<and> select_cols cols_to_keep sl = Inr right \<and>
           merge_outer cols_to_keep left right = Inr m \<and> x \<in> set m \<and> finish_row x = Inr r"
proof -
  from compare_dfs_rows[OF assms(1)] obtain left right m where l: "select_cols cols_to_keep cmic = Inr left"
    and r: "select_cols cols_to_keep sl = Inr right" and m: "merge_outer cols_to_keep left right = Inr m"
    and rel: "list_all2 (\<lambda>x r. finish_row x = Inr r) m out" by blast
  from assms(2) obtain i where i: "i < length out" "out ! i = r" by (auto simp: in_set_conv_nth)
  with rel have "m ! i \<in> set m" "finish_row (m ! i) = Inr r"
    by (auto simp: list_all2_conv_all_nth)
  with l r m show ?thesis by blast
qed

text \<open>
  Claim C6. In every row that \<^verbatim>\<open>compare_dfs\<close> returns in which \<^verbatim>\<open>cont_or_co_cmic\<close> and
  \<^verbatim>\<open>cont_or_co_sl\<close> are both \<^verbatim>\<open>"Contract"\<close>, \<^verbatim>\<open>co_date_zcomparison\<close> is true, whatever
  the two dates are.
\<close>

theorem contract_rows_force_co_date:
  assumes "compare_dfs cmic sl = Inr out" and "r \<in> set out"
    and "r (Col ''cont_or_co_cmic'') = Some (Text ''Contract'')"
    and "r (Col ''cont_or_co_sl'') = Some (Text ''Contract'')"
  shows "r (Col ''co_date_zcomparison'') = Some (BoolV True)"
proof -
  from out_row_finish[OF assms(1,2)] obtain x where "finish_row x = Inr r" by blast
  from finish_row_Inr[OF this] obtain y s c where
    s: "y (Col ''cont_or_co_sl'') = Some s" and c: "y (Col ''cont_or_co_cmic'') = Some c"
    and r: "r = (if s = Text ''Contract'' \<and> c = Text ''Contract''
                  then y(Col ''co_date_zcomparison'' \<mapsto> BoolV True) else y)"
    by blast
  have "r (Col ''cont_or_co_sl'') = Some s" "r (Col ''cont_or_co_cmic'') = Some c"
    using s c by (simp_all add: r)
  with assms(3,4) have "s = Text ''Contract''" "c = Text ''Contract''" by simp_all
  then show ?thesis by (simp add: r)
qed

text \<open>
  Claim C7. For every compared field and every row that \<^verbatim>\<open>compare_dfs\<close> returns in which
  the field is missing on the CMIC side and on the SL side, the field's \<^verbatim>\<open>_zcomparison\<close> is
  false, except for \<^verbatim>\<open>co_date\<close> in a row where both sides are marked Contract.
\<close>

theorem null_never_equals_null:
  assumes "compare_dfs cmic sl = Inr out" and "r \<in> set out" and f: "f \<in> set cols_to_compare"
    and n: "r (Col (f @ ''_cmic'')) = Some Null" "r (Col (f @ ''_sl'')) = Some Null"
    and e: "\<not> (f = ''co_date'' \<and> r (Col ''cont_or_co_cmic'') = Some (Text ''Contract'') \<and>
               r (Col ''cont_or_co_sl'') = Some (Text ''Contract''))"
  shows "r (Col (f @ ''_zcomparison'')) = Some (BoolV False)"
proof -
  from out_row_finish[OF assms(1,2)] obtain x where x: "finish_row x = Inr r" by blast
  from finish_row_Inr[OF x] obtain y s c where y: "seq_r (map compare_col_row cols_to_compare) x = Inr y"
    and s: "y (Col ''cont_or_co_sl'') = Some s" and c: "y (Col ''cont_or_co_cmic'') = Some c"
    and r: "r = (if s = Text ''Contract'' \<and> c = Text ''Contract''
                  then y(Col ''co_date_zcomparison'' \<mapsto> BoolV True) else y)"
    by blast
  from seq_compare[OF y] f obtain a b where ab: "x (Col (f @ ''_cmic'')) = Some a"
    "x (Col (f @ ''_sl'')) = Some b" "y (Col (f @ ''_zcomparison'')) = Some (BoolV (py_eq a b))"
    by blast
  from finish_row_side(1,2)[OF x, of f] n ab have "a = Null" "b = Null" by simp_all
  then have yz: "y (Col (f @ ''_zcomparison'')) = Some (BoolV False)" using ab(3) by simp
  have rs: "r (Col ''cont_or_co_sl'') = Some s" "r (Col ''cont_or_co_cmic'') = Some c"
    using s c by (simp_all add: r)
  show ?thesis
  proof (cases "f = ''co_date''")
    case True
    with e rs have "\<not> (s = Text ''Contract'' \<and> c = Text ''Contract'')" by auto
    then show ?thesis using yz by (auto simp: r)
  next
    case False
    then have "Col (f @ ''_zcomparison'') \<noteq> Col ''co_date_zcomparison''" by simp
    then show ?thesis using yz by (simp add: r)
  qed
qed

lemma ID_neq_side: "''ID'' \<noteq> c @ ''_cmic''" "''ID'' \<noteq> c @ ''_sl''"
  using suffix_neq[of "''ID''" "''_cmic''" "[]" c] suffix_neq[of "''ID''" "''_sl''" "[]" c] by simp_all

lemma foldl_sides:
  "foldl (\<lambda>m c. m(Col (c @ ''_cmic'') \<mapsto> u c, Col (c @ ''_sl'') \<mapsto> v c)) m0 cs l =
     (if l \<in> (\<lambda>c. Col (c @ ''_cmic'')) ` set cs \<union> (\<lambda>c. Col (c @ ''_sl'')) ` set cs
      then (case l of Col n \<Rightarrow>
              (if n \<in> (\<lambda>c. c @ ''_cmic'') ` set cs then Some (u (take (length n - 5) n))
               else Some (v (take (length n - 3) n)))
            | Ix k \<Rightarrow> None)
      else m0 l)"
proof (induction cs rule: rev_induct)
  case Nil
  then show ?case by simp
next
  case (snoc c cs)
  show ?case
  proof (cases "l = Col (c @ ''_sl'')")
    case True
    then show ?thesis by (auto simp: z_neq_side)
  next
    case False
    note nsl = this
    show ?thesis
    proof (cases "l = Col (c @ ''_cmic'')")
      case True
      then show ?thesis by (auto simp: z_neq_side)
    next
      case False
      with nsl snoc show ?thesis by (auto simp: z_neq_side split: label.splits)
    qed
  qed
qed

lemma merged_row_side:
  assumes "c \<in> set cols" "c \<noteq> ''ID''"
  shows "merged_row cols l r (Col (c @ ''_cmic'')) = Some (side_val l c)"
    and "merged_row cols l r (Col (c @ ''_sl'')) = Some (side_val r c)"
  using assms by (auto simp: merged_row_def foldl_sides z_neq_side)

lemma merged_row_ID:
  "merged_row cols l r (Col ''ID'') = Some (case l of Some x \<Rightarrow> side_val l ''ID'' | None \<Rightarrow> side_val r ''ID'')"
  by (auto simp: merged_row_def foldl_sides ID_neq_side)

lemma hash_key_Null: "hash_key Null = Null"
  by (simp add: hash_key_def)

lemma select_row_Inr:
  assumes "select_row cols r = Inr r'"
  shows "(\<forall>c \<in> set cols. r (Col c) \<noteq> None) \<and> (\<forall>c \<in> set cols. r' (Col c) = r (Col c))"
proof -
  from assms obtain vs where vs: "list_all2 (\<lambda>c v. row_get (Col c) r = Inr v) cols vs"
    and r': "r' = (\<lambda>l. case l of Col c \<Rightarrow> (if c \<in> set cols then r l else None) | Ix n \<Rightarrow> None)"
    by (auto simp: select_row_def bind_r_Inr map_r_Inr)
  have "r (Col c) \<noteq> None" if "c \<in> set cols" for c
  proof -
    from that vs obtain v where "row_get (Col c) r = Inr v"
      by (auto simp: in_set_conv_nth list_all2_conv_all_nth)
    then show ?thesis by (simp add: row_get_Inr)
  qed
  then show ?thesis by (simp add: r')
qed

lemma select_cols_keys:
  assumes "select_cols cols df = Inr left" "''ID'' \<in> set cols"
  shows "map id_key left = map id_key df" and "\<forall>l \<in> set left. \<forall>c \<in> set cols. l (Col c) \<noteq> None"
proof -
  from assms(1) have rel: "list_all2 (\<lambda>r r'. select_row cols r = Inr r') df left"
    by (simp add: select_cols_def map_r_Inr)
  have len: "length left = length df" using list_all2_lengthD[OF rel] by simp
  have k: "id_key (left ! i) = id_key (df ! i)" if "i < length df" for i
  proof -
    from rel that have "select_row cols (df ! i) = Inr (left ! i)" by (simp add: list_all2_conv_all_nth)
    from select_row_Inr[OF this] assms(2) show ?thesis by (simp add: id_key_def)
  qed
  show "map id_key left = map id_key df"
    using len k by (simp add: list_eq_iff_nth_eq)
  show "\<forall>l \<in> set left. \<forall>c \<in> set cols. l (Col c) \<noteq> None"
  proof (intro ballI)
    fix l c assume "l \<in> set left" "c \<in> set cols"
    then obtain i where i: "i < length df" "left ! i = l" using len by (auto simp: in_set_conv_nth)
    with rel have "select_row cols (df ! i) = Inr l" by (auto simp: list_all2_conv_all_nth)
    from select_row_Inr[OF this] \<open>c \<in> set cols\<close> show "l (Col c) \<noteq> None" by simp
  qed
qed

lemma rows_of_key_zip:
  "rows_of_key k (zip (map f xs) xs) = filter (\<lambda>x. f x = k) xs"
  by (induction xs) (simp_all add: rows_of_key_def)

lemma col_get_ID_keys:
  assumes "col_get (Col ''ID'') df = Inr ks"
  shows "map hash_key ks = map id_key df"
proof -
  from assms have rel: "list_all2 (\<lambda>r v. row_get (Col ''ID'') r = Inr v) df ks"
    by (simp add: col_get_def map_r_Inr)
  then show ?thesis
    by (induction df ks rule: list_all2_induct) (simp_all add: row_get_Inr id_key_def)
qed

lemma merge_outer_Inr:
  assumes "merge_outer cols L R = Inr m"
  shows "m = concat (map (\<lambda>k. join_group cols (filter (\<lambda>l. id_key l = k) L) (filter (\<lambda>r. id_key r = k) R))
                 (key_order (map id_key L @ map id_key R)))"
proof -
  from assms obtain lk rk where lk: "col_get (Col ''ID'') L = Inr lk" and rk: "col_get (Col ''ID'') R = Inr rk"
    and m: "m = concat (map (\<lambda>k. join_group cols (rows_of_key k (zip (map hash_key lk) L))
                                     (rows_of_key k (zip (map hash_key rk) R)))
                 (key_order (map hash_key lk @ map hash_key rk)))"
    by (auto simp: merge_outer_def bind_r_Inr Let_def)
  show ?thesis
    unfolding m col_get_ID_keys[OF lk] col_get_ID_keys[OF rk] rows_of_key_zip ..
qed

lemma id_key_merged:
  "id_key (merged_row cols (Some l) r) = id_key l"
  "id_key (merged_row cols None (Some r')) = id_key r'"
  by (simp_all add: id_key_def merged_row_ID side_val_def hash_key_Null split: option.splits)

lemma length_join_group:
  "length (join_group cols ls rs) = pair_count (length ls) (length rs)"
  by (simp add: join_group_def pair_count_def length_concat comp_def sum_list_triv)

lemma id_key_join_group:
  assumes "\<forall>l \<in> set ls. id_key l = k" "\<forall>r \<in> set rs. id_key r = k" "x \<in> set (join_group cols ls rs)"
  shows "id_key x = k"
  using assms by (auto simp: join_group_def id_key_merged split: if_splits)

lemma id_key_group:
  "x \<in> set (join_group cols (filter (\<lambda>l. id_key l = k) L) (filter (\<lambda>r. id_key r = k) R)) \<Longrightarrow> id_key x = k"
  by (rule id_key_join_group[of "filter (\<lambda>l. id_key l = k) L" k "filter (\<lambda>r. id_key r = k) R" x cols]) simp_all

lemma uniq_props: "distinct (uniq xs)" "set (uniq xs) = set xs"
  by (simp_all add: uniq_def)

lemma key_order_props: "distinct (key_order ks)" "set (key_order ks) = set ks"
  by (auto simp: key_order_def uniq_props)

lemma count_list_map_filter: "count_list (map f xs) k = length (filter (\<lambda>x. f x = k) xs)"
  by (induction xs) simp_all

lemma count_list_concat_groups:
  assumes "distinct ks" "\<And>k x. k \<in> set ks \<Longrightarrow> x \<in> set (g k) \<Longrightarrow> f x = k"
  shows "count_list (map f (concat (map g ks))) k = (if k \<in> set ks then length (g k) else 0)"
  using assms
proof (induction ks)
  case Nil
  then show ?case by simp
next
  case (Cons a ks)
  have here: "count_list (map f (g a)) k = (if a = k then length (g a) else 0)"
  proof (cases "a = k")
    case True
    have "filter (\<lambda>x. f x = k) (g a) = g a"
      using Cons.prems(2)[of a] True by (auto intro: filter_True)
    then show ?thesis using True by (simp add: count_list_map_filter)
  next
    case False
    have "filter (\<lambda>x. f x = k) (g a) = []"
      using Cons.prems(2)[of a] False by (auto simp: filter_empty_conv)
    then show ?thesis using False by (simp add: count_list_map_filter)
  qed
  have rest: "count_list (map f (concat (map g ks))) k = (if k \<in> set ks then length (g k) else 0)"
    using Cons.IH Cons.prems by auto
  show ?case using here rest Cons.prems(1) by auto
qed

lemma merge_outer_count:
  assumes "merge_outer cols L R = Inr m"
  shows "count_list (map id_key m) k =
           pair_count (count_list (map id_key L) k) (count_list (map id_key R) k)"
proof -
  let ?g = "\<lambda>k. join_group cols (filter (\<lambda>l. id_key l = k) L) (filter (\<lambda>r. id_key r = k) R)"
  let ?ks = "key_order (map id_key L @ map id_key R)"
  have m: "m = concat (map ?g ?ks)" by (rule merge_outer_Inr[OF assms])
  have c: "count_list (map id_key m) k = (if k \<in> set ?ks then length (?g k) else 0)"
    unfolding m
    by (rule count_list_concat_groups[OF key_order_props(1)]) (rule id_key_group)
  show ?thesis
  proof (cases "k \<in> set ?ks")
    case True
    have "length (?g k) = pair_count (count_list (map id_key L) k) (count_list (map id_key R) k)"
      by (simp add: length_join_group count_list_map_filter)
    with c True show ?thesis by simp
  next
    case False
    then have "k \<notin> set (map id_key L)" "k \<notin> set (map id_key R)" by (simp_all add: key_order_props)
    then have "count_list (map id_key L) k = 0" "count_list (map id_key R) k = 0" by simp_all
    with False show ?thesis by (simp add: c pair_count_def)
  qed
qed

lemma merge_outer_one_sided:
  assumes "merge_outer cols L R = Inr m" "x \<in> set m"
  shows "(id_key x \<notin> id_key ` set R \<longrightarrow> (\<exists>l. x = merged_row cols (Some l) None)) \<and>
         (id_key x \<notin> id_key ` set L \<longrightarrow> (\<exists>r. x = merged_row cols None (Some r)))"
proof -
  let ?g = "\<lambda>k. join_group cols (filter (\<lambda>l. id_key l = k) L) (filter (\<lambda>r. id_key r = k) R)"
  from merge_outer_Inr[OF assms(1)] assms(2) obtain k where x: "x \<in> set (?g k)" by auto
  then have k: "id_key x = k" by (rule id_key_group)
  show ?thesis
  proof (intro conjI impI)
    assume "id_key x \<notin> id_key ` set R"
    then have "\<forall>r \<in> set R. id_key r \<noteq> k" using k by (metis imageI)
    then have "filter (\<lambda>r. id_key r = k) R = []" by (simp add: filter_empty_conv)
    with x show "\<exists>l. x = merged_row cols (Some l) None" by (auto simp: join_group_def)
  next
    assume "id_key x \<notin> id_key ` set L"
    then have "\<forall>l \<in> set L. id_key l \<noteq> k" using k by (metis imageI)
    then have e: "filter (\<lambda>l. id_key l = k) L = []" by (simp add: filter_empty_conv)
    with x show "\<exists>r. x = merged_row cols None (Some r)" by (auto simp: join_group_def split: if_splits)
  qed
qed

lemma finish_row_id_key: "finish_row x = Inr r \<Longrightarrow> id_key r = id_key x"
  by (simp add: id_key_def finish_row_side(3))

lemma compare_dfs_count:
  assumes "compare_dfs cmic sl = Inr out"
  shows "count_list (map id_key out) k =
           pair_count (count_list (map id_key cmic) k) (count_list (map id_key sl) k)"
proof -
  from compare_dfs_rows[OF assms] obtain left right m where l: "select_cols cols_to_keep cmic = Inr left"
    and r: "select_cols cols_to_keep sl = Inr right" and m: "merge_outer cols_to_keep left right = Inr m"
    and rel: "list_all2 (\<lambda>x r. finish_row x = Inr r) m out" by blast
  have id: "''ID'' \<in> set cols_to_keep" by (simp add: cols_to_keep_def)
  from rel have "map id_key out = map id_key m"
    by (induction m out rule: list_all2_induct) (simp_all add: finish_row_id_key)
  then show ?thesis
    using merge_outer_count[OF m, of k] select_cols_keys(1)[OF l id] select_cols_keys(1)[OF r id] by simp
qed

lemma compare_dfs_one_sided:
  assumes "compare_dfs cmic sl = Inr out" "r \<in> set out" "c \<in> set cols_to_keep" "c \<noteq> ''ID''"
  shows "id_key r \<notin> id_key ` set sl \<Longrightarrow> r (Col (c @ ''_sl'')) = Some Null"
    and "id_key r \<notin> id_key ` set cmic \<Longrightarrow> r (Col (c @ ''_cmic'')) = Some Null"
proof -
  from out_row_finish[OF assms(1,2)] obtain left right m x where l: "select_cols cols_to_keep cmic = Inr left"
    and rr: "select_cols cols_to_keep sl = Inr right" and m: "merge_outer cols_to_keep left right = Inr m"
    and x: "x \<in> set m" "finish_row x = Inr r" by blast
  have id: "''ID'' \<in> set cols_to_keep" by (simp add: cols_to_keep_def)
  have kl: "id_key ` set left = id_key ` set cmic"
    using select_cols_keys(1)[OF l id] by (metis set_map)
  have kr: "id_key ` set right = id_key ` set sl"
    using select_cols_keys(1)[OF rr id] by (metis set_map)
  note one = merge_outer_one_sided[OF m x(1)]
  note k = finish_row_id_key[OF x(2)]
  show "r (Col (c @ ''_sl'')) = Some Null" if "id_key r \<notin> id_key ` set sl"
  proof -
    from that one k kr obtain l where "x = merged_row cols_to_keep (Some l) None" by auto
    then have "x (Col (c @ ''_sl'')) = Some Null"
      using merged_row_side(2)[OF assms(3,4)] by (simp add: side_val_def)
    then show ?thesis by (simp add: finish_row_side(2)[OF x(2)])
  qed
  show "r (Col (c @ ''_cmic'')) = Some Null" if "id_key r \<notin> id_key ` set cmic"
  proof -
    from that one k kl obtain r' where "x = merged_row cols_to_keep None (Some r')" by auto
    then have "x (Col (c @ ''_cmic'')) = Some Null"
      using merged_row_side(1)[OF assms(3,4)] by (simp add: side_val_def)
    then show ?thesis by (simp add: finish_row_side(1)[OF x(2)])
  qed
qed

lemma compare_col_Cons:
  "compare_col col (r # df) = Inr out \<longleftrightarrow>
     (\<exists>r' df'. compare_col_row col r = Inr r' \<and> compare_col col df = Inr df' \<and> out = r' # df')"
  by (auto simp: compare_col_def col_get_def col_set_def bind_r_Inr compare_col_row_Inr row_get_Inr)

lemma compare_col_rows_conv:
  "list_all2 (\<lambda>r r'. compare_col_row col r = Inr r') df df' \<Longrightarrow> compare_col col df = Inr df'"
proof (induction df df' rule: list_all2_induct)
  case Nil
  then show ?case by (simp add: compare_col_def col_get_def col_set_def bind_r_simps)
next
  case (Cons r df r' df')
  then show ?case by (simp add: compare_col_Cons)
qed

lemma force_row_Inr:
  "force_row r = Inr r' \<longleftrightarrow>
     (\<exists>s c. r (Col ''cont_or_co_sl'') = Some s \<and> r (Col ''cont_or_co_cmic'') = Some c \<and>
        r' = (if py_eq s (Text ''Contract'') \<and> py_eq c (Text ''Contract'')
              then r(Col ''co_date_zcomparison'' \<mapsto> BoolV True) else r))"
  by (auto simp: force_row_def bind_r_Inr row_get_Inr)

lemma force_Cons:
  "force_contract_dates (r # df) = Inr out \<longleftrightarrow>
     (\<exists>r' df'. force_row r = Inr r' \<and> force_contract_dates df = Inr df' \<and> out = r' # df')"
  by (auto simp: force_contract_dates_def col_get_def bind_r_Inr force_row_Inr row_get_Inr)

lemma force_rows_conv:
  "list_all2 (\<lambda>r r'. force_row r = Inr r') df df' \<Longrightarrow> force_contract_dates df = Inr df'"
proof (induction df df' rule: list_all2_induct)
  case Nil
  then show ?case by (simp add: force_contract_dates_def col_get_def bind_r_simps)
next
  case (Cons r df r' df')
  then show ?case by (simp add: force_Cons)
qed

lemma finish_rows_conv:
  assumes "list_all2 (\<lambda>x r. finish_row x = Inr r) m out"
  shows "bind_r (compare_cols m cols_to_compare) force_contract_dates = Inr out"
proof -
  have "list_all2 ((\<lambda>x y. seq_r (map compare_col_row cols_to_compare) x = Inr y) OO (\<lambda>y r. force_row y = Inr r)) m out"
    by (rule list_all2_mono[OF assms]) (auto simp: finish_row_def bind_r_Inr)
  then obtain y where a: "list_all2 (\<lambda>x y. seq_r (map compare_col_row cols_to_compare) x = Inr y) m y"
    and b: "list_all2 (\<lambda>y r. force_row y = Inr r) y out"
    by (auto simp: list.rel_compp)
  have "list_all2 (\<lambda>s t. \<forall>df df'. list_all2 (\<lambda>r r'. t r = Inr r') df df' \<longrightarrow> s df = Inr df')
          (map compare_col cols_to_compare) (map compare_col_row cols_to_compare)"
    by (auto simp: list.rel_map list_all2_same intro: compare_col_rows_conv)
  from seq_r_rows_conv[OF this a] have "compare_cols m cols_to_compare = Inr y"
    by (simp add: compare_cols_def)
  with force_rows_conv[OF b] show ?thesis by (simp add: bind_r_simps)
qed

lemma seq_compare_runs:
  "(\<forall>f \<in> set cs. x (Col (f @ ''_cmic'')) \<noteq> None \<and> x (Col (f @ ''_sl'')) \<noteq> None)
     \<Longrightarrow> \<exists>y. seq_r (map compare_col_row cs) x = Inr y"
proof (induction cs arbitrary: x)
  case Nil
  then show ?case by simp
next
  case (Cons c cs)
  then obtain a b where ab: "x (Col (c @ ''_cmic'')) = Some a" "x (Col (c @ ''_sl'')) = Some b" by auto
  let ?x1 = "x(Col (c @ ''_zcomparison'') \<mapsto> BoolV (py_eq a b))"
  have "\<forall>f \<in> set cs. ?x1 (Col (f @ ''_cmic'')) \<noteq> None \<and> ?x1 (Col (f @ ''_sl'')) \<noteq> None"
    using Cons.prems by (simp add: z_neq_side)
  from Cons.IH[OF this] obtain y where "seq_r (map compare_col_row cs) ?x1 = Inr y" by blast
  moreover have "compare_col_row c x = Inr ?x1" using ab by (simp add: compare_col_row_Inr)
  ultimately show ?case by (simp add: bind_r_simps)
qed

lemma compare_in_keep: "set cols_to_compare \<subseteq> set cols_to_keep - {''ID''}"
  by (simp add: cols_to_compare_def cols_to_keep_def)

lemma finish_merged_runs: "\<exists>r. finish_row (merged_row cols_to_keep l r') = Inr r"
proof -
  let ?x = "merged_row cols_to_keep l r'"
  have sides: "?x (Col (f @ ''_cmic'')) \<noteq> None \<and> ?x (Col (f @ ''_sl'')) \<noteq> None" if "f \<in> set cols_to_compare" for f
    using that compare_in_keep merged_row_side[of f cols_to_keep l r'] by auto
  then obtain y where y: "seq_r (map compare_col_row cols_to_compare) ?x = Inr y"
    using seq_compare_runs[of cols_to_compare ?x] by blast
  have c: "''cont_or_co'' \<in> set cols_to_compare" by (simp add: cols_to_compare_def)
  have "y (Col (''cont_or_co'' @ ''_sl'')) = ?x (Col (''cont_or_co'' @ ''_sl''))"
    "y (Col (''cont_or_co'' @ ''_cmic'')) = ?x (Col (''cont_or_co'' @ ''_cmic''))"
    using seq_compare[OF y] z_label_not_side by blast+
  with sides[OF c] obtain s k where "y (Col ''cont_or_co_sl'') = Some s" "y (Col ''cont_or_co_cmic'') = Some k"
    by auto
  then have "\<exists>r. force_row y = Inr r" by (simp add: force_row_Inr)
  with y show ?thesis by (auto simp: finish_row_def bind_r_simps)
qed

lemma merge_outer_merged:
  assumes "merge_outer cols L R = Inr m" "x \<in> set m"
  shows "\<exists>l r. x = merged_row cols l r"
proof -
  from merge_outer_Inr[OF assms(1)] assms(2) obtain k where
    "x \<in> set (join_group cols (filter (\<lambda>l. id_key l = k) L) (filter (\<lambda>r. id_key r = k) R))" by auto
  then show ?thesis by (auto simp: join_group_def split: if_splits)
qed

lemma select_row_runs:
  assumes "\<forall>c \<in> set cols. r (Col c) \<noteq> None"
  shows "\<exists>r'. select_row cols r = Inr r'"
proof -
  have "\<forall>c \<in> set cols. \<exists>v. row_get (Col c) r = Inr v" using assms by (auto simp: row_get_Inr)
  from list_all2_ex[OF this] obtain vs where "map_r (\<lambda>c. row_get (Col c) r) cols = Inr vs"
    by (auto simp: map_r_Inr)
  then show ?thesis by (simp add: select_row_def bind_r_simps)
qed

lemma select_cols_runs:
  assumes "\<forall>r \<in> set df. \<forall>c \<in> set cols. r (Col c) \<noteq> None"
  shows "\<exists>left. select_cols cols df = Inr left"
proof -
  have "\<forall>r \<in> set df. \<exists>r'. select_row cols r = Inr r'" using assms select_row_runs by blast
  from list_all2_ex[OF this] show ?thesis by (auto simp: select_cols_def map_r_Inr)
qed

lemma merge_outer_runs:
  assumes "\<forall>r \<in> set L. r (Col ''ID'') \<noteq> None" "\<forall>r \<in> set R. r (Col ''ID'') \<noteq> None"
  shows "\<exists>m. merge_outer cols L R = Inr m"
proof -
  have "\<forall>r \<in> set L. \<exists>v. row_get (Col ''ID'') r = Inr v" "\<forall>r \<in> set R. \<exists>v. row_get (Col ''ID'') r = Inr v"
    using assms by (auto simp: row_get_Inr)
  from list_all2_ex[OF this(1)] list_all2_ex[OF this(2)]
  obtain lk rk where "col_get (Col ''ID'') L = Inr lk" "col_get (Col ''ID'') R = Inr rk"
    by (auto simp: col_get_def map_r_Inr)
  then show ?thesis by (simp add: merge_outer_def bind_r_simps Let_def)
qed

lemma compare_dfs_runs:
  assumes "\<forall>r \<in> set cmic. \<forall>c \<in> set cols_to_keep. r (Col c) \<noteq> None"
    and "\<forall>r \<in> set sl. \<forall>c \<in> set cols_to_keep. r (Col c) \<noteq> None"
  shows "\<exists>out. compare_dfs cmic sl = Inr out"
proof -
  from select_cols_runs[OF assms(1)] obtain left where l: "select_cols cols_to_keep cmic = Inr left" by blast
  from select_cols_runs[OF assms(2)] obtain right where r: "select_cols cols_to_keep sl = Inr right" by blast
  have id: "''ID'' \<in> set cols_to_keep" by (simp add: cols_to_keep_def)
  have "\<forall>r \<in> set left. r (Col ''ID'') \<noteq> None" "\<forall>r \<in> set right. r (Col ''ID'') \<noteq> None"
    using select_cols_keys(2)[OF l id] select_cols_keys(2)[OF r id] id by blast+
  from merge_outer_runs[OF this] obtain m where m: "merge_outer cols_to_keep left right = Inr m" by blast
  have "\<forall>x \<in> set m. \<exists>r. finish_row x = Inr r"
    using merge_outer_merged[OF m] finish_merged_runs by blast
  from list_all2_ex[OF this] obtain out where "list_all2 (\<lambda>x r. finish_row x = Inr r) m out" by blast
  from finish_rows_conv[OF this] l r m show ?thesis
    by (auto simp: compare_dfs_def bind_r_simps)
qed

lemma canon_row_cols: "\<forall>c \<in> set cols_to_keep. canon_row ident mark date (Col c) \<noteq> None"
  by (simp add: cols_to_keep_def canon_row_def)

lemma canon_row_cells:
  "canon_row ident mark date (Col ''ID'') = Some (Text ident)"
  "canon_row ident mark date (Col ''cont_or_co'') = Some (Text mark)"
  "canon_row ident mark date (Col ''co_date'') = Some date"
  by (simp_all add: canon_row_def)

lemma id_key_canon: "id_key (canon_row ident mark date) = Text ident"
  by (simp add: id_key_def canon_row_cells hash_key_def)

lemma key_order_same: "key_order [k, k] = [k]" "key_order [k] = [k]"
  by (simp_all add: key_order_def uniq_def)

lemma side_val_Some: "l (Col c) \<noteq> None \<Longrightarrow> Some (side_val (Some l) c) = l (Col c)"
  by (auto simp: side_val_def)

lemma compare_dfs_pair:
  assumes a: "\<forall>c \<in> set cols_to_keep. a (Col c) \<noteq> None"
    and b: "\<forall>c \<in> set cols_to_keep. b (Col c) \<noteq> None"
    and k: "id_key a = id_key b"
  shows "\<exists>r. compare_dfs [a] [b] = Inr [r] \<and>
           (\<forall>c \<in> set cols_to_keep. c \<noteq> ''ID'' \<longrightarrow>
              r (Col (c @ ''_cmic'')) = a (Col c) \<and> r (Col (c @ ''_sl'')) = b (Col c))"
proof -
  have "\<exists>out. compare_dfs [a] [b] = Inr out" using a b by (intro compare_dfs_runs) simp_all
  then obtain out where run: "compare_dfs [a] [b] = Inr out" by blast
  from compare_dfs_rows[OF run] obtain left right m where l: "select_cols cols_to_keep [a] = Inr left"
    and r: "select_cols cols_to_keep [b] = Inr right" and m: "merge_outer cols_to_keep left right = Inr m"
    and rel: "list_all2 (\<lambda>x r. finish_row x = Inr r) m out" by blast
  from l have "list_all2 (\<lambda>r r'. select_row cols_to_keep r = Inr r') [a] left"
    by (simp only: select_cols_def map_r_Inr)
  then obtain la where la: "left = [la]" "select_row cols_to_keep a = Inr la"
    by (auto simp: list_all2_Cons1)
  from r have "list_all2 (\<lambda>r r'. select_row cols_to_keep r = Inr r') [b] right"
    by (simp only: select_cols_def map_r_Inr)
  then obtain lb where lb: "right = [lb]" "select_row cols_to_keep b = Inr lb"
    by (auto simp: list_all2_Cons1)
  have id: "''ID'' \<in> set cols_to_keep" by (simp add: cols_to_keep_def)
  have ka: "id_key la = id_key a" using select_cols_keys(1)[OF l id] la by simp
  have kb: "id_key lb = id_key a" using select_cols_keys(1)[OF r id] lb k by simp
  have "m = [merged_row cols_to_keep (Some la) (Some lb)]"
    using merge_outer_Inr[OF m] by (simp add: la lb ka kb key_order_same join_group_def)
  with rel obtain r' where out: "out = [r']" and fin: "finish_row (merged_row cols_to_keep (Some la) (Some lb)) = Inr r'"
    by (auto simp: list_all2_Cons1)
  have "r' (Col (c @ ''_cmic'')) = a (Col c) \<and> r' (Col (c @ ''_sl'')) = b (Col c)"
    if c: "c \<in> set cols_to_keep" "c \<noteq> ''ID''" for c
  proof -
    have "la (Col c) = a (Col c)" "lb (Col c) = b (Col c)"
      using select_row_Inr[OF la(2)] select_row_Inr[OF lb(2)] c by simp_all
    moreover have "la (Col c) \<noteq> None" "lb (Col c) \<noteq> None"
      using calculation a b c by simp_all
    ultimately show ?thesis
      using finish_row_side(1,2)[OF fin, of c] merged_row_side[OF c, of "Some la" "Some lb"]
        side_val_Some[of la c] side_val_Some[of lb c] by simp
  qed
  with run out show ?thesis by blast
qed

lemma compare_dfs_left_only:
  assumes a: "\<forall>c \<in> set cols_to_keep. a (Col c) \<noteq> None"
  shows "\<exists>r. compare_dfs [a] [] = Inr [r] \<and>
           (\<forall>c \<in> set cols_to_keep. c \<noteq> ''ID'' \<longrightarrow>
              r (Col (c @ ''_cmic'')) = a (Col c) \<and> r (Col (c @ ''_sl'')) = Some Null)"
proof -
  have "\<exists>out. compare_dfs [a] [] = Inr out" using a by (intro compare_dfs_runs) simp_all
  then obtain out where run: "compare_dfs [a] [] = Inr out" by blast
  from compare_dfs_rows[OF run] obtain left right m where l: "select_cols cols_to_keep [a] = Inr left"
    and r: "select_cols cols_to_keep [] = Inr right" and m: "merge_outer cols_to_keep left right = Inr m"
    and rel: "list_all2 (\<lambda>x r. finish_row x = Inr r) m out" by blast
  from l have "list_all2 (\<lambda>r r'. select_row cols_to_keep r = Inr r') [a] left"
    by (simp only: select_cols_def map_r_Inr)
  then obtain la where la: "left = [la]" "select_row cols_to_keep a = Inr la"
    by (auto simp: list_all2_Cons1)
  from r have lb: "right = []" by (simp add: select_cols_def)
  have "m = [merged_row cols_to_keep (Some la) None]"
    using merge_outer_Inr[OF m] by (simp add: la lb key_order_same join_group_def)
  with rel obtain r' where out: "out = [r']" and fin: "finish_row (merged_row cols_to_keep (Some la) None) = Inr r'"
    by (auto simp: list_all2_Cons1)
  have "r' (Col (c @ ''_cmic'')) = a (Col c) \<and> r' (Col (c @ ''_sl'')) = Some Null"
    if c: "c \<in> set cols_to_keep" "c \<noteq> ''ID''" for c
  proof -
    have "la (Col c) = a (Col c)" using select_row_Inr[OF la(2)] c by simp
    moreover have "la (Col c) \<noteq> None" using calculation a c by simp
    ultimately show ?thesis
      using finish_row_side(1,2)[OF fin, of c] merged_row_side[OF c, of "Some la" None]
        side_val_Some[of la c] by (simp add: side_val_def)
  qed
  with run out show ?thesis by blast
qed

text \<open>
  Two Contract records with the same ID, one without a date and one with a date: the dates
  differ and the comparison is true.
\<close>

theorem contract_rows_force_co_date_witness:
  "\<exists>r. compare_dfs [canon_row ''100_5_20_0010000_3_Contract'' ''Contract'' Null]
                     [canon_row ''100_5_20_0010000_3_Contract'' ''Contract'' (DateV 20190101)] = Inr [r] \<and>
     r (Col ''co_date_cmic'') = Some Null \<and> r (Col ''co_date_sl'') = Some (DateV 20190101) \<and>
     r (Col ''co_date_zcomparison'') = Some (BoolV True)"
proof -
  let ?a = "canon_row ''100_5_20_0010000_3_Contract'' ''Contract'' Null"
  let ?b = "canon_row ''100_5_20_0010000_3_Contract'' ''Contract'' (DateV 20190101)"
  have "\<exists>r. compare_dfs [?a] [?b] = Inr [r] \<and>
           (\<forall>c \<in> set cols_to_keep. c \<noteq> ''ID'' \<longrightarrow>
              r (Col (c @ ''_cmic'')) = ?a (Col c) \<and> r (Col (c @ ''_sl'')) = ?b (Col c))"
    by (rule compare_dfs_pair[OF canon_row_cols canon_row_cols]) (simp add: id_key_canon)
  then obtain r where run: "compare_dfs [?a] [?b] = Inr [r]"
    and cells: "\<forall>c \<in> set cols_to_keep. c \<noteq> ''ID'' \<longrightarrow>
              r (Col (c @ ''_cmic'')) = ?a (Col c) \<and> r (Col (c @ ''_sl'')) = ?b (Col c)"
    by (elim exE conjE)
  have c: "''cont_or_co'' \<in> set cols_to_keep" "''co_date'' \<in> set cols_to_keep"
    by (simp_all add: cols_to_keep_def)
  have m: "r (Col ''cont_or_co_cmic'') = Some (Text ''Contract'')" "r (Col ''cont_or_co_sl'') = Some (Text ''Contract'')"
    using cells c(1) by (auto simp: canon_row_cells)
  have d: "r (Col ''co_date_cmic'') = Some Null" "r (Col ''co_date_sl'') = Some (DateV 20190101)"
    using cells c(2) by (auto simp: canon_row_cells)
  have "r (Col ''co_date_zcomparison'') = Some (BoolV True)"
    by (rule contract_rows_force_co_date[OF run _ m]) simp
  with run d show ?thesis by blast
qed

text \<open>
  A record whose ID is in the CMIC set only, without a date: both \<^verbatim>\<open>co_date\<close> cells of the
  row are missing and the comparison is false.
\<close>

theorem null_never_equals_null_witness:
  "\<exists>r. compare_dfs [canon_row ''100_5_20_0010000_3_Contract'' ''Contract'' Null] [] = Inr [r] \<and>
     r (Col ''co_date_cmic'') = Some Null \<and> r (Col ''co_date_sl'') = Some Null \<and>
     r (Col ''cont_or_co_sl'') = Some Null \<and>
     r (Col ''co_date_zcomparison'') = Some (BoolV False)"
proof -
  let ?a = "canon_row ''100_5_20_0010000_3_Contract'' ''Contract'' Null"
  from compare_dfs_left_only[OF canon_row_cols, of "''100_5_20_0010000_3_Contract''" "''Contract''" Null]
  obtain r where run: "compare_dfs [?a] [] = Inr [r]"
    and cells: "\<forall>c \<in> set cols_to_keep. c \<noteq> ''ID'' \<longrightarrow>
              r (Col (c @ ''_cmic'')) = ?a (Col c) \<and> r (Col (c @ ''_sl'')) = Some Null"
    by blast
  have c: "''cont_or_co'' \<in> set cols_to_keep" "''co_date'' \<in> set cols_to_keep"
    by (simp_all add: cols_to_keep_def)
  have m: "r (Col ''cont_or_co_sl'') = Some Null" using cells c(1) by auto
  have d: "r (Col (''co_date'' @ ''_cmic'')) = Some Null" "r (Col (''co_date'' @ ''_sl'')) = Some Null"
    using cells c(2) by (auto simp: canon_row_cells)
  have "r (Col (''co_date'' @ ''_zcomparison'')) = Some (BoolV False)"
    by (rule null_never_equals_null[OF run _ _ d]) (simp_all add: cols_to_compare_def m)
  with run d m show ?thesis by simp
qed

section \<open>The outer join\<close>

lemma distinct_count_list: "distinct xs \<longleftrightarrow> (\<forall>k. count_list xs k \<le> 1)"
proof (induction xs)
  case Nil
  then show ?case by simp
next
  case (Cons x xs)
  show ?case
  proof
    assume d: "distinct (x # xs)"
    then have "\<forall>k. count_list xs k \<le> 1" using Cons.IH by simp
    moreover have "count_list xs x = 0" using d by simp
    ultimately show "\<forall>k. count_list (x # xs) k \<le> 1" by auto
  next
    assume c: "\<forall>k. count_list (x # xs) k \<le> 1"
    then have "count_list xs x = 0" by (metis Suc_eq_plus1 count_list.simps(2) le_zero_eq not_less_eq_eq One_nat_def)
    then have "x \<notin> set xs" by (simp add: count_list_0_iff)
    moreover have "\<forall>k. count_list xs k \<le> 1"
    proof
      fix k show "count_list xs k \<le> 1" using c[rule_format, of k] by (simp split: if_splits)
    qed
    ultimately show "distinct (x # xs)" using Cons.IH by simp
  qed
qed

lemma pair_count_le_1: "m \<le> 1 \<Longrightarrow> n \<le> 1 \<Longrightarrow> pair_count m n \<le> 1"
proof -
  assume "m \<le> 1" "n \<le> 1"
  then have "m = 0 \<or> m = 1" "n = 0 \<or> n = 1" by auto
  then show ?thesis by (auto simp: pair_count_def)
qed

lemma pair_count_0: "pair_count m n = 0 \<longleftrightarrow> m = 0 \<and> n = 0"
  by (auto simp: pair_count_def)

text \<open>
  Claim C2, as amended. \<^verbatim>\<open>compare_dfs\<close> is a full outer join on the ID. A key that occurs
  \<open>m\<close> times in the CMIC set and \<open>n\<close> times in the SL set occurs \<open>m * n\<close> times in the
  result, and \<open>m\<close> or \<open>n\<close> times when the other set does not have it; so the keys of the
  result are the keys of the two inputs, and when no key is repeated within an input, no key
  is repeated in the result: every ID present in either input then appears exactly once. A
  row whose key is in the CMIC set only has every \<^verbatim>\<open>_sl\<close> field missing, and a row whose key
  is in the SL set only has every \<^verbatim>\<open>_cmic\<close> field missing.
\<close>

theorem compare_dfs_outer_join:
  assumes "compare_dfs cmic sl = Inr out"
  shows "(\<forall>k. count_list (map id_key out) k =
              pair_count (count_list (map id_key cmic) k) (count_list (map id_key sl) k)) \<and>
         set (map id_key out) = set (map id_key cmic) \<union> set (map id_key sl) \<and>
         (distinct (map id_key cmic) \<and> distinct (map id_key sl) \<longrightarrow> distinct (map id_key out)) \<and>
         (\<forall>r \<in> set out. \<forall>c \<in> set cols_to_keep. c \<noteq> ''ID'' \<longrightarrow>
            (id_key r \<notin> id_key ` set sl \<longrightarrow> r (Col (c @ ''_sl'')) = Some Null) \<and>
            (id_key r \<notin> id_key ` set cmic \<longrightarrow> r (Col (c @ ''_cmic'')) = Some Null))"
proof (intro conjI allI ballI impI)
  fix k
  show "count_list (map id_key out) k =
          pair_count (count_list (map id_key cmic) k) (count_list (map id_key sl) k)"
    by (rule compare_dfs_count[OF assms])
next
  show "set (map id_key out) = set (map id_key cmic) \<union> set (map id_key sl)"
  proof (rule set_eqI)
    fix k
    have "k \<in> set (map id_key out) \<longleftrightarrow> count_list (map id_key out) k \<noteq> 0"
      by (simp add: count_list_0_iff)
    also have "\<dots> \<longleftrightarrow> count_list (map id_key cmic) k \<noteq> 0 \<or> count_list (map id_key sl) k \<noteq> 0"
      by (simp add: compare_dfs_count[OF assms] pair_count_0)
    also have "\<dots> \<longleftrightarrow> k \<in> set (map id_key cmic) \<union> set (map id_key sl)"
      by (simp add: count_list_0_iff)
    finally show "k \<in> set (map id_key out) \<longleftrightarrow> k \<in> set (map id_key cmic) \<union> set (map id_key sl)" .
  qed
next
  assume "distinct (map id_key cmic) \<and> distinct (map id_key sl)"
  then have "\<forall>k. count_list (map id_key cmic) k \<le> 1" "\<forall>k. count_list (map id_key sl) k \<le> 1"
    by (simp_all add: distinct_count_list)
  then have "\<forall>k. count_list (map id_key out) k \<le> 1"
    using pair_count_le_1 by (simp only: compare_dfs_count[OF assms]) blast
  then show "distinct (map id_key out)" by (simp add: distinct_count_list)
next
  fix r c assume "r \<in> set out" "c \<in> set cols_to_keep" "c \<noteq> ''ID''" "id_key r \<notin> id_key ` set sl"
  then show "r (Col (c @ ''_sl'')) = Some Null" by (rule compare_dfs_one_sided(1)[OF assms])
next
  fix r c assume "r \<in> set out" "c \<in> set cols_to_keep" "c \<noteq> ''ID''" "id_key r \<notin> id_key ` set cmic"
  then show "r (Col (c @ ''_cmic'')) = Some Null" by (rule compare_dfs_one_sided(2)[OF assms])
qed

text \<open>Two sets that share the record B; A is in the CMIC set only and C in the SL set only.\<close>

theorem compare_dfs_outer_join_witness:
  "\<exists>out. compare_dfs [canon_row ''A'' ''Contract'' Null, canon_row ''B'' ''CO'' (DateV 20190101)]
                       [canon_row ''B'' ''CO'' (DateV 20190101), canon_row ''C'' ''Contract'' Null] = Inr out \<and>
     distinct (map id_key out) \<and>
     set (map id_key out) = {Text ''A'', Text ''B'', Text ''C''} \<and>
     (\<exists>r \<in> set out. id_key r = Text ''A'' \<and> r (Col ''job_no_sl'') = Some Null) \<and>
     (\<exists>r \<in> set out. id_key r = Text ''C'' \<and> r (Col ''job_no_cmic'') = Some Null)"
proof -
  let ?L = "[canon_row ''A'' ''Contract'' Null, canon_row ''B'' ''CO'' (DateV 20190101)]"
  let ?R = "[canon_row ''B'' ''CO'' (DateV 20190101), canon_row ''C'' ''Contract'' Null]"
  have "\<exists>out. compare_dfs ?L ?R = Inr out"
    using canon_row_cols by (intro compare_dfs_runs) simp_all
  then obtain out where run: "compare_dfs ?L ?R = Inr out" by (elim exE)
  note t = compare_dfs_outer_join[OF run]
  note t_set = t[THEN conjunct2, THEN conjunct1]
  note t_dist = t[THEN conjunct2, THEN conjunct2, THEN conjunct1]
  note t_null = t[THEN conjunct2, THEN conjunct2, THEN conjunct2]
  have d: "distinct (map id_key out)"
    by (rule t_dist[rule_format]) (simp add: id_key_canon)
  have s: "set (map id_key out) = {Text ''A'', Text ''B'', Text ''C''}"
    unfolding t_set by (simp add: id_key_canon insert_commute)
  have j: "''job_no'' \<in> set cols_to_keep" "''job_no'' \<noteq> ''ID''" by (simp_all add: cols_to_keep_def)
  have "Text ''A'' \<in> id_key ` set out" using s by simp
  then obtain ra where ra: "ra \<in> set out" "Text ''A'' = id_key ra" by (elim imageE)
  have "id_key ra \<notin> id_key ` set ?R" by (simp add: ra(2)[symmetric] id_key_canon)
  with t_null[rule_format, OF ra(1) j(1) j(2)] have na: "ra (Col ''job_no_sl'') = Some Null" by simp
  have "Text ''C'' \<in> id_key ` set out" using s by simp
  then obtain rc where rc: "rc \<in> set out" "Text ''C'' = id_key rc" by (elim imageE)
  have "id_key rc \<notin> id_key ` set ?L" by (simp add: rc(2)[symmetric] id_key_canon)
  with t_null[rule_format, OF rc(1) j(1) j(2)] have nc: "rc (Col ''job_no_cmic'') = Some Null" by simp
  have ea: "\<exists>r \<in> set out. id_key r = Text ''A'' \<and> r (Col ''job_no_sl'') = Some Null"
    using ra na by (intro bexI[of _ ra]) simp_all
  have ec: "\<exists>r \<in> set out. id_key r = Text ''C'' \<and> r (Col ''job_no_cmic'') = Some Null"
    using rc nc by (intro bexI[of _ rc]) simp_all
  show ?thesis
    by (rule exI[of _ out]) (intro conjI run d s ea ec)
qed

lemma row_apply_keeps: "row_apply dst src f r = Inr r' \<Longrightarrow> r c \<noteq> None \<Longrightarrow> r' c \<noteq> None"
  by (auto simp: row_apply_Inr)

lemma seq_r_keeps:
  "(\<forall>s \<in> set ss. \<forall>r r'. s r = Inr r' \<longrightarrow> r c \<noteq> None \<longrightarrow> r' c \<noteq> None) \<Longrightarrow>
     seq_r ss r = Inr r' \<Longrightarrow> r c \<noteq> None \<Longrightarrow> r' c \<noteq> None"
proof (induction ss arbitrary: r)
  case Nil
  then show ?case by simp
next
  case (Cons s ss)
  from Cons.prems(2) obtain x where x: "s r = Inr x" "seq_r ss x = Inr r'" by (auto simp: bind_r_Inr)
  have "x c \<noteq> None" using Cons.prems(1,3) x(1) by simp
  with Cons.IH[OF _ x(2)] Cons.prems(1) show ?case by simp
qed

lemma clean_cmic_row_keeps:
  assumes "clean_cmic_row P r = Inr r'" "r c \<noteq> None"
  shows "r' c \<noteq> None"
proof -
  from assms(1) obtain x i where x: "cmic_columns P r = Inr x" and r': "r' = x(Col ''ID'' \<mapsto> i)"
    by (auto simp: clean_cmic_row_split)
  have "x c \<noteq> None"
    by (rule seq_r_keeps[OF _ x[unfolded cmic_columns_def] assms(2)])
       (auto simp: cols_to_convert_def dest: row_apply_keeps)
  then show ?thesis by (simp add: r')
qed

lemma rename_cmic_line_cols:
  "\<forall>c \<in> set cols_to_keep. c \<noteq> ''cont_or_co'' \<longrightarrow> c \<noteq> ''ID'' \<longrightarrow>
     rename_row cmic_names (cmic_line j s i p c' co) (Col c) \<noteq> None"
  by (simp add: cols_to_keep_def rename_row_def cmic_names_def cmic_line_def)

lemma clean_cmic_line_cols:
  assumes "clean_cmic_row P (rename_row cmic_names (cmic_line j s i p c' co)) = Inr r'"
  shows "\<forall>c \<in> set cols_to_keep. r' (Col c) \<noteq> None"
proof
  fix c assume c: "c \<in> set cols_to_keep"
  from assms obtain x k where x: "cmic_columns P (rename_row cmic_names (cmic_line j s i p c' co)) = Inr x"
    and r': "r' = x(Col ''ID'' \<mapsto> k)"
    by (auto simp: clean_cmic_row_split)
  show "r' (Col c) \<noteq> None"
  proof (cases "c = ''ID'' \<or> c = ''cont_or_co''")
    case True
    with cmic_columns_Inr[OF x] show ?thesis by (auto simp: r')
  next
    case False
    with rename_cmic_line_cols c show ?thesis
      by (intro clean_cmic_row_keeps[OF assms]) blast
  qed
qed

text \<open>
  Claim C2 as stated fails on normalised sets in which an ID is repeated: \<^verbatim>\<open>clean_cmic\<close>
  turns two equal CMIC lines into two records with the same ID, and the join of that set with
  an SL set that holds another record has the ID twice.
\<close>

theorem duplicate_ID_joins_twice:
  "\<exists>norm out.
     clean_cmic plain_pandas
       [cmic_line (IntV 100) (Text ''5'') (IntV 20) (Text ''0010000'') (IntV 300) (IntV 0),
        cmic_line (IntV 100) (Text ''5'') (IntV 20) (Text ''0010000'') (IntV 300) (IntV 0)] = Inr norm \<and>
     compare_dfs norm [canon_row ''100_5_21_0010000_3_Contract'' ''Contract'' Null] = Inr out \<and>
     count_list (map id_key out) (Text ''100_5_20_0010000_3_Contract'') = 2"
proof -
  let ?l = "cmic_line (IntV 100) (Text ''5'') (IntV 20) (Text ''0010000'') (IntV 300) (IntV 0)"
  let ?s = "canon_row ''100_5_21_0010000_3_Contract'' ''Contract'' Null"
  obtain a b where norm: "clean_cmic plain_pandas [?l, ?l] = Inr [a, b]"
    and a: "clean_cmic_row plain_pandas (rename_row cmic_names ?l) = Inr a"
    and b: "clean_cmic_row plain_pandas (rename_row cmic_names ?l) = Inr b"
    using clean_cmic_two_int_lines by blast
  have ab: "b = a" using a b by simp
  have "a (Col ''ID'') = Some (Text ''100_5_20_0010000_3_Contract'')"
    using example_row[OF a] by (simp add: rename_cmic_line)
  then have k: "id_key a = Text ''100_5_20_0010000_3_Contract''"
    by (simp add: id_key_def hash_key_def)
  have "\<exists>out. compare_dfs [a, a] [?s] = Inr out"
    using clean_cmic_line_cols[OF a] canon_row_cols by (intro compare_dfs_runs) simp_all
  then obtain out where out: "compare_dfs [a, a] [?s] = Inr out" by (elim exE)
  have "count_list (map id_key out) (Text ''100_5_20_0010000_3_Contract'') = 2"
    by (simp add: compare_dfs_count[OF out] k id_key_canon pair_count_def)
  show ?thesis
    by (rule exI[of _ "[a, a]"], rule exI[of _ out])
       (intro conjI norm[unfolded ab] out \<open>count_list (map id_key out) (Text ''100_5_20_0010000_3_Contract'') = 2\<close>)
qed

section \<open>Further facts\<close>

text \<open>
  The row filter of \<^verbatim>\<open>clean_sl\<close> in closed form: the rows marked Contract, then the rows
  with a date, sorted by index label. A row is in the result when it is marked Contract or has
  a date, and the order of the index is kept; a row that is both is in the result twice.
\<close>

lemma mask_rows_filter:
  assumes "list_all2 (\<lambda>x v. row_get c (snd x) = Inr v) df vs"
  shows "mask_rows (map p vs) df = filter (\<lambda>x. \<exists>v. snd x c = Some v \<and> p v) df"
  using assms
proof (induction df vs rule: list_all2_induct)
  case Nil
  then show ?case by (simp add: mask_rows_def)
next
  case (Cons x df v vs)
  then show ?case by (auto simp: mask_rows_def row_get_Inr)
qed

lemma contract_or_dated_Inr:
  assumes "contract_or_dated df = Inr out"
  shows "out = sort_key fst
           (filter (\<lambda>x. snd x (Col ''cont_or_co'') = Some (Text ''Contract'')) df
            @ filter (\<lambda>x. \<exists>d. snd x (Col ''co_date'') = Some d \<and> d \<noteq> Null) df)"
proof -
  from assms obtain cs ds where cs: "list_all2 (\<lambda>r v. row_get (Col ''cont_or_co'') r = Inr v) (map snd df) cs"
    and ds: "list_all2 (\<lambda>r v. row_get (Col ''co_date'') r = Inr v) (map snd df) ds"
    and out: "out = sort_index
         (mask_rows (map (\<lambda>c. py_eq c (Text ''Contract'')) cs) df
          @ mask_rows (map (\<lambda>d. \<not> (d = Null)) ds) df)"
    by (auto simp: contract_or_dated_def bind_r_Inr col_get_def map_r_Inr)
  have a: "mask_rows (map (\<lambda>c. py_eq c (Text ''Contract'')) cs) df
      = filter (\<lambda>x. snd x (Col ''cont_or_co'') = Some (Text ''Contract'')) df"
    using mask_rows_filter[of "Col ''cont_or_co''" df cs "\<lambda>c. py_eq c (Text ''Contract'')"] cs
    by (simp add: list.rel_map py_eq_Contract)
  have b: "mask_rows (map (\<lambda>d. \<not> (d = Null)) ds) df
      = filter (\<lambda>x. \<exists>d. snd x (Col ''co_date'') = Some d \<and> d \<noteq> Null) df"
    using mask_rows_filter[of "Col ''co_date''" df ds "\<lambda>d. \<not> (d = Null)"] ds
    by (simp add: list.rel_map)
  show ?thesis by (simp add: out a b sort_index_def)
qed

text \<open>
  A kept CMIC row whose category is text makes \<^verbatim>\<open>clean_cmic\<close> raise: \<^verbatim>\<open>/ 100\<close> is not
  defined on a string.
\<close>

lemma text_category_raises:
  assumes "r \<in> set (cmic_kept df)" "r (Col ''category'') = Some (Text s)"
  shows "\<exists>e. clean_cmic P df = Inl e"
proof (cases "clean_cmic P df")
  case (Inl e)
  then show ?thesis by blast
next
  case (Inr out)
  with clean_cmic_kept[OF Inr] assms(1) obtain r' where "clean_cmic_row P r = Inr r'"
    by (auto simp: in_set_conv_nth list_all2_conv_all_nth)
  then obtain x where "cmic_columns P r = Inr x" by (auto simp: clean_cmic_row_split)
  from cmic_columns_Inr[OF this] assms(2) have False by (auto simp: cell_div_def)
  then show ?thesis ..
qed

end
